theory Spec2Isabelle
  imports Main "HOL-Library.Sublist" "HOL-Library.Char_ord" "HOL-Library.List_Lexorder"
    "HOL-Library.AList"
begin

section \<open>Post-processing of the captured log\<close>

subsection \<open>The regular expression \<open>INFO.*?local\<close> under \<open>re.DOTALL\<close>\<close>

text \<open>
  The notebooks call \<^verbatim>\<open>re.findall(r'INFO.*?local', captured_err_stream.stdout, re.DOTALL)\<close>.
  The pattern is a sequence of literal characters and one lazy star over the dot; with
  \<^verbatim>\<open>re.DOTALL\<close> the dot accepts every character, the newline included.  The matcher
  below is the backtracking search of the \<^verbatim>\<open>re\<close> module on such patterns: a literal
  consumes one equal character, the lazy star first tries the rest of the pattern and
  only on failure consumes one more character.  The result is the matched text.
\<close>

datatype rx = Lit char | DotLazyStar

fun rx_match :: "rx list \<Rightarrow> string \<Rightarrow> string option" where
  "rx_match [] s = Some []"
| "rx_match (Lit c # p) [] = None"
| "rx_match (Lit c # p) (x # xs) =
     (if x = c then map_option ((#) x) (rx_match p xs) else None)"
| "rx_match (DotLazyStar # p) s =
     (case rx_match p s of
        Some m \<Rightarrow> Some m
      | None \<Rightarrow> (case s of
                   [] \<Rightarrow> None
                 | x # xs \<Rightarrow> map_option ((#) x) (rx_match (DotLazyStar # p) xs)))"

lemma rx_match_prefix: "rx_match p s = Some m \<Longrightarrow> prefix m s"
proof (induction p s arbitrary: m rule: rx_match.induct)
  case (4 p s)
  then show ?case
    by (cases "rx_match p s"; cases s) auto
qed (auto split: if_splits)

lemma rx_match_length: "rx_match p s = Some m \<Longrightarrow> length m \<le> length s"
  by (drule rx_match_prefix) (rule prefix_length_le)

text \<open>
  \<^verbatim>\<open>re.findall\<close> scans from left to right: where the pattern matches, the match is
  collected and the scan resumes behind it; elsewhere the scan moves on by one character.
  The branch for an empty match only keeps the function total: the pattern of the
  notebooks has nine literal characters and never matches the empty string.
\<close>

function findall :: "rx list \<Rightarrow> string \<Rightarrow> string list" where
  "findall p s =
     (case rx_match p s of
        Some m \<Rightarrow>
          (if m = [] then (case s of [] \<Rightarrow> [[]] | x # xs \<Rightarrow> [] # findall p xs)
           else m # findall p (drop (length m) s))
      | None \<Rightarrow> (case s of [] \<Rightarrow> [] | x # xs \<Rightarrow> findall p xs))"
  by pat_completeness auto
termination
proof (relation "measure (\<lambda>(p, s). length s)")
  fix p :: "rx list" and s m :: string
  assume "rx_match p s = Some m" "m \<noteq> []"
  then have "0 < length m" "length m \<le> length s"
    by (auto dest: rx_match_length)
  then have "length s - length m < length s"
    by arith
  then show "((p, drop (length m) s), (p, s)) \<in> measure (\<lambda>(p, s). length s)"
    by simp
qed auto

declare findall.simps [simp del]

definition epoch_pattern :: "rx list" where
  "epoch_pattern = map Lit ''INFO'' @ [DotLazyStar] @ map Lit ''local''"

definition list_epochs :: "string \<Rightarrow> string list" where
  "list_epochs stdout = findall epoch_pattern stdout"

subsection \<open>The epoch summaries, as the matches are described\<close>







subsection \<open>The matcher on the pattern of the notebooks\<close>









subsection \<open>Selecting the epochs to display\<close>

text \<open>
  \<^verbatim>\<open>str.splitlines\<close>: the text is cut at every line boundary, a carriage return followed
  by a line feed counting as one boundary; the boundaries are not kept, and a boundary at
  the very end opens no further line.  The line boundaries are those of Python strings, as
  far as they are single characters below 256.
\<close>

definition is_linebreak :: "char \<Rightarrow> bool" where
  "is_linebreak c \<longleftrightarrow>
     c \<in> {CHR 0x0A, CHR 0x0D, CHR 0x0B, CHR 0x0C, CHR 0x1C, CHR 0x1D, CHR 0x1E, CHR 0x85}"

function splitlines :: "string \<Rightarrow> string list" where
  "splitlines s =
     (if s = [] then []
      else takeWhile (\<lambda>c. \<not> is_linebreak c) s #
        (case dropWhile (\<lambda>c. \<not> is_linebreak c) s of
           [] \<Rightarrow> []
         | c # r \<Rightarrow>
             (case r of
                [] \<Rightarrow> []
              | d # r' \<Rightarrow> if c = CHR 0x0D \<and> d = CHR 0x0A then splitlines r' else splitlines r)))"
  by pat_completeness auto
termination
proof (relation "measure length")
  fix s c r d r'
  assume "dropWhile (\<lambda>c. \<not> is_linebreak c) s = c # r" "r = d # r'"
  then have "length (c # d # r') \<le> length s"
    by (metis length_dropWhile_le)
  then show "(r', s) \<in> measure length" "(r, s) \<in> measure length"
    using \<open>r = d # r'\<close> by auto
qed auto

declare splitlines.simps [simp del]

text \<open>\<^verbatim>\<open>sep.join(lines)\<close>.\<close>

fun join :: "string \<Rightarrow> string list \<Rightarrow> string" where
  "join sep [] = []"
| "join sep [l] = l"
| "join sep (l # ls) = l @ sep @ join sep ls"

text \<open>
  \<^verbatim>\<open>[epoch for idx, epoch in enumerate(list_epochs) if idx in idxs]\<close> and
  \<^verbatim>\<open>"\n".join(element.splitlines()[:-1])\<close>.
\<close>

definition select_epochs :: "nat list \<Rightarrow> string list \<Rightarrow> string list" where
  "select_epochs idxs epochs =
     map snd (filter (\<lambda>(idx, epoch). idx \<in> set idxs) (enumerate 0 epochs))"

definition drop_last_line :: "string \<Rightarrow> string" where
  "drop_last_line element = join [CHR 0x0A] (butlast (splitlines element))"

text \<open>
  The five notebooks that run reinforcement learning, and the list \<open>data\<close> each of them
  prints: the use case for DRD2 keeps the matches 1, 150 and 299, the demo with DockStream
  keeps every match, the three other demos keep the matches 1, 75 and 124.
\<close>

datatype rl_notebook = Use_Case_DRD2 | RL_DockStream | RL_Tanimoto | RL_Selectivity | RL_Exploration

fun data :: "rl_notebook \<Rightarrow> string \<Rightarrow> string list" where
  "data Use_Case_DRD2 stdout =
     map drop_last_line (select_epochs [1, 150, 299] (list_epochs stdout))"
| "data RL_DockStream stdout =
     map drop_last_line (map snd (enumerate 0 (list_epochs stdout)))"
| "data RL_Tanimoto stdout =
     map drop_last_line (select_epochs [1, 75, 124] (list_epochs stdout))"
| "data RL_Selectivity stdout =
     map drop_last_line (select_epochs [1, 75, 124] (list_epochs stdout))"
| "data RL_Exploration stdout =
     map drop_last_line (select_epochs [1, 75, 124] (list_epochs stdout))"

lemma select_epochs_nths: "select_epochs idxs epochs = nths epochs (set idxs)"
  unfolding select_epochs_def nths_def
  by (simp add: enumerate_eq_zip zip_commute[of epochs] filter_map comp_def case_prod_unfold)

lemma nths_tl: "0 \<notin> A \<Longrightarrow> nths xs A = nths (tl xs) {j. Suc j \<in> A}"
  by (cases xs) (simp_all add: nths_Cons)

lemma splitlines_Nil: "splitlines [] = []"
  by (subst splitlines.simps) simp

lemma splitlines_line:
  assumes "\<forall>c\<in>set l. \<not> is_linebreak c" "l \<noteq> []"
  shows "splitlines l = [l]"
proof -
  have tw: "takeWhile (\<lambda>c. \<not> is_linebreak c) l = l"
    and dw: "dropWhile (\<lambda>c. \<not> is_linebreak c) l = []"
    using assms(1) by simp_all
  show ?thesis
    by (subst splitlines.simps) (simp only: tw dw assms(2) if_False list.case)
qed

lemma splitlines_line_nl:
  assumes "\<forall>c\<in>set l. \<not> is_linebreak c" "r \<noteq> []"
  shows "splitlines (l @ CHR 0x0A # r) = l # splitlines r"
proof -
  have nl: "is_linebreak (CHR 0x0A)"
    by (simp add: is_linebreak_def)
  have tw: "takeWhile (\<lambda>c. \<not> is_linebreak c) (l @ CHR 0x0A # r) = l"
    using assms(1) nl by simp
  have dw: "dropWhile (\<lambda>c. \<not> is_linebreak c) (l @ CHR 0x0A # r) = CHR 0x0A # r"
    using assms(1) nl by simp
  obtain d r' where r: "r = d # r'"
    using assms(2) by (cases r) auto
  show ?thesis
    by (subst splitlines.simps) (simp only: tw dw, simp add: r)
qed

lemma splitlines_join:
  assumes "\<forall>l\<in>set ls. \<forall>c\<in>set l. \<not> is_linebreak c" "ls \<noteq> []" "last ls \<noteq> []"
  shows "splitlines (join [CHR 0x0A] ls) = ls"
  using assms
proof (induction ls rule: induct_list012)
  case (2 l)
  then show ?case by (simp add: splitlines_line)
next
  case More: (3 l m ms)
  have "join [CHR 0x0A] (m # ms) \<noteq> []"
    using More.prems(3) by (cases ms) auto
  with More show ?case
    by (simp add: splitlines_line_nl)
qed simp

lemma drop_last_line_join:
  assumes "\<forall>x\<in>set (ls @ [l]). \<forall>c\<in>set x. \<not> is_linebreak c" "l \<noteq> []"
  shows "drop_last_line (join [CHR 0x0A] (ls @ [l])) = join [CHR 0x0A] ls"
  unfolding drop_last_line_def using assms by (subst splitlines_join) auto


lemma card_nths_bound: "length (nths xs A) \<le> card A" if "finite A"
proof -
  have "{i. i < length xs \<and> i \<in> A} \<subseteq> A" by auto
  then show ?thesis
    using that by (simp add: length_nths card_mono)
qed

subsection \<open>The summaries in the output\<close>











subsection \<open>Lines and their ends\<close>

text \<open>
  A text seen as its lines, each with the line boundary that ends it: a boundary is one
  of the boundary characters or a carriage return with a line feed, and only the last
  line, if it is not empty, may go without one.  A lone carriage return is a boundary of
  its own only where no line feed follows it.
\<close>

definition is_boundary :: "string \<Rightarrow> bool" where
  "is_boundary b \<longleftrightarrow> b = [CHR 0x0D, CHR 0x0A] \<or> (length b = 1 \<and> is_linebreak (hd b))"

fun lines_with_ends :: "(string \<times> string) list \<Rightarrow> bool" where
  "lines_with_ends [] = True"
| "lines_with_ends [(l, b)] =
     (list_all (\<lambda>c. \<not> is_linebreak c) l \<and> (is_boundary b \<or> (b = [] \<and> l \<noteq> [])))"
| "lines_with_ends ((l, b) # (l', b') # rest) =
     (list_all (\<lambda>c. \<not> is_linebreak c) l \<and> is_boundary b \<and>
      \<not> (b = [CHR 0x0D] \<and> l' = [] \<and> b' = [CHR 0x0A]) \<and>
      lines_with_ends ((l', b') # rest))"

definition text_of :: "(string \<times> string) list \<Rightarrow> string" where
  "text_of ps = concat (map (\<lambda>(l, b). l @ b) ps)"

lemma text_of_simps [simp]:
  "text_of [] = []" "text_of ((l, b) # ps) = l @ b @ text_of ps"
  by (simp_all add: text_of_def)

lemma splitlines_boundary:
  assumes l: "list_all (\<lambda>c. \<not> is_linebreak c) l" and b: "is_boundary b"
    and cr: "\<not> (b = [CHR 0x0D] \<and> prefix [CHR 0x0A] r)"
  shows "splitlines (l @ b @ r) = l # splitlines r"
proof -
  from b obtain c b' where bc: "b = c # b'" "is_linebreak c"
    "b' = [] \<or> (c = CHR 0x0D \<and> b' = [CHR 0x0A])"
    by (cases b) (auto simp: is_boundary_def is_linebreak_def)
  have tw: "takeWhile (\<lambda>c. \<not> is_linebreak c) (l @ b @ r) = l"
    and dw: "dropWhile (\<lambda>c. \<not> is_linebreak c) (l @ b @ r) = c # b' @ r"
    using l bc(1,2) by (simp_all add: list_all_iff)
  have ne: "l @ b @ r \<noteq> []"
    using bc(1) by simp
  from bc(3) show ?thesis
  proof
    assume "b' = []"
    with cr bc(1) have "\<not> (c = CHR 0x0D \<and> prefix [CHR 0x0A] r)"
      by simp
    then show ?thesis
      by (subst splitlines.simps)
        (auto simp only: tw dw ne if_False list.case \<open>b' = []\<close> append_Nil splitlines_Nil
          split: list.splits, auto)
  next
    assume "c = CHR 0x0D \<and> b' = [CHR 0x0A]"
    with dw have dw': "dropWhile (\<lambda>c. \<not> is_linebreak c) (l @ b @ r) = CHR 0x0D # CHR 0x0A # r"
      by simp
    show ?thesis
      by (subst splitlines.simps) (simp only: tw dw' ne if_False list.case, simp)
  qed
qed

lemma text_of_line_feed:
  assumes "lines_with_ends ((l, b) # ps)" "prefix [CHR 0x0A] (text_of ((l, b) # ps))"
  shows "l = [] \<and> b = [CHR 0x0A]"
proof -
  have lf: "is_linebreak (CHR 0x0A)"
    by (simp add: is_linebreak_def)
  from assms(1) have l: "list_all (\<lambda>c. \<not> is_linebreak c) l"
    and b: "is_boundary b \<or> (b = [] \<and> l \<noteq> [])"
    by (cases ps; auto)+
  have "l = []"
  proof (rule ccontr)
    assume "l \<noteq> []"
    then obtain c l' where "l = c # l'"
      by (cases l) auto
    with assms(2) l lf show False
      by auto
  qed
  with b have "is_boundary b"
    by simp
  with assms(2) \<open>l = []\<close> show ?thesis
    by (cases b) (auto simp: is_boundary_def)
qed

lemma splitlines_text_of: "lines_with_ends ps \<Longrightarrow> splitlines (text_of ps) = map fst ps"
proof (induction ps rule: lines_with_ends.induct)
  case 1
  then show ?case
    by (simp add: splitlines_Nil)
next
  case (2 l b)
  then consider "is_boundary b" | "b = []" "l \<noteq> []"
    by auto
  then show ?case
  proof cases
    case 1
    with 2 show ?thesis
      using splitlines_boundary [of l b "[]"] by (simp add: splitlines_Nil)
  next
    case 2
    with "2.prems" show ?thesis
      by (simp add: splitlines_line list_all_iff)
  qed
next
  case (3 l b l' b' rest)
  then have wf: "lines_with_ends ((l', b') # rest)"
    by simp
  have "\<not> (b = [CHR 0x0D] \<and> prefix [CHR 0x0A] (text_of ((l', b') # rest)))"
    using "3.prems" text_of_line_feed [OF wf] by auto
  then have "splitlines (l @ b @ text_of ((l', b') # rest)) =
      l # splitlines (text_of ((l', b') # rest))"
    using "3.prems" by (intro splitlines_boundary) simp_all
  with 3 wf show ?case
    by simp
qed

lemma lines_with_ends_Cons:
  assumes "list_all (\<lambda>c. \<not> is_linebreak c) l" "is_boundary b" "lines_with_ends ps"
    "\<not> (b = [CHR 0x0D] \<and> prefix [CHR 0x0A] (text_of ps))"
  shows "lines_with_ends ((l, b) # ps)"
proof (cases ps)
  case Nil
  with assms show ?thesis by simp
next
  case (Cons p ps')
  obtain l' b' where p: "p = (l', b')"
    by (cases p)
  from assms(4) have "\<not> (b = [CHR 0x0D] \<and> l' = [] \<and> b' = [CHR 0x0A])"
    by (auto simp: Cons p)
  with assms(1-3) show ?thesis
    by (simp add: Cons p)
qed

lemma text_has_lines: "\<exists>ps. lines_with_ends ps \<and> s = text_of ps"
proof (induction s rule: length_induct)
  case (1 s)
  let ?l = "takeWhile (\<lambda>c. \<not> is_linebreak c) s"
  have l: "list_all (\<lambda>c. \<not> is_linebreak c) ?l"
    by (auto simp: list_all_iff dest: set_takeWhileD)
  have s: "s = ?l @ dropWhile (\<lambda>c. \<not> is_linebreak c) s"
    by simp
  show ?case
  proof (cases "dropWhile (\<lambda>c. \<not> is_linebreak c) s")
    case Nil
    show ?thesis
    proof (cases "s = []")
      case True
      then show ?thesis
        by (intro exI [of _ "[]"]) simp
    next
      case False
      with Nil l s show ?thesis
        by (intro exI [of _ "[(s, [])]"]) (simp add: list_all_iff)
    qed
  next
    case (Cons c r)
    then have c: "is_linebreak c"
      by (metis hd_dropWhile list.distinct(1) list.sel(1))
    have sl: "s = ?l @ c # r"
      using s Cons by simp
    show ?thesis
    proof (cases "c = CHR 0x0D \<and> prefix [CHR 0x0A] r")
      case True
      then obtain r' where r: "r = CHR 0x0A # r'"
        by (auto simp: prefix_def)
      have "length r' < length s"
        by (subst sl) (simp add: r)
      with 1 obtain ps where ps: "lines_with_ends ps" "r' = text_of ps"
        by blast
      have "lines_with_ends ((?l, [CHR 0x0D, CHR 0x0A]) # ps)"
        using l ps(1) by (intro lines_with_ends_Cons) (simp_all add: is_boundary_def)
      moreover have "s = text_of ((?l, [CHR 0x0D, CHR 0x0A]) # ps)"
        using sl True r ps(2) by simp
      ultimately show ?thesis
        by blast
    next
      case False
      have "length r < length s"
        by (subst sl) simp
      with 1 obtain ps where ps: "lines_with_ends ps" "r = text_of ps"
        by blast
      have "lines_with_ends ((?l, [c]) # ps)"
        using l ps c False by (intro lines_with_ends_Cons) (auto simp: is_boundary_def)
      moreover have "s = text_of ((?l, [c]) # ps)"
        using sl ps(2) by simp
      ultimately show ?thesis
        by blast
    qed
  qed
qed

lemma drop_last_line_text_of:
  "lines_with_ends ps \<Longrightarrow> drop_last_line (text_of ps) = join [CHR 0x0A] (butlast (map fst ps))"
  by (simp add: drop_last_line_def splitlines_text_of)

section \<open>Python values and the configuration dictionaries\<close>

subsection \<open>Values\<close>

text \<open>
  The values the notebooks put into their dictionaries: strings, integers, booleans,
  floats, lists and dictionaries with string keys.  A dictionary is an association list in
  insertion order, as Python keeps it.  A float of the notebooks is a short decimal
  fraction; it is kept as the sign, the integral part and the digits behind the point of
  its shortest decimal representation, which is what \<^verbatim>\<open>float.__repr__\<close> prints.
\<close>

datatype pyfloat = Decimal bool nat "nat list"

datatype py =
    PNone
  | PBool bool
  | PInt int
  | PFloat pyfloat
  | PStr string
  | PList "py list"
  | PDict "(string \<times> py) list"

datatype pyexc =
    NameError
  | KeyError
  | TypeError
  | FileExistsError
  | FileNotFoundError
  | NotADirectoryError
  | IsADirectoryError
  | PermissionError
  | OtherOSError

definition bind_exc :: "pyexc + 'a \<Rightarrow> ('a \<Rightarrow> pyexc + 'b) \<Rightarrow> pyexc + 'b" where
  "bind_exc r f = (case r of Inl e \<Rightarrow> Inl e | Inr x \<Rightarrow> f x)"

text \<open>
  \<^verbatim>\<open>d[k]\<close> and \<^verbatim>\<open>d[k] = v\<close>.  Subscripting a missing key raises \<^verbatim>\<open>KeyError\<close>,
  subscripting anything but a dictionary with a string raises \<^verbatim>\<open>TypeError\<close>.  Storing
  under a key that is present replaces the value in place, storing under a new key
  appends the entry.
\<close>

fun getitem :: "py \<Rightarrow> string \<Rightarrow> pyexc + py" where
  "getitem (PDict kvs) k = (case map_of kvs k of None \<Rightarrow> Inl KeyError | Some v \<Rightarrow> Inr v)"
| "getitem _ k = Inl TypeError"

fun setitem :: "py \<Rightarrow> string \<Rightarrow> py \<Rightarrow> pyexc + py" where
  "setitem (PDict kvs) k v = Inr (PDict (AList.update k v kvs))"
| "setitem _ k v = Inl TypeError"

text \<open>
  \<^verbatim>\<open>d[k1]...[kn]\<close> and the assignment statement \<^verbatim>\<open>d[k1]...[kn] = v\<close>: the inner
  dictionaries are looked up one after the other and the last one is updated in place, so
  that every enclosing dictionary holds the updated one at the same key.  With no key the
  statement binds the variable to \<open>v\<close>.
\<close>

fun getitem_path :: "py \<Rightarrow> string list \<Rightarrow> pyexc + py" where
  "getitem_path d [] = Inr d"
| "getitem_path d (k # ks) = bind_exc (getitem d k) (\<lambda>inner. getitem_path inner ks)"

fun setitem_path :: "py \<Rightarrow> string list \<Rightarrow> py \<Rightarrow> pyexc + py" where
  "setitem_path d [] v = Inr v"
| "setitem_path d [k] v = setitem d k v"
| "setitem_path d (k # ks) v =
     bind_exc (getitem d k) (\<lambda>inner.
     bind_exc (setitem_path inner ks v) (\<lambda>inner'. setitem d k inner'))"

text \<open>A sequence of assignment statements, run in order; the first exception ends it.\<close>

fun assign_all :: "py \<Rightarrow> (string list \<times> py) list \<Rightarrow> pyexc + py" where
  "assign_all d [] = Inr d"
| "assign_all d ((ks, v) # rest) = bind_exc (setitem_path d ks v) (\<lambda>d'. assign_all d' rest)"

subsection \<open>Paths\<close>

text \<open>
  \<^verbatim>\<open>os.path.join(a, *p)\<close> of \<^verbatim>\<open>posixpath\<close>: an absolute component replaces what was
  joined so far, any other one is appended behind a separating slash.
\<close>

fun os_path_join :: "string \<Rightarrow> string list \<Rightarrow> string" where
  "os_path_join path [] = path"
| "os_path_join path (b # p) =
     os_path_join
       (if prefix ''/'' b then b
        else if path = [] \<or> suffix ''/'' path then path @ b
        else path @ ''/'' @ b) p"

text \<open>
  \<^verbatim>\<open>os.path.expanduser\<close> of \<^verbatim>\<open>posixpath\<close> for the current user, whose home directory
  is \<open>home\<close>: a leading \<^verbatim>\<open>~\<close> before a slash or the end of the path is replaced by the
  home directory without its trailing slashes.  The home directories of other users are
  not modelled: \<^verbatim>\<open>~name\<close> is left as it is, as for an unknown user.
\<close>

definition rstrip_slash :: "string \<Rightarrow> string" where
  "rstrip_slash s = rev (dropWhile (\<lambda>c. c = CHR ''/'') (rev s))"

definition expanduser :: "string \<Rightarrow> string \<Rightarrow> string" where
  "expanduser home path =
     (if \<not> prefix ''~'' path then path
      else if path = ''~'' \<or> prefix ''~/'' path then
        (let r = rstrip_slash home @ drop 1 path in if r = [] then ''/'' else r)
      else path)"

subsection \<open>The use case DRD2\<close>

text \<open>
  Each notebook binds \<^verbatim>\<open>configuration\<close> to a first dictionary and fills it by
  assignment statements.  The dictionaries below are those of the code cells, entry by
  entry; a dictionary written inside an assignment statement is named after the key it is
  stored under.  The paths \<open>ipynb_path\<close> and \<open>output_dir\<close> are variables of the first
  cell.
\<close>

definition component_DRD2_prediction :: "string \<Rightarrow> py" where
  "component_DRD2_prediction ipynb_path =
     PDict [
      (''component_type'', PStr ''predictive_property''),
      (''name'', PStr ''DRD2_pred_activity''),
      (''weight'', PInt 7),
      (''specific_parameters'', PDict [
        (''model_path'', PStr (os_path_join ipynb_path [''models/drd2.pkl''])),
        (''scikit'', PStr ''classification''),
        (''descriptor_type'', PStr ''ecfp_counts''),
        (''size'', PInt 2048),
        (''radius'', PInt 3),
        (''use_counts'', PBool True),
        (''use_features'', PBool True),
        (''transformation'', PDict [(''transformation_type'', PStr ''no_transformation'')])])]"

definition diversity_filter :: "py" where
  "diversity_filter =
     PDict [
      (''name'', PStr ''IdenticalMurckoScaffold''),
      (''nbmax'', PInt 25),
      (''minscore'', PFloat (Decimal False 0 [4])),
      (''minsimilarity'', PFloat (Decimal False 0 [4]))]"

definition inception :: "py" where
  "inception =
     PDict [
      (''memory_size'', PInt 20),
      (''sample_size'', PInt 5),
      (''smiles'', PList [
        PStr ''OCCN1CCN(CCCN2c3ccccc3Sc3ccc(Cl)cc32)CC1'',
        PStr ''C=CCN1CCC2c3cccc(OC)c3CCC21'',
        PStr ''CCCN(Cc1ccc(OC)cc1)C1CCc2c(cccc2OC)C1'',
        PStr ''N#Cc1ccc2[nH]c(CN3CCN(c4ccc(Cl)c(Cl)c4)CC3)cc2c1'',
        PStr ''O=C(CCCN1CCN(c2ncccn2)CC1)c1ccc(F)cc1'',
        PStr ''Cc1ccc2c(c1)C(N1CCN(C)CC1)=Nc1cccnc1N2'',
        PStr ''COc1ccc(-c2cccc(CN3CCN(c4ncccn4)CC3)c2)cc1'',
        PStr ''Oc1[nH]cc2ccc(OCCCCN3CCN(c4cccc5cccc(F)c45)CC3)c(Cl)c12'',
        PStr ''CCCN1CCN(c2cccc(OC)c2)CC1'',
        PStr ''O=C(Nc1cccc(SC(F)(F)F)c1)N1CCC(N2CCC(n3c(O)nc4c(F)cccc43)CC2)CC1'',
        PStr ''CC1CCN(C2=Cc3cc(Cl)ccc3Cc3ccccc32)CC1'',
        PStr ''CCCN1CCOC2Cc3c(O)cccc3CC21'',
        PStr ''c1ccc(N2CCN(C3CCC(Nc4ncccn4)CC3)CC2)cc1'',
        PStr ''O=S(=O)(NC1CCC(N2CCC(c3ccccc3OCC(F)(F)F)CC2)CC1)c1ccc(OC(F)F)cc1'',
        PStr ''COc1ccccc1N1CCN(CCCCc2cc(-c3ccccc3)no2)CC1'',
        PStr ''c1ccc(CCC2CCN(Cc3c[nH]c4ncccc34)CC2)cc1'',
        PStr ''CC1CN(c2cccc3cc(F)ccc23)CCN1CCC1OCCc2c1sc(C(N)=O)c2Cl'',
        PStr ''COc1ccccc1N1CCCN(CCCCNC(=O)c2cc3ccccc3o2)CC1'',
        PStr ''O=C1CCc2ccc(OCCCCN3CCN(c4ccccc4C(F)(F)F)CC3)cc2N1'',
        PStr ''CCCCCCCCCC(=O)N1c2ccc(Cl)cc2N=C(N2CCN(C)CC2)c2ccccc21'',
        PStr ''O=C1N(CCN2CCC(C(F)(F)F)CC2)CCN1c1cccc(Cl)c1'',
        PStr ''CN1CCc2cccc3c2C1Cc1cccc(-c2c(OS(=O)(=O)C(F)(F)F)cccc2OS(=O)(=O)C(F)(F)F)c1-3'',
        PStr ''Cc1nn(C2CCN(Cc3cccc(C#N)c3)CC2)cc1-c1ccccc1'',
        PStr ''COc1ccc(-c2cc3c(O)n(CCN4CCN(c5ccccc5Cl)CC4)c(O)nc-3n2)cc1'',
        PStr ''OC1(c2cccc(Cl)c2Cl)CCN(Cc2c[nH]c3ccccc23)CC1'',
        PStr ''FC(F)(F)c1ccc2c(c1)N(Cc1ccc(CNc3cccc(Oc4ccccc4)c3)cc1)c1ccccc1S2'',
        PStr ''CCCSc1ccccc1N1CCN(CCCOc2ccc(-c3nc4ccccc4[nH]3)cc2)CC1'',
        PStr ''O=S(=O)(NCCCCN1CCN(c2cccc(Cl)c2Cl)CC1)c1cc2ccccc2cn1'',
        PStr ''COc1ccc(CN2CCN(CC(=O)N3c4ccccc4CC3C)CC2)cc1'',
        PStr ''CC1Cc2ccccc2N1C(=O)CC1CCN(Cc2ccc(Cl)cc2)CC1'',
        PStr ''CC(C)c1ccccc1N1CCN(CCCCCC(=O)NCc2ccccc2)CC1'',
        PStr ''Cc1ncoc1-c1nnc(SCCCN2CCc3cc4nc(C5CC5)oc4cc3CC2)n1C'',
        PStr ''O=C1CC(c2ccccc2)c2cccc(CCN3CCN(c4nsc5ccccc45)CC3)c2N1'',
        PStr ''O=C1NCN(c2ccccc2)C12CCN(CCCOc1ccc(F)cc1)CC2'',
        PStr ''CCON=C(CCN1CCN(c2nccs2)CC1)c1ccccc1'',
        PStr ''Cc1ccc2c(-c3nnc(SCCCN4CCc5cc6nc(-c7cc(C)nn7C)oc6cc5CC4)n3C)cccc2n1'',
        PStr ''CCCN(CCCCNC(=O)c1ccc(-c2ccccc2)cc1)C1Cc2cccn3ncc(c23)C1'',
        PStr ''Cc1ccc(OCCNCCCOc2ccccc2)cc1''])]"

definition component_rotatable_bonds :: "py" where
  "component_rotatable_bonds =
     PDict [
      (''component_type'', PStr ''num_rotatable_bonds''),
      (''name'', PStr ''Number of rotatable bonds''),
      (''weight'', PInt 1),
      (''specific_parameters'', PDict [
        (''transformation'', PDict [
          (''transformation_type'', PStr ''step''),
          (''high'', PInt 9),
          (''low'', PInt 0)])])]"

definition component_num_hbd :: "py" where
  "component_num_hbd =
     PDict [
      (''component_type'', PStr ''num_hbd_lipinski''),
      (''name'', PStr ''HB-donors (Lipinski)''),
      (''weight'', PInt 1),
      (''specific_parameters'', PDict [
        (''transformation'', PDict [
          (''transformation_type'', PStr ''step''),
          (''high'', PInt 6),
          (''low'', PInt 0)])])]"

definition component_custom_alerts :: "py" where
  "component_custom_alerts =
     PDict [
      (''component_type'', PStr ''custom_alerts''),
      (''name'', PStr ''Custom_alerts''),
      (''weight'', PInt 1),
      (''specific_parameters'', PDict [
        (''smiles'', PList [
          PStr ''[*;r8]'',
          PStr ''[*;r9]'',
          PStr ''[*;r10]'',
          PStr ''[*;r11]'',
          PStr ''[*;r12]'',
          PStr ''[*;r13]'',
          PStr ''[*;r14]'',
          PStr ''[*;r15]'',
          PStr ''[*;r16]'',
          PStr ''[*;r17]'',
          PStr ''[#8][#8]'',
          PStr ''[#6;+]'',
          PStr ''[#16][#16]'',
          PStr ''[#7;!n][S;!$(S(=O)=O)]'',
          PStr ''[#7;!n][#7;!n]'',
          PStr ''C#C'',
          PStr ''C(=[O,S])[O,S]'',
          PStr ''[#7;!n][C;!$(C(=[O,N])[N,O])][#16;!s]'',
          PStr ''[#7;!n][C;!$(C(=[O,N])[N,O])][#7;!n]'',
          PStr ''[#7;!n][C;!$(C(=[O,N])[N,O])][#8;!o]'',
          PStr ''[#8;!o][C;!$(C(=[O,N])[N,O])][#16;!s]'',
          PStr ''[#8;!o][C;!$(C(=[O,N])[N,O])][#8;!o]'',
          PStr ''[#16;!s][C;!$(C(=[O,N])[N,O])][#16;!s]''])])]"

definition scoring_function_DRD2 :: "string \<Rightarrow> py" where
  "scoring_function_DRD2 ipynb_path =
     PDict [
      (''name'', PStr ''custom_sum''),
      (''parallel'', PBool True),
      (''parameters'', PList [
        component_DRD2_prediction ipynb_path,
        component_num_hbd,
        component_rotatable_bonds,
        component_custom_alerts])]"

definition reinforcement_learning_DRD2 :: "string \<Rightarrow> py" where
  "reinforcement_learning_DRD2 ipynb_path =
     PDict [
      (''prior'', PStr (os_path_join ipynb_path [''models/random.prior.new''])),
      (''agent'', PStr (os_path_join ipynb_path [''models/random.prior.new''])),
      (''n_steps'', PInt 300),
      (''sigma'', PInt 128),
      (''learning_rate'', PFloat (Decimal False 0 [0, 0, 0, 1])),
      (''batch_size'', PInt 128),
      (''reset'', PInt 0),
      (''reset_score_cutoff'', PFloat (Decimal False 0 [5])),
      (''margin_threshold'', PInt 50)]"

definition logging_DRD2 :: "string \<Rightarrow> py" where
  "logging_DRD2 output_dir =
     PDict [
      (''sender'', PStr ''http://127.0.0.1''),
      (''recipient'', PStr ''local''),
      (''logging_frequency'', PInt 0),
      (''logging_path'', PStr (os_path_join output_dir [''progress.log''])),
      (''result_folder'', PStr (os_path_join output_dir [''results''])),
      (''job_name'', PStr ''Use-case DRD2 Demo''),
      (''job_id'', PStr ''demo'')]"

definition configuration_init_DRD2 :: "string \<Rightarrow> py" where
  "configuration_init_DRD2 ipynb_path =
     PDict [
        (''version'', PInt 3),
        (''run_type'', PStr ''reinforcement_learning''),
        (''parameters'', PDict [(''scoring_function'', scoring_function_DRD2 ipynb_path)])]"

definition configuration_assignments_DRD2 :: "string \<Rightarrow> string \<Rightarrow> (string list \<times> py) list" where
  "configuration_assignments_DRD2 ipynb_path output_dir =
    [([''parameters'', ''diversity_filter''], diversity_filter),
     ([''parameters'', ''inception''], inception),
     ([''parameters'', ''reinforcement_learning''], reinforcement_learning_DRD2 ipynb_path),
     ([''logging''], logging_DRD2 output_dir)]"

definition configuration_DRD2 :: "string \<Rightarrow> string \<Rightarrow> pyexc + py" where
  "configuration_DRD2 ipynb_path output_dir =
     assign_all (configuration_init_DRD2 ipynb_path)
       (configuration_assignments_DRD2 ipynb_path output_dir)"

subsection \<open>Reinforcement learning with DockStream\<close>

definition ed_dict :: "string \<Rightarrow> string \<Rightarrow> string \<Rightarrow> py" where
  "ed_dict grid_file_path output_ligands_docked_poses_path output_ligands_docking_scores_path =
     PDict [
      (''docking'', PDict [
        (''header'', PDict [(''environment'', PDict [])]),
        (''ligand_preparation'', PDict [
          (''embedding_pools'', PList [
            PDict [
              (''pool_id'', PStr ''Ligprep_pool''),
              (''type'', PStr ''Ligprep''),
              (''parameters'', PDict [
                (''prefix_execution'', PStr ''module load schrodinger/2019-4''),
                (''parallelization'', PDict [(''number_cores'', PInt 2)]),
                (''use_epik'', PDict [
                  (''target_pH'', PFloat (Decimal False 7 [0])),
                  (''pH_tolerance'', PFloat (Decimal False 2 [0]))]),
                (''force_field'', PStr ''OPLS3e'')]),
              (''input'', PDict [
                (''standardize_smiles'', PBool False),
                (''type'', PStr ''console'')])]])]),
        (''docking_runs'', PList [
          PDict [
            (''backend'', PStr ''Glide''),
            (''run_id'', PStr ''Glide_run''),
            (''input_pools'', PList [PStr ''Ligprep_pool'']),
            (''parameters'', PDict [
              (''prefix_execution'', PStr ''module load schrodinger/2019-4''),
              (''parallelization'', PDict [(''number_cores'', PInt 2)]),
              (''glide_flags'', PDict [(''-HOST'', PStr ''localhost'')]),
              (''glide_keywords'', PDict [
                (''GRIDFILE'', PStr grid_file_path),
                (''POSE_OUTTYPE'', PStr ''ligandlib_sd''),
                (''PRECISION'', PStr ''HTVS'')])]),
            (''output'', PDict [
              (''poses'', PDict [
                (''poses_path'', PStr (os_path_join output_ligands_docked_poses_path [''docked_poses.sdf'']))]),
              (''scores'', PDict [
                (''scores_path'', PStr (os_path_join output_ligands_docking_scores_path [''docking_scores.csv'']))])])]])])]"

definition logging_DockStream :: "string \<Rightarrow> py" where
  "logging_DockStream output_dir =
     PDict [
      (''sender'', PStr ''http://0.0.0.1''),
      (''recipient'', PStr ''local''),
      (''logging_frequency'', PInt 1),
      (''logging_path'', PStr (os_path_join output_dir [''progress.log''])),
      (''result_folder'', PStr (os_path_join output_dir [''results''])),
      (''job_name'', PStr ''Reinforcement learning DockStream demo''),
      (''job_id'', PStr ''demo'')]"

definition diversity_filter_DockStream :: "py" where
  "diversity_filter_DockStream =
     PDict [
      (''name'', PStr ''IdenticalMurckoScaffold''),
      (''nbmax'', PInt 25),
      (''minscore'', PFloat (Decimal False 0 [4])),
      (''minsimilarity'', PFloat (Decimal False 0 [4]))]"

definition inception_DockStream :: "py" where
  "inception_DockStream =
     PDict [
      (''smiles'', PList []),
      (''memory_size'', PInt 100),
      (''sample_size'', PInt 10)]"

definition reinforcement_learning_DockStream :: "string \<Rightarrow> py" where
  "reinforcement_learning_DockStream ipynb_path =
     PDict [
      (''prior'', PStr (os_path_join ipynb_path [''models/random.prior.new''])),
      (''agent'', PStr (os_path_join ipynb_path [''models/random.prior.new''])),
      (''n_steps'', PInt 2),
      (''sigma'', PInt 128),
      (''learning_rate'', PFloat (Decimal False 0 [0, 0, 0, 1])),
      (''batch_size'', PInt 32),
      (''reset'', PInt 0),
      (''reset_score_cutoff'', PFloat (Decimal False 0 [5])),
      (''margin_threshold'', PInt 50)]"

definition scoring_function_DockStream :: "string \<Rightarrow> string \<Rightarrow> string \<Rightarrow> py" where
  "scoring_function_DockStream docking_configuration_path docker_path dockstream_env =
     PDict [
      (''name'', PStr ''custom_product''),
      (''parallel'', PBool False),
      (''parameters'', PList [
        PDict [
          (''component_type'', PStr ''dockstream''),
          (''name'', PStr ''Glide LigPrep Docking''),
          (''weight'', PInt 1),
          (''specific_parameters'', PDict [
            (''transformation'', PDict [
              (''transformation_type'', PStr ''reverse_sigmoid''),
              (''low'', PInt (- 11)),
              (''high'', PInt (- 5)),
              (''k'', PFloat (Decimal False 0 [2, 5]))]),
            (''configuration_path'', PStr docking_configuration_path),
            (''docker_script_path'', PStr docker_path),
            (''environment_path'', PStr dockstream_env)])]])]"

definition configuration_init_DockStream :: "py" where
  "configuration_init_DockStream =
     PDict [(''version'', PInt 3), (''run_type'', PStr ''reinforcement_learning'')]"

definition configuration_assignments_DockStream :: "string \<Rightarrow> string \<Rightarrow> string \<Rightarrow> string \<Rightarrow> string \<Rightarrow> (string list \<times> py) list" where
  "configuration_assignments_DockStream ipynb_path output_dir docking_configuration_path docker_path dockstream_env =
    [([''logging''], logging_DockStream output_dir),
     ([''parameters''], PDict []),
     ([''parameters'', ''diversity_filter''], diversity_filter_DockStream),
     ([''parameters'', ''inception''], inception_DockStream),
     ([''parameters'', ''reinforcement_learning''], reinforcement_learning_DockStream ipynb_path),
     ([''parameters'', ''scoring_function''], scoring_function_DockStream docking_configuration_path docker_path dockstream_env)]"

definition configuration_DockStream :: "string \<Rightarrow> string \<Rightarrow> string \<Rightarrow> string \<Rightarrow> string \<Rightarrow> pyexc + py" where
  "configuration_DockStream ipynb_path output_dir docking_configuration_path docker_path dockstream_env =
     assign_all configuration_init_DockStream
       (configuration_assignments_DockStream ipynb_path output_dir docking_configuration_path docker_path dockstream_env)"

subsection \<open>Reinforcement learning with a Tanimoto similarity\<close>

definition logging_Tanimoto :: "string \<Rightarrow> py" where
  "logging_Tanimoto output_dir =
     PDict [
      (''sender'', PStr ''http://0.0.0.1''),
      (''recipient'', PStr ''local''),
      (''logging_frequency'', PInt 10),
      (''logging_path'', PStr (os_path_join output_dir [''progress.log''])),
      (''result_folder'', PStr (os_path_join output_dir [''results''])),
      (''job_name'', PStr ''Reinforcement learning demo''),
      (''job_id'', PStr ''demo'')]"

definition diversity_filter_Tanimoto :: "py" where
  "diversity_filter_Tanimoto =
     PDict [
      (''name'', PStr ''IdenticalMurckoScaffold''),
      (''nbmax'', PInt 25),
      (''minscore'', PFloat (Decimal False 0 [4])),
      (''minsimilarity'', PFloat (Decimal False 0 [4]))]"

definition inception_Tanimoto :: "py" where
  "inception_Tanimoto =
     PDict [
      (''smiles'', PList []),
      (''memory_size'', PInt 100),
      (''sample_size'', PInt 10)]"

definition reinforcement_learning_Tanimoto :: "string \<Rightarrow> py" where
  "reinforcement_learning_Tanimoto ipynb_path =
     PDict [
      (''prior'', PStr (os_path_join ipynb_path [''models/random.prior.new''])),
      (''agent'', PStr (os_path_join ipynb_path [''models/random.prior.new''])),
      (''n_steps'', PInt 125),
      (''sigma'', PInt 128),
      (''learning_rate'', PFloat (Decimal False 0 [0, 0, 0, 1])),
      (''batch_size'', PInt 128),
      (''reset'', PInt 0),
      (''reset_score_cutoff'', PFloat (Decimal False 0 [5])),
      (''margin_threshold'', PInt 50)]"

definition scoring_function_Tanimoto :: "py" where
  "scoring_function_Tanimoto =
     PDict [
      (''name'', PStr ''custom_product''),
      (''parallel'', PBool False),
      (''parameters'', PList [
        PDict [
          (''component_type'', PStr ''tanimoto_similarity''),
          (''name'', PStr ''Tanimoto similarity''),
          (''weight'', PInt 1),
          (''specific_parameters'', PDict [
            (''smiles'', PList [PStr ''O=S(=O)(c3ccc(n1nc(cc1c2ccc(cc2)C)C(F)(F)F)cc3)N''])])]])]"

definition configuration_init_Tanimoto :: "py" where
  "configuration_init_Tanimoto =
     PDict [(''version'', PInt 3), (''run_type'', PStr ''reinforcement_learning'')]"

definition configuration_assignments_Tanimoto :: "string \<Rightarrow> string \<Rightarrow> (string list \<times> py) list" where
  "configuration_assignments_Tanimoto ipynb_path output_dir =
    [([''logging''], logging_Tanimoto output_dir),
     ([''parameters''], PDict []),
     ([''parameters'', ''diversity_filter''], diversity_filter_Tanimoto),
     ([''parameters'', ''inception''], inception_Tanimoto),
     ([''parameters'', ''reinforcement_learning''], reinforcement_learning_Tanimoto ipynb_path),
     ([''parameters'', ''scoring_function''], scoring_function_Tanimoto)]"

definition configuration_Tanimoto :: "string \<Rightarrow> string \<Rightarrow> pyexc + py" where
  "configuration_Tanimoto ipynb_path output_dir =
     assign_all configuration_init_Tanimoto
       (configuration_assignments_Tanimoto ipynb_path output_dir)"

subsection \<open>Reinforcement learning for selectivity\<close>

definition logging_Selectivity :: "string \<Rightarrow> py" where
  "logging_Selectivity output_dir =
     PDict [
      (''sender'', PStr ''http://0.0.0.1''),
      (''recipient'', PStr ''local''),
      (''logging_frequency'', PInt 10),
      (''logging_path'', PStr (os_path_join output_dir [''progress.log''])),
      (''result_folder'', PStr (os_path_join output_dir [''results''])),
      (''job_name'', PStr ''Reinforcement learning demo''),
      (''job_id'', PStr ''demo'')]"

definition diversity_filter_Selectivity :: "py" where
  "diversity_filter_Selectivity =
     PDict [
      (''name'', PStr ''IdenticalMurckoScaffold''),
      (''nbmax'', PInt 25),
      (''minscore'', PFloat (Decimal False 0 [4])),
      (''minsimilarity'', PFloat (Decimal False 0 [4]))]"

definition inception_Selectivity :: "py" where
  "inception_Selectivity =
     PDict [
      (''smiles'', PList []),
      (''memory_size'', PInt 100),
      (''sample_size'', PInt 10)]"

definition reinforcement_learning_Selectivity :: "string \<Rightarrow> py" where
  "reinforcement_learning_Selectivity ipynb_path =
     PDict [
      (''prior'', PStr (os_path_join ipynb_path [''models/random.prior.new''])),
      (''agent'', PStr (os_path_join ipynb_path [''models/random.prior.new''])),
      (''n_steps'', PInt 1000),
      (''sigma'', PInt 128),
      (''learning_rate'', PFloat (Decimal False 0 [0, 0, 0, 1])),
      (''batch_size'', PInt 128),
      (''reset'', PInt 0),
      (''reset_score_cutoff'', PFloat (Decimal False 0 [5])),
      (''margin_threshold'', PInt 50)]"

definition scoring_function_Selectivity :: "string \<Rightarrow> py" where
  "scoring_function_Selectivity ipynb_path =
     PDict [
      (''name'', PStr ''custom_product''),
      (''parallel'', PBool False),
      (''parameters'', PList [
        PDict [
          (''component_type'', PStr ''predictive_property''),
          (''name'', PStr ''Aurora kinase''),
          (''weight'', PInt 6),
          (''specific_parameters'', PDict [
            (''model_path'', PStr (os_path_join ipynb_path [''models/Aurora_model.pkl''])),
            (''transformation'', PDict [
              (''transformation_type'', PStr ''sigmoid''),
              (''high'', PInt 9),
              (''low'', PInt 4),
              (''k'', PFloat (Decimal False 0 [2, 5]))]),
            (''scikit'', PStr ''regression''),
            (''descriptor_type'', PStr ''ecfp_counts''),
            (''size'', PInt 2048),
            (''radius'', PInt 3),
            (''use_counts'', PBool True),
            (''use_features'', PBool True)])],
        PDict [
          (''component_type'', PStr ''matching_substructure''),
          (''name'', PStr ''Matching substructure''),
          (''weight'', PInt 1),
          (''specific_parameters'', PDict [(''smiles'', PList [PStr ''c1ccccc1CC''])])],
        PDict [
          (''component_type'', PStr ''custom_alerts''),
          (''name'', PStr ''Custom alerts''),
          (''weight'', PInt 1),
          (''specific_parameters'', PDict [
            (''smiles'', PList [
              PStr ''[*;r8]'',
              PStr ''[*;r9]'',
              PStr ''[*;r10]'',
              PStr ''[*;r11]'',
              PStr ''[*;r12]'',
              PStr ''[*;r13]'',
              PStr ''[*;r14]'',
              PStr ''[*;r15]'',
              PStr ''[*;r16]'',
              PStr ''[*;r17]'',
              PStr ''[#8][#8]'',
              PStr ''[#6;+]'',
              PStr ''[#16][#16]'',
              PStr ''[#7;!n][S;!$(S(=O)=O)]'',
              PStr ''[#7;!n][#7;!n]'',
              PStr ''C#C'',
              PStr ''C(=[O,S])[O,S]'',
              PStr ''[#7;!n][C;!$(C(=[O,N])[N,O])][#16;!s]'',
              PStr ''[#7;!n][C;!$(C(=[O,N])[N,O])][#7;!n]'',
              PStr ''[#7;!n][C;!$(C(=[O,N])[N,O])][#8;!o]'',
              PStr ''[#8;!o][C;!$(C(=[O,N])[N,O])][#16;!s]'',
              PStr ''[#8;!o][C;!$(C(=[O,N])[N,O])][#8;!o]'',
              PStr ''[#16;!s][C;!$(C(=[O,N])[N,O])][#16;!s]''])])],
        PDict [
          (''component_type'', PStr ''selectivity''),
          (''name'', PStr ''B-RAF selectivity''),
          (''weight'', PInt 3),
          (''specific_parameters'', PDict [
            (''activity_specific_parameters'', PDict [
              (''model_path'', PStr (os_path_join ipynb_path [''models/Aurora_model.pkl''])),
              (''scikit'', PStr ''regression''),
              (''descriptor_type'', PStr ''ecfp_counts''),
              (''size'', PInt 2048),
              (''radius'', PInt 3),
              (''use_counts'', PBool True),
              (''use_features'', PBool True)]),
            (''offtarget_specific_parameters'', PDict [
              (''model_path'', PStr (os_path_join ipynb_path [''models/B-RAF_model.pkl''])),
              (''scikit'', PStr ''regression''),
              (''descriptor_type'', PStr ''ecfp_counts''),
              (''size'', PInt 2048),
              (''radius'', PInt 3),
              (''use_counts'', PBool True),
              (''use_features'', PBool True)]),
            (''delta_transformation_parameters'', PDict [
              (''transformation_type'', PStr ''sigmoid''),
              (''high'', PInt 3),
              (''k'', PFloat (Decimal False 0 [2, 5])),
              (''low'', PInt 0)])])]])]"

definition configuration_init_Selectivity :: "py" where
  "configuration_init_Selectivity =
     PDict [(''version'', PInt 3), (''run_type'', PStr ''reinforcement_learning'')]"

definition configuration_assignments_Selectivity :: "string \<Rightarrow> string \<Rightarrow> (string list \<times> py) list" where
  "configuration_assignments_Selectivity ipynb_path output_dir =
    [([''logging''], logging_Selectivity output_dir),
     ([''parameters''], PDict []),
     ([''parameters'', ''diversity_filter''], diversity_filter_Selectivity),
     ([''parameters'', ''inception''], inception_Selectivity),
     ([''parameters'', ''reinforcement_learning''], reinforcement_learning_Selectivity ipynb_path),
     ([''parameters'', ''scoring_function''], scoring_function_Selectivity ipynb_path)]"

definition configuration_Selectivity :: "string \<Rightarrow> string \<Rightarrow> pyexc + py" where
  "configuration_Selectivity ipynb_path output_dir =
     assign_all configuration_init_Selectivity
       (configuration_assignments_Selectivity ipynb_path output_dir)"

subsection \<open>Reinforcement learning for exploration\<close>

definition logging_Exploration :: "string \<Rightarrow> py" where
  "logging_Exploration output_dir =
     PDict [
      (''sender'', PStr ''http://0.0.0.1''),
      (''recipient'', PStr ''local''),
      (''logging_frequency'', PInt 10),
      (''logging_path'', PStr (os_path_join output_dir [''progress.log''])),
      (''result_folder'', PStr (os_path_join output_dir [''results''])),
      (''job_name'', PStr ''Reinforcement learning demo''),
      (''job_id'', PStr ''demo'')]"

definition diversity_filter_Exploration :: "py" where
  "diversity_filter_Exploration =
     PDict [
      (''name'', PStr ''IdenticalMurckoScaffold''),
      (''nbmax'', PInt 25),
      (''minscore'', PFloat (Decimal False 0 [4])),
      (''minsimilarity'', PFloat (Decimal False 0 [4]))]"

definition inception_Exploration :: "py" where
  "inception_Exploration =
     PDict [
      (''smiles'', PList []),
      (''memory_size'', PInt 100),
      (''sample_size'', PInt 10)]"

definition reinforcement_learning_Exploration :: "string \<Rightarrow> py" where
  "reinforcement_learning_Exploration ipynb_path =
     PDict [
      (''prior'', PStr (os_path_join ipynb_path [''models/random.prior.new''])),
      (''agent'', PStr (os_path_join ipynb_path [''models/random.prior.new''])),
      (''n_steps'', PInt 1000),
      (''sigma'', PInt 128),
      (''learning_rate'', PFloat (Decimal False 0 [0, 0, 0, 1])),
      (''batch_size'', PInt 128),
      (''reset'', PInt 0),
      (''reset_score_cutoff'', PFloat (Decimal False 0 [5])),
      (''margin_threshold'', PInt 50)]"

definition scoring_function_Exploration :: "string \<Rightarrow> py" where
  "scoring_function_Exploration ipynb_path =
     PDict [
      (''name'', PStr ''custom_product''),
      (''parallel'', PBool False),
      (''parameters'', PList [
        PDict [
          (''component_type'', PStr ''predictive_property''),
          (''name'', PStr ''Aurora kinase''),
          (''weight'', PInt 6),
          (''specific_parameters'', PDict [
            (''model_path'', PStr (os_path_join ipynb_path [''models/Aurora_model.pkl''])),
            (''transformation'', PDict [
              (''transformation_type'', PStr ''sigmoid''),
              (''high'', PInt 9),
              (''low'', PInt 4),
              (''k'', PFloat (Decimal False 0 [2, 5]))]),
            (''scikit'', PStr ''regression''),
            (''descriptor_type'', PStr ''ecfp_counts''),
            (''size'', PInt 2048),
            (''radius'', PInt 3),
            (''use_counts'', PBool True),
            (''use_features'', PBool True)])],
        PDict [
          (''component_type'', PStr ''qed_score''),
          (''name'', PStr ''QED''),
          (''weight'', PInt 2)],
        PDict [
          (''component_type'', PStr ''custom_alerts''),
          (''name'', PStr ''Custom alerts''),
          (''weight'', PInt 1),
          (''specific_parameters'', PDict [
            (''smiles'', PList [
              PStr ''[*;r8]'',
              PStr ''[*;r9]'',
              PStr ''[*;r10]'',
              PStr ''[*;r11]'',
              PStr ''[*;r12]'',
              PStr ''[*;r13]'',
              PStr ''[*;r14]'',
              PStr ''[*;r15]'',
              PStr ''[*;r16]'',
              PStr ''[*;r17]'',
              PStr ''[#8][#8]'',
              PStr ''[#6;+]'',
              PStr ''[#16][#16]'',
              PStr ''[#7;!n][S;!$(S(=O)=O)]'',
              PStr ''[#7;!n][#7;!n]'',
              PStr ''C#C'',
              PStr ''C(=[O,S])[O,S]'',
              PStr ''[#7;!n][C;!$(C(=[O,N])[N,O])][#16;!s]'',
              PStr ''[#7;!n][C;!$(C(=[O,N])[N,O])][#7;!n]'',
              PStr ''[#7;!n][C;!$(C(=[O,N])[N,O])][#8;!o]'',
              PStr ''[#8;!o][C;!$(C(=[O,N])[N,O])][#16;!s]'',
              PStr ''[#8;!o][C;!$(C(=[O,N])[N,O])][#8;!o]'',
              PStr ''[#16;!s][C;!$(C(=[O,N])[N,O])][#16;!s]''])])]])]"

definition configuration_init_Exploration :: "py" where
  "configuration_init_Exploration =
     PDict [(''version'', PInt 3), (''run_type'', PStr ''reinforcement_learning'')]"

definition configuration_assignments_Exploration :: "string \<Rightarrow> string \<Rightarrow> (string list \<times> py) list" where
  "configuration_assignments_Exploration ipynb_path output_dir =
    [([''logging''], logging_Exploration output_dir),
     ([''parameters''], PDict []),
     ([''parameters'', ''diversity_filter''], diversity_filter_Exploration),
     ([''parameters'', ''inception''], inception_Exploration),
     ([''parameters'', ''reinforcement_learning''], reinforcement_learning_Exploration ipynb_path),
     ([''parameters'', ''scoring_function''], scoring_function_Exploration ipynb_path)]"

definition configuration_Exploration :: "string \<Rightarrow> string \<Rightarrow> pyexc + py" where
  "configuration_Exploration ipynb_path output_dir =
     assign_all configuration_init_Exploration
       (configuration_assignments_Exploration ipynb_path output_dir)"

subsection \<open>Sampling\<close>

definition logging_Sampling :: "string \<Rightarrow> py" where
  "logging_Sampling output_dir =
     PDict [
      (''sender'', PStr ''http://127.0.0.1''),
      (''recipient'', PStr ''local''),
      (''logging_path'', PStr (os_path_join output_dir [''progress.log''])),
      (''job_name'', PStr ''Scoring mode demo''),
      (''job_id'', PStr ''demo'')]"

definition output_SMILES_path :: "string \<Rightarrow> string" where
  "output_SMILES_path output_dir =
     os_path_join output_dir [''sampled'', ''sampled.smi'']"

definition parameters_Sampling :: "string \<Rightarrow> string \<Rightarrow> py" where
  "parameters_Sampling ipynb_path output_dir =
     PDict [
      (''model_path'', PStr (os_path_join ipynb_path [''models'', ''random.prior.new''])),
      (''output_smiles_path'', PStr (output_SMILES_path output_dir)),
      (''num_smiles'', PInt 1024),
      (''batch_size'', PInt 128),
      (''with_likelihood'', PBool False)]"

definition configuration_init_Sampling :: "py" where
  "configuration_init_Sampling =
     PDict [(''version'', PInt 3), (''run_type'', PStr ''sampling'')]"

definition configuration_assignments_Sampling :: "string \<Rightarrow> string \<Rightarrow> (string list \<times> py) list" where
  "configuration_assignments_Sampling ipynb_path output_dir =
    [([''logging''], logging_Sampling output_dir),
     ([''parameters''], parameters_Sampling ipynb_path output_dir)]"

definition configuration_Sampling :: "string \<Rightarrow> string \<Rightarrow> pyexc + py" where
  "configuration_Sampling ipynb_path output_dir =
     assign_all configuration_init_Sampling
       (configuration_assignments_Sampling ipynb_path output_dir)"

subsection \<open>The variables of the first cell and the configuration of each notebook\<close>

text \<open>
  The global variables that the first code cell of a notebook sets.  The fields from
  \<open>dockstream_dir\<close> on exist in the notebook with DockStream only.
\<close>

record variables =
  reinvent_dir :: string
  reinvent_env :: string
  output_dir :: string
  ipynb_path :: string
  dockstream_dir :: string
  dockstream_env :: string
  docker_path :: string
  grid_file_path :: string
  output_ligands_docked_poses_path :: string
  output_ligands_docking_scores_path :: string
  docking_configuration_path :: string

text \<open>The variables of a user \<open>u\<close> who keeps everything where the notebooks expect it.\<close>

definition example_variables :: variables where
  "example_variables =
     \<lparr>reinvent_dir = ''/home/u/Desktop/Reinvent'',
      reinvent_env = ''/home/u/miniconda3/envs/reinvent.v3.0'',
      output_dir = ''/home/u/Desktop/out'',
      ipynb_path = ''/home/u/notebooks'',
      dockstream_dir = ''/home/u/Desktop/ProjectData/DockStream'',
      dockstream_env = ''/home/u/miniconda3/envs/DockStream/bin/python'',
      docker_path = ''/home/u/Desktop/ProjectData/DockStream/docker.py'',
      grid_file_path = ''/home/u/grid.zip'',
      output_ligands_docked_poses_path = ''/home/u/Desktop/out/docked_poses'',
      output_ligands_docking_scores_path = ''/home/u/Desktop/out/docking_scores'',
      docking_configuration_path = ''/home/u/Desktop/out/Glide_DockStream_Conf.json''\<rparr>"

datatype notebook = RL rl_notebook | Sampling_Demo

fun configuration :: "notebook \<Rightarrow> variables \<Rightarrow> pyexc + py" where
  "configuration (RL Use_Case_DRD2) vs = configuration_DRD2 (ipynb_path vs) (output_dir vs)"
| "configuration (RL RL_DockStream) vs =
     configuration_DockStream (ipynb_path vs) (output_dir vs) (docking_configuration_path vs)
       (docker_path vs) (dockstream_env vs)"
| "configuration (RL RL_Tanimoto) vs = configuration_Tanimoto (ipynb_path vs) (output_dir vs)"
| "configuration (RL RL_Selectivity) vs =
     configuration_Selectivity (ipynb_path vs) (output_dir vs)"
| "configuration (RL RL_Exploration) vs =
     configuration_Exploration (ipynb_path vs) (output_dir vs)"
| "configuration Sampling_Demo vs = configuration_Sampling (ipynb_path vs) (output_dir vs)"

subsection \<open>Assignments leave the other entries alone\<close>

lemma getitem_setitem_other:
  "setitem d k v = Inr d' \<Longrightarrow> k' \<noteq> k \<Longrightarrow> getitem d' k' = getitem d k'"
  by (cases d) (auto simp: update_conv')

lemma getitem_setitem_same: "setitem d k v = Inr d' \<Longrightarrow> getitem d' k = Inr v"
  by (cases d) (auto simp: update_conv')

lemma bind_exc_Inr_iff:
  "bind_exc r f = Inr y \<longleftrightarrow> (\<exists>x. r = Inr x \<and> f x = Inr y)"
  by (cases r) (simp_all add: bind_exc_def)

lemma setitem_path_frame:
  "setitem_path d ks v = Inr d' \<Longrightarrow> \<not> prefix ks p \<Longrightarrow> \<not> prefix p ks \<Longrightarrow>
     getitem_path d' p = getitem_path d p"
proof (induction d ks v arbitrary: d' p rule: setitem_path.induct)
  case (1 d v)
  then show ?case by simp
next
  case (2 d k v)
  then obtain k' p' where p: "p = k' # p'" "k' \<noteq> k"
    by (cases p) auto
  with 2 show ?case
    by (simp add: getitem_setitem_other)
next
  case (3 d k k2 ks v)
  from "3.prems"(1) obtain inner inner' where
    inner: "getitem d k = Inr inner"
    and inner': "setitem_path inner (k2 # ks) v = Inr inner'"
    and d': "setitem d k inner' = Inr d'"
    by (auto simp: bind_exc_Inr_iff)
  from "3.prems" obtain k' p' where p: "p = k' # p'"
    by (cases p) auto
  show ?case
  proof (cases "k' = k")
    case False
    with d' p show ?thesis
      by (simp add: getitem_setitem_other)
  next
    case True
    with "3.prems" p have "\<not> prefix (k2 # ks) p'" "\<not> prefix p' (k2 # ks)"
      by auto
    then have "getitem_path inner' p' = getitem_path inner p'"
      using "3.IH" [OF inner'] by simp
    with True p inner getitem_setitem_same [OF d'] show ?thesis
      by (simp add: bind_exc_def)
  qed
qed

lemma take_cases4:
  obtains "n = 0" | "n = 1" | "n = 2" | "n = 3" | "4 \<le> (n::nat)"
  by arith

subsection \<open>The dictionaries after the assignments\<close>

lemma assign_all_use_case:
  "assign_all
     (PDict [(''version'', v), (''run_type'', r), (''parameters'', PDict [(''scoring_function'', sf)])])
     [([''parameters'', ''diversity_filter''], df),
      ([''parameters'', ''inception''], inc),
      ([''parameters'', ''reinforcement_learning''], rl),
      ([''logging''], lg)] =
   Inr (PDict [(''version'', v), (''run_type'', r),
     (''parameters'', PDict [(''scoring_function'', sf), (''diversity_filter'', df),
        (''inception'', inc), (''reinforcement_learning'', rl)]),
     (''logging'', lg)])"
  by (simp add: bind_exc_def)

lemma assign_all_demo:
  "assign_all
     (PDict [(''version'', v), (''run_type'', r)])
     [([''logging''], lg),
      ([''parameters''], PDict []),
      ([''parameters'', ''diversity_filter''], df),
      ([''parameters'', ''inception''], inc),
      ([''parameters'', ''reinforcement_learning''], rl),
      ([''parameters'', ''scoring_function''], sf)] =
   Inr (PDict [(''version'', v), (''run_type'', r), (''logging'', lg),
     (''parameters'', PDict [(''diversity_filter'', df), (''inception'', inc),
        (''reinforcement_learning'', rl), (''scoring_function'', sf)])])"
  by (simp add: bind_exc_def)

lemma assign_all_sampling:
  "assign_all
     (PDict [(''version'', v), (''run_type'', r)])
     [([''logging''], lg), ([''parameters''], ps)] =
   Inr (PDict [(''version'', v), (''run_type'', r), (''logging'', lg), (''parameters'', ps)])"
  by (simp add: bind_exc_def)

lemma configuration_DRD2_final:
  "configuration_DRD2 ip od =
     Inr (PDict [(''version'', PInt 3), (''run_type'', PStr ''reinforcement_learning''),
       (''parameters'', PDict [(''scoring_function'', scoring_function_DRD2 ip),
          (''diversity_filter'', diversity_filter), (''inception'', inception),
          (''reinforcement_learning'', reinforcement_learning_DRD2 ip)]),
       (''logging'', logging_DRD2 od)])"
  unfolding configuration_DRD2_def configuration_init_DRD2_def configuration_assignments_DRD2_def
  by (rule assign_all_use_case)

lemma configuration_DockStream_final:
  "configuration_DockStream ip od dc dp de =
     Inr (PDict [(''version'', PInt 3), (''run_type'', PStr ''reinforcement_learning''),
       (''logging'', logging_DockStream od),
       (''parameters'', PDict [(''diversity_filter'', diversity_filter_DockStream),
          (''inception'', inception_DockStream),
          (''reinforcement_learning'', reinforcement_learning_DockStream ip),
          (''scoring_function'', scoring_function_DockStream dc dp de)])])"
  unfolding configuration_DockStream_def configuration_init_DockStream_def
    configuration_assignments_DockStream_def
  by (rule assign_all_demo)

lemma configuration_Tanimoto_final:
  "configuration_Tanimoto ip od =
     Inr (PDict [(''version'', PInt 3), (''run_type'', PStr ''reinforcement_learning''),
       (''logging'', logging_Tanimoto od),
       (''parameters'', PDict [(''diversity_filter'', diversity_filter_Tanimoto),
          (''inception'', inception_Tanimoto),
          (''reinforcement_learning'', reinforcement_learning_Tanimoto ip),
          (''scoring_function'', scoring_function_Tanimoto)])])"
  unfolding configuration_Tanimoto_def configuration_init_Tanimoto_def
    configuration_assignments_Tanimoto_def
  by (rule assign_all_demo)

lemma configuration_Selectivity_final:
  "configuration_Selectivity ip od =
     Inr (PDict [(''version'', PInt 3), (''run_type'', PStr ''reinforcement_learning''),
       (''logging'', logging_Selectivity od),
       (''parameters'', PDict [(''diversity_filter'', diversity_filter_Selectivity),
          (''inception'', inception_Selectivity),
          (''reinforcement_learning'', reinforcement_learning_Selectivity ip),
          (''scoring_function'', scoring_function_Selectivity ip)])])"
  unfolding configuration_Selectivity_def configuration_init_Selectivity_def
    configuration_assignments_Selectivity_def
  by (rule assign_all_demo)

lemma configuration_Exploration_final:
  "configuration_Exploration ip od =
     Inr (PDict [(''version'', PInt 3), (''run_type'', PStr ''reinforcement_learning''),
       (''logging'', logging_Exploration od),
       (''parameters'', PDict [(''diversity_filter'', diversity_filter_Exploration),
          (''inception'', inception_Exploration),
          (''reinforcement_learning'', reinforcement_learning_Exploration ip),
          (''scoring_function'', scoring_function_Exploration ip)])])"
  unfolding configuration_Exploration_def configuration_init_Exploration_def
    configuration_assignments_Exploration_def
  by (rule assign_all_demo)

lemma configuration_Sampling_final:
  "configuration_Sampling ip od =
     Inr (PDict [(''version'', PInt 3), (''run_type'', PStr ''sampling''),
       (''logging'', logging_Sampling od), (''parameters'', parameters_Sampling ip od)])"
  unfolding configuration_Sampling_def configuration_init_Sampling_def
    configuration_assignments_Sampling_def
  by (rule assign_all_sampling)

lemmas configuration_final =
  configuration_DRD2_final configuration_DockStream_final configuration_Tanimoto_final
  configuration_Selectivity_final configuration_Exploration_final configuration_Sampling_final

text \<open>The blocks are dictionaries.\<close>

fun is_dict :: "py \<Rightarrow> bool" where
  "is_dict (PDict kvs) = True"
| "is_dict _ = False"

lemma is_dict_PDict: "is_dict (PDict kvs)"
  by simp

lemma is_dict_scoring_function_DRD2: "is_dict (scoring_function_DRD2 ip)"
  unfolding scoring_function_DRD2_def by (rule is_dict_PDict)

lemma is_dict_diversity_filter: "is_dict diversity_filter"
  unfolding diversity_filter_def by (rule is_dict_PDict)

lemma is_dict_inception: "is_dict inception"
  unfolding inception_def by (rule is_dict_PDict)

lemma is_dict_reinforcement_learning_DRD2: "is_dict (reinforcement_learning_DRD2 ip)"
  unfolding reinforcement_learning_DRD2_def by (rule is_dict_PDict)

lemma is_dict_logging_DRD2: "is_dict (logging_DRD2 od)"
  unfolding logging_DRD2_def by (rule is_dict_PDict)

lemma is_dict_scoring_function_DockStream: "is_dict (scoring_function_DockStream dc dp de)"
  unfolding scoring_function_DockStream_def by (rule is_dict_PDict)

lemma is_dict_diversity_filter_DockStream: "is_dict diversity_filter_DockStream"
  unfolding diversity_filter_DockStream_def by (rule is_dict_PDict)

lemma is_dict_inception_DockStream: "is_dict inception_DockStream"
  unfolding inception_DockStream_def by (rule is_dict_PDict)

lemma is_dict_reinforcement_learning_DockStream: "is_dict (reinforcement_learning_DockStream ip)"
  unfolding reinforcement_learning_DockStream_def by (rule is_dict_PDict)

lemma is_dict_logging_DockStream: "is_dict (logging_DockStream od)"
  unfolding logging_DockStream_def by (rule is_dict_PDict)

lemma is_dict_scoring_function_Tanimoto: "is_dict scoring_function_Tanimoto"
  unfolding scoring_function_Tanimoto_def by (rule is_dict_PDict)

lemma is_dict_diversity_filter_Tanimoto: "is_dict diversity_filter_Tanimoto"
  unfolding diversity_filter_Tanimoto_def by (rule is_dict_PDict)

lemma is_dict_inception_Tanimoto: "is_dict inception_Tanimoto"
  unfolding inception_Tanimoto_def by (rule is_dict_PDict)

lemma is_dict_reinforcement_learning_Tanimoto: "is_dict (reinforcement_learning_Tanimoto ip)"
  unfolding reinforcement_learning_Tanimoto_def by (rule is_dict_PDict)

lemma is_dict_logging_Tanimoto: "is_dict (logging_Tanimoto od)"
  unfolding logging_Tanimoto_def by (rule is_dict_PDict)

lemma is_dict_scoring_function_Selectivity: "is_dict (scoring_function_Selectivity ip)"
  unfolding scoring_function_Selectivity_def by (rule is_dict_PDict)

lemma is_dict_diversity_filter_Selectivity: "is_dict diversity_filter_Selectivity"
  unfolding diversity_filter_Selectivity_def by (rule is_dict_PDict)

lemma is_dict_inception_Selectivity: "is_dict inception_Selectivity"
  unfolding inception_Selectivity_def by (rule is_dict_PDict)

lemma is_dict_reinforcement_learning_Selectivity: "is_dict (reinforcement_learning_Selectivity ip)"
  unfolding reinforcement_learning_Selectivity_def by (rule is_dict_PDict)

lemma is_dict_logging_Selectivity: "is_dict (logging_Selectivity od)"
  unfolding logging_Selectivity_def by (rule is_dict_PDict)

lemma is_dict_scoring_function_Exploration: "is_dict (scoring_function_Exploration ip)"
  unfolding scoring_function_Exploration_def by (rule is_dict_PDict)

lemma is_dict_diversity_filter_Exploration: "is_dict diversity_filter_Exploration"
  unfolding diversity_filter_Exploration_def by (rule is_dict_PDict)

lemma is_dict_inception_Exploration: "is_dict inception_Exploration"
  unfolding inception_Exploration_def by (rule is_dict_PDict)

lemma is_dict_reinforcement_learning_Exploration: "is_dict (reinforcement_learning_Exploration ip)"
  unfolding reinforcement_learning_Exploration_def by (rule is_dict_PDict)

lemma is_dict_logging_Exploration: "is_dict (logging_Exploration od)"
  unfolding logging_Exploration_def by (rule is_dict_PDict)

lemma is_dict_logging_Sampling: "is_dict (logging_Sampling od)"
  unfolding logging_Sampling_def by (rule is_dict_PDict)

lemma is_dict_parameters_Sampling: "is_dict (parameters_Sampling ip od)"
  unfolding parameters_Sampling_def by (rule is_dict_PDict)

lemmas blocks_are_dicts =
  is_dict_scoring_function_DRD2 is_dict_diversity_filter is_dict_inception
  is_dict_reinforcement_learning_DRD2 is_dict_logging_DRD2 is_dict_scoring_function_DockStream
  is_dict_diversity_filter_DockStream is_dict_inception_DockStream is_dict_reinforcement_learning_DockStream
  is_dict_logging_DockStream is_dict_scoring_function_Tanimoto is_dict_diversity_filter_Tanimoto
  is_dict_inception_Tanimoto is_dict_reinforcement_learning_Tanimoto is_dict_logging_Tanimoto
  is_dict_scoring_function_Selectivity is_dict_diversity_filter_Selectivity is_dict_inception_Selectivity
  is_dict_reinforcement_learning_Selectivity is_dict_logging_Selectivity is_dict_scoring_function_Exploration
  is_dict_diversity_filter_Exploration is_dict_inception_Exploration is_dict_reinforcement_learning_Exploration
  is_dict_logging_Exploration is_dict_logging_Sampling is_dict_parameters_Sampling

lemma assign_all_use_case_steps:
  "\<exists>c. assign_all
       (PDict [(''version'', v), (''run_type'', r), (''parameters'', PDict [(''scoring_function'', sf)])])
       (take n [([''parameters'', ''diversity_filter''], df),
          ([''parameters'', ''inception''], inc),
          ([''parameters'', ''reinforcement_learning''], rl),
          ([''logging''], lg)]) = Inr c \<and>
     getitem_path c [''version''] = Inr v \<and>
     getitem_path c [''run_type''] = Inr r \<and>
     getitem_path c [''parameters'', ''scoring_function''] = Inr sf"
  by (cases n rule: take_cases4) (simp_all add: bind_exc_def)

section \<open>Writing the configuration as JSON\<close>

subsection \<open>Numbers and strings\<close>

text \<open>\<^verbatim>\<open>int.__repr__\<close>: the decimal digits, behind a minus sign for a negative number.\<close>

definition digit_char :: "nat \<Rightarrow> char" where
  "digit_char d = char_of (of_char CHR ''0'' + d)"

function str_nat :: "nat \<Rightarrow> string" where
  "str_nat n = (if n < 10 then [digit_char n] else str_nat (n div 10) @ [digit_char (n mod 10)])"
  by pat_completeness auto
termination
  by (relation "measure id") auto

declare str_nat.simps [simp del]

definition str_int :: "int \<Rightarrow> string" where
  "str_int i = (if i < 0 then ''-'' @ str_nat (nat (- i)) else str_nat (nat i))"

text \<open>
  \<^verbatim>\<open>float.__repr__\<close> of a float whose shortest decimal representation has the given
  sign, integral part and digits behind the point, in positional notation.
\<close>

fun float_repr :: "pyfloat \<Rightarrow> string" where
  "float_repr (Decimal neg w frac) =
     (if neg then ''-'' else []) @ str_nat w @ ''.'' @ map digit_char frac"

text \<open>
  \<^verbatim>\<open>json.encoder.py_encode_basestring_ascii\<close>: the string between double quotes, where
  the backslash, the double quote and every character outside the range from the space
  to the tilde are escaped: the usual short escapes for backspace, form feed, line feed,
  carriage return and tabulator, and \<^verbatim>\<open>\u\<close> with four lower-case hexadecimal digits for
  the others.
\<close>

definition hex_digit :: "nat \<Rightarrow> char" where
  "hex_digit d = (if d < 10 then char_of (of_char CHR ''0'' + d)
                  else char_of (of_char CHR ''a'' + (d - 10)))"

definition escape_char :: "char \<Rightarrow> string" where
  "escape_char c =
     (if c = CHR 0x5C then [CHR 0x5C, CHR 0x5C]
      else if c = CHR 0x22 then [CHR 0x5C, CHR 0x22]
      else if c = CHR 0x08 then [CHR 0x5C, CHR ''b'']
      else if c = CHR 0x0C then [CHR 0x5C, CHR ''f'']
      else if c = CHR 0x0A then [CHR 0x5C, CHR ''n'']
      else if c = CHR 0x0D then [CHR 0x5C, CHR ''r'']
      else if c = CHR 0x09 then [CHR 0x5C, CHR ''t'']
      else if (of_char c :: nat) < 0x20 \<or> 0x7E < (of_char c :: nat) then
        [CHR 0x5C, CHR ''u'', CHR ''0'', CHR ''0'',
         hex_digit (of_char c div 16), hex_digit (of_char c mod 16)]
      else [c])"

definition encode_basestring_ascii :: "string \<Rightarrow> string" where
  "encode_basestring_ascii s = [CHR 0x22] @ concat (map escape_char s) @ [CHR 0x22]"

subsection \<open>The encoder\<close>

text \<open>
  \<^verbatim>\<open>json.dump(obj, f, indent=n, sort_keys=b)\<close> writes the chunks of the encoder one after
  the other.  With an indentation the items of a list or dictionary that is not empty
  stand on lines of their own, indented by \<open>n\<close> spaces per level and separated by a comma
  at the end of the line; a key and its value are separated by a colon and a space.  With
  \<^verbatim>\<open>sort_keys\<close> the items of a dictionary are written in the order of their keys,
  otherwise in the order of insertion.
\<close>

definition newline_indent :: "nat \<Rightarrow> nat \<Rightarrow> string" where
  "newline_indent indent level = CHR 0x0A # replicate (indent * level) CHR '' ''"

definition items :: "bool \<Rightarrow> (string \<times> py) list \<Rightarrow> (string \<times> py) list" where
  "items sort_keys dct = (if sort_keys then sort_key fst dct else dct)"

lemma set_items [simp]: "set (items sort_keys dct) = set dct"
  by (simp add: items_def)

lemma size_dict_value:
  "(k, v) \<in> set dct \<Longrightarrow> size v < Suc (size_list (size_prod (\<lambda>_. 0) size) dct)"
  by (induction dct) auto

function iterencode :: "nat \<Rightarrow> bool \<Rightarrow> nat \<Rightarrow> py \<Rightarrow> string" where
  "iterencode indent sort_keys level PNone = ''null''"
| "iterencode indent sort_keys level (PBool b) = (if b then ''true'' else ''false'')"
| "iterencode indent sort_keys level (PInt i) = str_int i"
| "iterencode indent sort_keys level (PFloat x) = float_repr x"
| "iterencode indent sort_keys level (PStr s) = encode_basestring_ascii s"
| "iterencode indent sort_keys level (PList lst) =
     (if lst = [] then ''[]''
      else ''['' @ newline_indent indent (Suc level) @
        join ('','' @ newline_indent indent (Suc level))
          (map (iterencode indent sort_keys (Suc level)) lst) @
        newline_indent indent level @ '']'')"
| "iterencode indent sort_keys level (PDict dct) =
     (if dct = [] then ''{}''
      else ''{'' @ newline_indent indent (Suc level) @
        join ('','' @ newline_indent indent (Suc level))
          (map (\<lambda>kv. encode_basestring_ascii (fst kv) @ '': '' @
                  iterencode indent sort_keys (Suc level) (snd kv))
            (items sort_keys dct)) @
        newline_indent indent level @ ''}'')"
  by pat_completeness auto
termination
proof (relation "measure (\<lambda>(indent, sort_keys, level, v). size v)")
  fix indent :: nat and sort_keys :: bool and level :: nat and dct :: "(string \<times> py) list" and kv
  assume "kv \<in> set (items sort_keys dct)"
  then have "(fst kv, snd kv) \<in> set dct"
    by simp
  then have "size (snd kv) < Suc (size_list (size_prod (\<lambda>_. 0) size) dct)"
    by (rule size_dict_value)
  then show "((indent, sort_keys, Suc level, snd kv), (indent, sort_keys, level, PDict dct))
      \<in> measure (\<lambda>(indent, sort_keys, level, v). size v)"
    by simp
next
  fix indent :: nat and sort_keys :: bool and level :: nat and lst :: "py list" and x
  assume "x \<in> set lst"
  then have "size x < Suc (size_list size lst)"
    by (induction lst) auto
  then show "((indent, sort_keys, Suc level, x), (indent, sort_keys, level, PList lst))
      \<in> measure (\<lambda>(indent, sort_keys, level, v). size v)"
    by simp
qed simp

declare iterencode.simps [simp del]

definition json_dumps :: "nat \<Rightarrow> bool \<Rightarrow> py \<Rightarrow> string" where
  "json_dumps indent sort_keys obj = iterencode indent sort_keys 0 obj"

section \<open>Dictionaries that differ in the order of insertion only\<close>

text \<open>
  The keys of a Python dictionary are distinct.  This holds of every dictionary inside a
  value the notebooks build.
\<close>

fun distinct_keys :: "py \<Rightarrow> bool" where
  "distinct_keys (PDict dct) =
     (distinct (map fst dct) \<and> list_all (\<lambda>kv. distinct_keys (snd kv)) dct)"
| "distinct_keys (PList lst) = list_all distinct_keys lst"
| "distinct_keys _ = True"

text \<open>
  Two values hold the same entries when they are equal up to the order in which the
  entries of their dictionaries were inserted: dictionaries with the same keys and, under
  each key, values with the same entries; lists of equal length with the same entries
  position by position; any other value is the same as itself only.
\<close>

fun same_entries :: "py \<Rightarrow> py \<Rightarrow> bool" where
  "same_entries (PDict a) y =
     (case y of
        PDict b \<Rightarrow>
          set (map fst a) = set (map fst b) \<and>
          list_all (\<lambda>kv. case map_of b (fst kv) of
                            None \<Rightarrow> False
                          | Some v \<Rightarrow> same_entries (snd kv) v) a
      | _ \<Rightarrow> False)"
| "same_entries (PList a) y =
     (case y of PList b \<Rightarrow> list_all2 same_entries a b | _ \<Rightarrow> False)"
| "same_entries x y = (x = y)"

lemma sorted_items: "sorted (map fst (items True dct))"
  by (simp add: items_def)

lemma map_fst_items_eq:
  assumes "distinct (map fst a)" "distinct (map fst b)" "set (map fst a) = set (map fst b)"
  shows "map fst (items True a) = map fst (items True b)"
proof (rule sorted_distinct_set_unique)
  show "sorted (map fst (items True a))" "sorted (map fst (items True b))"
    by (rule sorted_items)+
  show "distinct (map fst (items True a))"
    using assms(1) by (simp add: items_def distinct_map inj_on_def)
  show "distinct (map fst (items True b))"
    using assms(2) by (simp add: items_def distinct_map inj_on_def)
  show "set (map fst (items True a)) = set (map fst (items True b))"
    using assms(3) by simp
qed


lemma items_same_entries:
  assumes da: "distinct (map fst a)" and db: "distinct (map fst b)"
    and keys: "set (map fst a) = set (map fst b)"
    and vals: "list_all (\<lambda>kv. case map_of b (fst kv) of
                            None \<Rightarrow> False
                          | Some v \<Rightarrow> same_entries (snd kv) v) a"
  shows "list_all2 (\<lambda>p q. fst p = fst q \<and> same_entries (snd p) (snd q))
           (items True a) (items True b)"
proof -
  have fsts: "map fst (items True a) = map fst (items True b)"
    using da db keys by (rule map_fst_items_eq)
  then have len: "length (items True a) = length (items True b)"
    by (metis length_map)
  show ?thesis
  proof (rule list_all2_all_nthI [OF len])
    fix i
    assume i: "i < length (items True a)"
    let ?p = "items True a ! i" and ?q = "items True b ! i"
    have eq: "fst ?p = fst ?q"
      using fsts i len by (metis nth_map)
    have "?p \<in> set a"
      using i by (metis nth_mem set_items)
    then obtain v where v: "map_of b (fst ?p) = Some v" "same_entries (snd ?p) v"
      using vals by (auto simp: list_all_iff split: option.splits)
    have "?q \<in> set b"
      using i len by (metis nth_mem set_items)
    then have "map_of b (fst ?q) = Some (snd ?q)"
      using db by (metis map_of_is_SomeI prod.collapse)
    with v eq have "v = snd ?q"
      by simp
    with v eq show "fst ?p = fst ?q \<and> same_entries (snd ?p) (snd ?q)"
      by simp
  qed
qed

lemma map_eq_list_all2:
  assumes "list_all2 R xs ys" "\<And>x y. x \<in> set xs \<Longrightarrow> y \<in> set ys \<Longrightarrow> R x y \<Longrightarrow> f x = g y"
  shows "map f xs = map g ys"
  using assms by (induction xs ys rule: list_all2_induct) auto

lemma iterencode_same_entries:
  "distinct_keys a \<Longrightarrow> distinct_keys b \<Longrightarrow> same_entries a b \<Longrightarrow>
     iterencode indent True level a = iterencode indent True level b"
proof (induction a arbitrary: b level)
  case (PList lst)
  from PList.prems(3) obtain lb where b: "b = PList lb" and all2: "list_all2 same_entries lst lb"
    by (cases b) auto
  have "map (iterencode indent True (Suc level)) lst = map (iterencode indent True (Suc level)) lb"
  proof (rule map_eq_list_all2 [OF all2])
    fix x y
    assume "x \<in> set lst" "y \<in> set lb" "same_entries x y"
    moreover from this PList.prems(1,2) b have "distinct_keys x" "distinct_keys y"
      by (auto simp: list_all_iff)
    ultimately show "iterencode indent True (Suc level) x = iterencode indent True (Suc level) y"
      by (intro PList.IH)
  qed
  moreover have "lst = [] \<longleftrightarrow> lb = []"
    using all2 by (auto dest: list_all2_lengthD)
  ultimately show ?case
    by (simp add: b iterencode.simps)
next
  case (PDict dct)
  from PDict.prems(3) obtain db where b: "b = PDict db"
    and keys: "set (map fst dct) = set (map fst db)"
    and vals: "list_all (\<lambda>kv. case map_of db (fst kv) of
                            None \<Rightarrow> False
                          | Some v \<Rightarrow> same_entries (snd kv) v) dct"
    by (cases b) auto
  from PDict.prems(1,2) b have dist: "distinct (map fst dct)" "distinct (map fst db)"
    by auto
  have all2: "list_all2 (\<lambda>p q. fst p = fst q \<and> same_entries (snd p) (snd q))
           (items True dct) (items True db)"
    using dist keys vals by (rule items_same_entries)
  have "map (\<lambda>kv. encode_basestring_ascii (fst kv) @ '': '' @
                  iterencode indent True (Suc level) (snd kv)) (items True dct) =
        map (\<lambda>kv. encode_basestring_ascii (fst kv) @ '': '' @
                  iterencode indent True (Suc level) (snd kv)) (items True db)"
  proof (rule map_eq_list_all2 [OF all2])
    fix p q
    assume p: "p \<in> set (items True dct)" and q: "q \<in> set (items True db)"
      and pq: "fst p = fst q \<and> same_entries (snd p) (snd q)"
    from p have p': "p \<in> set dct" by simp
    from q have q': "q \<in> set db" by simp
    have "distinct_keys (snd p)" "distinct_keys (snd q)"
      using p' q' PDict.prems(1,2) b by (auto simp: list_all_iff)
    moreover have "snd p \<in> Basic_BNFs.snds p"
      by (cases p) simp
    ultimately have "iterencode indent True (Suc level) (snd p) =
        iterencode indent True (Suc level) (snd q)"
      using pq p' by (intro PDict.IH [of p "snd p"]) auto
    with pq show "encode_basestring_ascii (fst p) @ '': '' @ iterencode indent True (Suc level) (snd p) =
       encode_basestring_ascii (fst q) @ '': '' @ iterencode indent True (Suc level) (snd q)"
      by simp
  qed
  moreover have "dct = [] \<longleftrightarrow> db = []"
    using keys by auto
  ultimately show ?case
    by (simp add: b iterencode.simps)
qed (auto simp: iterencode.simps)

subsection \<open>The dictionaries of the notebooks\<close>

lemma distinct_keys_component_DRD2_prediction [simp]: "distinct_keys (component_DRD2_prediction ip)"
  by (simp add: component_DRD2_prediction_def)

lemma distinct_keys_diversity_filter [simp]: "distinct_keys diversity_filter"
  by (simp add: diversity_filter_def)

lemma distinct_keys_inception [simp]: "distinct_keys inception"
  by (simp add: inception_def)

lemma distinct_keys_component_rotatable_bonds [simp]: "distinct_keys component_rotatable_bonds"
  by (simp add: component_rotatable_bonds_def)

lemma distinct_keys_component_num_hbd [simp]: "distinct_keys component_num_hbd"
  by (simp add: component_num_hbd_def)

lemma distinct_keys_component_custom_alerts [simp]: "distinct_keys component_custom_alerts"
  by (simp add: component_custom_alerts_def)

lemma distinct_keys_scoring_function_DRD2 [simp]: "distinct_keys (scoring_function_DRD2 ip)"
  by (simp add: scoring_function_DRD2_def)

lemma distinct_keys_reinforcement_learning_DRD2 [simp]: "distinct_keys (reinforcement_learning_DRD2 ip)"
  by (simp add: reinforcement_learning_DRD2_def)

lemma distinct_keys_logging_DRD2 [simp]: "distinct_keys (logging_DRD2 od)"
  by (simp add: logging_DRD2_def)

lemma distinct_keys_configuration_init_DRD2 [simp]: "distinct_keys (configuration_init_DRD2 ip)"
  by (simp add: configuration_init_DRD2_def)

lemma distinct_keys_ed_dict [simp]: "distinct_keys (ed_dict gf pp sp)"
  by (simp add: ed_dict_def)

lemma distinct_keys_logging_DockStream [simp]: "distinct_keys (logging_DockStream od)"
  by (simp add: logging_DockStream_def)

lemma distinct_keys_diversity_filter_DockStream [simp]: "distinct_keys diversity_filter_DockStream"
  by (simp add: diversity_filter_DockStream_def)

lemma distinct_keys_inception_DockStream [simp]: "distinct_keys inception_DockStream"
  by (simp add: inception_DockStream_def)

lemma distinct_keys_reinforcement_learning_DockStream [simp]: "distinct_keys (reinforcement_learning_DockStream ip)"
  by (simp add: reinforcement_learning_DockStream_def)

lemma distinct_keys_scoring_function_DockStream [simp]: "distinct_keys (scoring_function_DockStream dc dp de)"
  by (simp add: scoring_function_DockStream_def)

lemma distinct_keys_configuration_init_DockStream [simp]: "distinct_keys configuration_init_DockStream"
  by (simp add: configuration_init_DockStream_def)

lemma distinct_keys_logging_Tanimoto [simp]: "distinct_keys (logging_Tanimoto od)"
  by (simp add: logging_Tanimoto_def)

lemma distinct_keys_diversity_filter_Tanimoto [simp]: "distinct_keys diversity_filter_Tanimoto"
  by (simp add: diversity_filter_Tanimoto_def)

lemma distinct_keys_inception_Tanimoto [simp]: "distinct_keys inception_Tanimoto"
  by (simp add: inception_Tanimoto_def)

lemma distinct_keys_reinforcement_learning_Tanimoto [simp]: "distinct_keys (reinforcement_learning_Tanimoto ip)"
  by (simp add: reinforcement_learning_Tanimoto_def)

lemma distinct_keys_scoring_function_Tanimoto [simp]: "distinct_keys scoring_function_Tanimoto"
  by (simp add: scoring_function_Tanimoto_def)

lemma distinct_keys_configuration_init_Tanimoto [simp]: "distinct_keys configuration_init_Tanimoto"
  by (simp add: configuration_init_Tanimoto_def)

lemma distinct_keys_logging_Selectivity [simp]: "distinct_keys (logging_Selectivity od)"
  by (simp add: logging_Selectivity_def)

lemma distinct_keys_diversity_filter_Selectivity [simp]: "distinct_keys diversity_filter_Selectivity"
  by (simp add: diversity_filter_Selectivity_def)

lemma distinct_keys_inception_Selectivity [simp]: "distinct_keys inception_Selectivity"
  by (simp add: inception_Selectivity_def)

lemma distinct_keys_reinforcement_learning_Selectivity [simp]: "distinct_keys (reinforcement_learning_Selectivity ip)"
  by (simp add: reinforcement_learning_Selectivity_def)

lemma distinct_keys_scoring_function_Selectivity [simp]: "distinct_keys (scoring_function_Selectivity ip)"
  by (simp add: scoring_function_Selectivity_def)

lemma distinct_keys_configuration_init_Selectivity [simp]: "distinct_keys configuration_init_Selectivity"
  by (simp add: configuration_init_Selectivity_def)

lemma distinct_keys_logging_Exploration [simp]: "distinct_keys (logging_Exploration od)"
  by (simp add: logging_Exploration_def)

lemma distinct_keys_diversity_filter_Exploration [simp]: "distinct_keys diversity_filter_Exploration"
  by (simp add: diversity_filter_Exploration_def)

lemma distinct_keys_inception_Exploration [simp]: "distinct_keys inception_Exploration"
  by (simp add: inception_Exploration_def)

lemma distinct_keys_reinforcement_learning_Exploration [simp]: "distinct_keys (reinforcement_learning_Exploration ip)"
  by (simp add: reinforcement_learning_Exploration_def)

lemma distinct_keys_scoring_function_Exploration [simp]: "distinct_keys (scoring_function_Exploration ip)"
  by (simp add: scoring_function_Exploration_def)

lemma distinct_keys_configuration_init_Exploration [simp]: "distinct_keys configuration_init_Exploration"
  by (simp add: configuration_init_Exploration_def)

lemma distinct_keys_logging_Sampling [simp]: "distinct_keys (logging_Sampling od)"
  by (simp add: logging_Sampling_def)

lemma distinct_keys_parameters_Sampling [simp]: "distinct_keys (parameters_Sampling ip od)"
  by (simp add: parameters_Sampling_def)

lemma distinct_keys_configuration_init_Sampling [simp]: "distinct_keys configuration_init_Sampling"
  by (simp add: configuration_init_Sampling_def)


lemma distinct_keys_configuration: "configuration nb vs = Inr c \<Longrightarrow> distinct_keys c"
proof (cases nb)
  case (RL rl)
  then show "configuration nb vs = Inr c \<Longrightarrow> distinct_keys c"
    by (cases rl) (auto simp: configuration_final)
next
  case Sampling_Demo
  then show "configuration nb vs = Inr c \<Longrightarrow> distinct_keys c"
    by (auto simp: configuration_final)
qed

section \<open>Running a notebook\<close>

subsection \<open>The session and the operating system\<close>

text \<open>
  What a run of a notebook reads and changes: the binding of the global variable
  \<^verbatim>\<open>ipynb_path\<close> in the kernel (absent unless something bound it before the first cell
  runs), the directories and the regular files with their contents.
\<close>

record world =
  ipynb_path_bound :: "string option"
  directories :: "string set"
  files :: "string \<rightharpoonup> string"

text \<open>
  What the notebooks do not decide themselves is a parameter: the home directory of the
  user, the result of \<^verbatim>\<open>os.getcwd()\<close>, whether the operating system refuses to make a
  directory or to open a file for writing and with which exception, and what a shell
  command prints and changes.  A shell command started with \<^verbatim>\<open>!\<close> raises no exception
  in the notebook, whatever its exit status.
\<close>

record os =
  home :: string
  getcwd :: "world \<Rightarrow> pyexc + string"
  mkdir_refused :: "string \<Rightarrow> world \<Rightarrow> pyexc option"
  open_refused :: "string \<Rightarrow> world \<Rightarrow> pyexc option"
  shell :: "string \<Rightarrow> world \<Rightarrow> string \<times> world"

text \<open>
  \<^verbatim>\<open>os.mkdir(path)\<close>: unless the operating system refuses, a path that exists raises
  \<^verbatim>\<open>FileExistsError\<close> and any other path becomes a directory.
\<close>

definition os_mkdir :: "os \<Rightarrow> string \<Rightarrow> world \<Rightarrow> pyexc + world" where
  "os_mkdir os path w =
     (case mkdir_refused os path w of
        Some e \<Rightarrow> Inl e
      | None \<Rightarrow>
          if path \<in> directories w \<or> path \<in> dom (files w) then Inl FileExistsError
          else Inr (w\<lparr>directories := insert path (directories w)\<rparr>))"

text \<open>
  \<^verbatim>\<open>with open(path, 'w') as f: f.write(text)\<close>: unless the operating system refuses,
  the file holds the text afterwards.
\<close>

definition write_file :: "os \<Rightarrow> string \<Rightarrow> string \<Rightarrow> world \<Rightarrow> pyexc + world" where
  "write_file os path text w =
     (case open_refused os path w of
        Some e \<Rightarrow> Inl e
      | None \<Rightarrow> Inr (w\<lparr>files := (files w)(path \<mapsto> text)\<rparr>))"

subsection \<open>The first code cell\<close>

text \<open>
  \<^verbatim>\<open>try: ipynb_path\<close> \<^verbatim>\<open>except NameError: ipynb_path = os.getcwd()\<close>: evaluating an
  unbound name raises \<^verbatim>\<open>NameError\<close>; the handler binds the name to the working
  directory.
\<close>

definition lookup_ipynb_path :: "world \<Rightarrow> pyexc + string" where
  "lookup_ipynb_path w = (case ipynb_path_bound w of None \<Rightarrow> Inl NameError | Some p \<Rightarrow> Inr p)"

definition bind_ipynb_path :: "os \<Rightarrow> world \<Rightarrow> pyexc + (string \<times> world)" where
  "bind_ipynb_path os w =
     (case lookup_ipynb_path w of
        Inr p \<Rightarrow> Inr (p, w)
      | Inl e \<Rightarrow>
          if e = NameError
          then bind_exc (getcwd os w) (\<lambda>cwd. Inr (cwd, w\<lparr>ipynb_path_bound := Some cwd\<rparr>))
          else Inl e)"

text \<open>
  \<^verbatim>\<open>try: os.mkdir(path)\<close> \<^verbatim>\<open>except FileExistsError: pass\<close>.
\<close>

definition mkdir_if_required :: "os \<Rightarrow> string \<Rightarrow> world \<Rightarrow> pyexc + world" where
  "mkdir_if_required os path w =
     (case os_mkdir os path w of
        Inr w' \<Rightarrow> Inr w'
      | Inl e \<Rightarrow> if e = FileExistsError then Inr w else Inl e)"

text \<open>The folder each notebook stores its results in.\<close>

fun output_dir_of :: "notebook \<Rightarrow> string" where
  "output_dir_of (RL Use_Case_DRD2) = ''~/Desktop/REINVENT_Use-Case-DRD2_demo''"
| "output_dir_of (RL RL_DockStream) = ''~/Desktop/REINVENT_RL_DockStream_demo''"
| "output_dir_of (RL RL_Tanimoto) = ''~/Desktop/REINVENT_RL_Tanimoto_Similarity_demo''"
| "output_dir_of (RL RL_Selectivity) = ''~/Desktop/REINVENT_RL_Selectivity_demo''"
| "output_dir_of (RL RL_Exploration) = ''~/Desktop/REINVENT_RL_Exploration_demo''"
| "output_dir_of Sampling_Demo = ''~/Desktop/REINVENT_sampling_demo''"

text \<open>
  The assignments of the first cell, given the value of \<^verbatim>\<open>ipynb_path\<close>.  The variables
  for DockStream are assigned in the notebook with DockStream only; elsewhere the model
  leaves them empty, and nothing reads them.
\<close>

definition variables_of :: "notebook \<Rightarrow> os \<Rightarrow> string \<Rightarrow> variables" where
  "variables_of nb os ip =
     (let out = expanduser (home os) (output_dir_of nb);
          ds = (nb = RL RL_DockStream);
          dir = expanduser (home os) ''~/Desktop/ProjectData/DockStream''
      in \<lparr>reinvent_dir = expanduser (home os) ''~/Desktop/Reinvent'',
          reinvent_env = expanduser (home os) ''~/miniconda3/envs/reinvent.v3.0'',
          output_dir = out,
          ipynb_path = ip,
          dockstream_dir = (if ds then dir else []),
          dockstream_env =
            (if ds then expanduser (home os) ''~/miniconda3/envs/DockStream/bin/python'' else []),
          docker_path = (if ds then os_path_join dir [''docker.py''] else []),
          grid_file_path =
            (if ds then expanduser (home os)
               ''~/Desktop/ReinventCommunity/notebooks/data/DockStream/1UYD_grid.zip'' else []),
          output_ligands_docked_poses_path =
            (if ds then expanduser (home os) ''~/Desktop/REINVENT_RL_DockStream_demo/docked_poses''
             else []),
          output_ligands_docking_scores_path =
            (if ds then expanduser (home os) ''~/Desktop/REINVENT_RL_DockStream_demo/docking_scores''
             else []),
          docking_configuration_path =
            (if ds then os_path_join out [''Glide_DockStream_Conf.json''] else [])\<rparr>)"

text \<open>
  The directories the first cell makes: the output folder, and with DockStream the
  folders for the docked poses and the docking scores after it.
\<close>

definition folders_of :: "notebook \<Rightarrow> variables \<Rightarrow> string list" where
  "folders_of nb vs =
     (if nb = RL RL_DockStream
      then [output_dir vs, output_ligands_docked_poses_path vs,
            output_ligands_docking_scores_path vs]
      else [output_dir vs])"

fun mkdir_all :: "os \<Rightarrow> string list \<Rightarrow> world \<Rightarrow> pyexc + world" where
  "mkdir_all os [] w = Inr w"
| "mkdir_all os (path # paths) w =
     bind_exc (mkdir_if_required os path w) (\<lambda>w'. mkdir_all os paths w')"

definition first_cell :: "notebook \<Rightarrow> os \<Rightarrow> world \<Rightarrow> pyexc + (variables \<times> world)" where
  "first_cell nb os w =
     bind_exc (bind_ipynb_path os w) (\<lambda>(ip, w1).
     bind_exc (mkdir_all os (folders_of nb (variables_of nb os ip)) w1) (\<lambda>w2.
     Inr (variables_of nb os ip, w2)))"

subsection \<open>The cells that write, execute and display\<close>

text \<open>
  The notebook with DockStream writes the configuration of the docking first:
  \<^verbatim>\<open>json.dump(ed_dict, f, indent=2)\<close>.
\<close>

definition docking_cell :: "notebook \<Rightarrow> os \<Rightarrow> variables \<Rightarrow> world \<Rightarrow> pyexc + world" where
  "docking_cell nb os vs w =
     (if nb = RL RL_DockStream
      then write_file os (docking_configuration_path vs)
             (json_dumps 2 False
                (ed_dict (grid_file_path vs) (output_ligands_docked_poses_path vs)
                   (output_ligands_docking_scores_path vs))) w
      else Inr w)"

fun configuration_file :: "notebook \<Rightarrow> string" where
  "configuration_file (RL Use_Case_DRD2) = ''DRD2_config.json''"
| "configuration_file (RL RL_DockStream) = ''RL_DockStream_config.json''"
| "configuration_file (RL RL_Tanimoto) = ''RL_config.json''"
| "configuration_file (RL RL_Selectivity) = ''RL_config.json''"
| "configuration_file (RL RL_Exploration) = ''RL_config.json''"
| "configuration_file Sampling_Demo = ''sampling_config.json''"

definition configuration_JSON_path :: "notebook \<Rightarrow> variables \<Rightarrow> string" where
  "configuration_JSON_path nb vs = os_path_join (output_dir vs) [configuration_file nb]"

text \<open>
  Building the dictionary and
  \<^verbatim>\<open>json.dump(configuration, f, indent=4, sort_keys=True)\<close> into the file at
  \<^verbatim>\<open>configuration_JSON_path\<close>.
\<close>

definition write_configuration :: "notebook \<Rightarrow> os \<Rightarrow> variables \<Rightarrow> world \<Rightarrow> pyexc + world" where
  "write_configuration nb os vs w =
     bind_exc (configuration nb vs) (\<lambda>c.
     write_file os (configuration_JSON_path nb vs) (json_dumps 4 True c) w)"

text \<open>
  \<^verbatim>\<open>!{reinvent_env}/bin/python {reinvent_dir}/input.py {configuration_JSON_path}\<close>, its
  standard output captured.
\<close>

definition reinvent_command :: "notebook \<Rightarrow> variables \<Rightarrow> string" where
  "reinvent_command nb vs =
     reinvent_env vs @ ''/bin/python '' @ reinvent_dir vs @ ''/input.py '' @
     configuration_JSON_path nb vs"

text \<open>The last cell looks at a file of results with \<^verbatim>\<open>head\<close>.\<close>

fun head_command :: "notebook \<Rightarrow> variables \<Rightarrow> string" where
  "head_command (RL Use_Case_DRD2) vs =
     ''head -n 3 '' @ output_dir vs @ ''/results/scaffold_memory.csv''"
| "head_command (RL nb) vs = ''head -n 15 '' @ output_dir vs @ ''/results/memory.csv''"
| "head_command Sampling_Demo vs = ''head -n 15 '' @ output_dir vs @ ''/sampled/sampled.smi''"

text \<open>
  What a run that raises no exception leaves behind: the world, the captured output of
  the tool, and what the notebook displays (the elements of \<open>data\<close>, where there is such
  a list, and the output of \<^verbatim>\<open>head\<close>).
\<close>

record outcome =
  final :: world
  captured :: string
  displayed :: "string list"

definition run :: "notebook \<Rightarrow> os \<Rightarrow> world \<Rightarrow> pyexc + outcome" where
  "run nb os w =
     bind_exc (first_cell nb os w) (\<lambda>(vs, w1).
     bind_exc (docking_cell nb os vs w1) (\<lambda>w2.
     bind_exc (write_configuration nb os vs w2) (\<lambda>w3.
     (case shell os (reinvent_command nb vs) w3 of (stdout, w4) \<Rightarrow>
     bind_exc (write_file os (os_path_join (output_dir vs) [''run.err'']) stdout w4) (\<lambda>w5.
     (case shell os (head_command nb vs) w5 of (listing, w6) \<Rightarrow>
     Inr \<lparr>final = w6, captured = stdout,
          displayed = (case nb of RL rl \<Rightarrow> data rl stdout | Sampling_Demo \<Rightarrow> []) @ [listing]\<rparr>))))))"

text \<open>A session where nothing is refused and the tool prints one epoch.\<close>

definition example_os :: os where
  "example_os =
     \<lparr>home = ''/home/u'',
      getcwd = (\<lambda>w. Inr ''/home/u/notebooks''),
      mkdir_refused = (\<lambda>path w. None),
      open_refused = (\<lambda>path w. None),
      shell = (\<lambda>command w. (''INFO epoch local'', w))\<rparr>"

definition example_world :: world where
  "example_world = \<lparr>ipynb_path_bound = None, directories = {''/home/u/Desktop''}, files = Map.empty\<rparr>"

text \<open>The same session, except that no file may be opened for writing.\<close>

definition read_only_os :: os where
  "read_only_os = example_os\<lparr>open_refused := (\<lambda>path w. Some PermissionError)\<rparr>"

subsection \<open>Exceptions end the run\<close>

lemma bind_exc_Inl_iff:
  "bind_exc r f = Inl e \<longleftrightarrow> r = Inl e \<or> (\<exists>x. r = Inr x \<and> f x = Inl e)"
  by (cases r) (simp_all add: bind_exc_def)

lemma bind_exc_Inl [simp]: "bind_exc (Inl e) f = Inl e"
  by (simp add: bind_exc_def)

lemma bind_exc_Inr [simp]: "bind_exc (Inr x) f = f x"
  by (simp add: bind_exc_def)

lemma run_first_cell_fails: "first_cell nb os w = Inl e \<Longrightarrow> run nb os w = Inl e"
  by (simp add: run_def)

lemma mkdir_all_never_exists: "mkdir_all os paths w = Inl e \<Longrightarrow> e \<noteq> FileExistsError"
proof (induction paths arbitrary: w)
  case Nil
  then show ?case by simp
next
  case (Cons path paths)
  then show ?case
    by (auto simp: bind_exc_Inl_iff mkdir_if_required_def split: sum.splits if_splits)
qed

lemma configuration_returns: "\<exists>c. configuration nb vs = Inr c"
proof (cases nb)
  case (RL rl)
  then show ?thesis
    by (cases rl) (simp_all add: configuration_final)
next
  case Sampling_Demo
  then show ?thesis
    by (simp add: configuration_final)
qed

lemma write_configuration_refused:
  "open_refused os (configuration_JSON_path nb vs) w = Some e \<Longrightarrow>
     write_configuration nb os vs w = Inl e"
  using configuration_returns [of nb vs]
  by (auto simp: write_configuration_def write_file_def)

lemma write_configuration_content:
  "configuration nb vs = Inr c \<Longrightarrow> write_configuration nb os vs w = Inr w' \<Longrightarrow>
     files w' (configuration_JSON_path nb vs) = Some (json_dumps 4 True c)"
  by (auto simp: write_configuration_def write_file_def split: option.splits)

lemma items_top_level:
  "items True [(''version'', v), (''run_type'', r), (''parameters'', ps), (''logging'', lg)] =
     [(''logging'', lg), (''parameters'', ps), (''run_type'', r), (''version'', v)]"
  "items True [(''version'', v), (''run_type'', r), (''logging'', lg), (''parameters'', ps)] =
     [(''logging'', lg), (''parameters'', ps), (''run_type'', r), (''version'', v)]"
  by (simp_all add: items_def list_le_def list_less_def less_eq_char_def less_char_def)

lemma configuration_top_level:
  "configuration nb vs = Inr c \<Longrightarrow>
     \<exists>top lg ps r v. c = PDict top \<and>
       items True top = [(''logging'', lg), (''parameters'', ps), (''run_type'', r), (''version'', v)]"
proof (cases nb)
  case (RL rl)
  then show "configuration nb vs = Inr c \<Longrightarrow> ?thesis"
    by (cases rl) (auto simp: configuration_final items_top_level)
next
  case Sampling_Demo
  then show "configuration nb vs = Inr c \<Longrightarrow> ?thesis"
    by (auto simp: configuration_final items_top_level)
qed

subsection \<open>The folders of the first cell\<close>

lemma mkdir_if_required_Inr_iff:
  "mkdir_if_required os path w = Inr w' \<longleftrightarrow>
     os_mkdir os path w = Inr w' \<or> (os_mkdir os path w = Inl FileExistsError \<and> w' = w)"
  by (auto simp: mkdir_if_required_def split: sum.splits)

lemma mkdir_if_required_Inl_iff:
  "mkdir_if_required os path w = Inl e \<longleftrightarrow> os_mkdir os path w = Inl e \<and> e \<noteq> FileExistsError"
  by (auto simp: mkdir_if_required_def split: sum.splits)

lemma first_cell_folder:
  assumes "bind_ipynb_path os w = Inr (ip, w0)" "nb \<noteq> RL RL_DockStream"
  shows "first_cell nb os w =
     bind_exc (mkdir_if_required os (output_dir (variables_of nb os ip)) w0)
       (\<lambda>w1. Inr (variables_of nb os ip, w1))"
  using assms by (simp add: first_cell_def folders_of_def bind_exc_def split: sum.splits)

lemma first_cell_folders_DockStream:
  assumes "bind_ipynb_path os w = Inr (ip, w0)" "vs = variables_of (RL RL_DockStream) os ip"
  shows "first_cell (RL RL_DockStream) os w =
     bind_exc (mkdir_if_required os (output_dir vs) w0) (\<lambda>w1.
     bind_exc (mkdir_if_required os (output_ligands_docked_poses_path vs) w1) (\<lambda>w2.
     bind_exc (mkdir_if_required os (output_ligands_docking_scores_path vs) w2) (\<lambda>w3.
     Inr (vs, w3))))"
  using assms by (simp add: first_cell_def folders_of_def bind_exc_def split: sum.splits)

lemma first_cell_first_folder_fails:
  assumes "bind_ipynb_path os w = Inr (ip, w0)"
    "os_mkdir os (output_dir (variables_of nb os ip)) w0 = Inl e" "e \<noteq> FileExistsError"
  shows "first_cell nb os w = Inl e"
  using assms by (auto simp: first_cell_def folders_of_def mkdir_if_required_def)

lemma first_cell_second_folder_fails:
  assumes "bind_ipynb_path os w = Inr (ip, w0)" "vs = variables_of (RL RL_DockStream) os ip"
    "os_mkdir os (output_dir vs) w0 = Inr w1 \<or>
     (os_mkdir os (output_dir vs) w0 = Inl FileExistsError \<and> w1 = w0)"
    "os_mkdir os (output_ligands_docked_poses_path vs) w1 = Inl e" "e \<noteq> FileExistsError"
  shows "first_cell (RL RL_DockStream) os w = Inl e"
proof -
  have "mkdir_if_required os (output_dir vs) w0 = Inr w1"
    using assms(3) by (simp add: mkdir_if_required_Inr_iff)
  moreover have "mkdir_if_required os (output_ligands_docked_poses_path vs) w1 = Inl e"
    using assms(4,5) by (simp add: mkdir_if_required_Inl_iff)
  ultimately show ?thesis
    by (simp add: first_cell_folders_DockStream [OF assms(1,2)])
qed

lemma first_cell_third_folder_fails:
  assumes "bind_ipynb_path os w = Inr (ip, w0)" "vs = variables_of (RL RL_DockStream) os ip"
    "os_mkdir os (output_dir vs) w0 = Inr w1 \<or>
     (os_mkdir os (output_dir vs) w0 = Inl FileExistsError \<and> w1 = w0)"
    "os_mkdir os (output_ligands_docked_poses_path vs) w1 = Inr w2 \<or>
     (os_mkdir os (output_ligands_docked_poses_path vs) w1 = Inl FileExistsError \<and> w2 = w1)"
    "os_mkdir os (output_ligands_docking_scores_path vs) w2 = Inl e" "e \<noteq> FileExistsError"
  shows "first_cell (RL RL_DockStream) os w = Inl e"
proof -
  have "mkdir_if_required os (output_dir vs) w0 = Inr w1"
    using assms(3) by (simp add: mkdir_if_required_Inr_iff)
  moreover have "mkdir_if_required os (output_ligands_docked_poses_path vs) w1 = Inr w2"
    using assms(4) by (simp add: mkdir_if_required_Inr_iff)
  moreover have "mkdir_if_required os (output_ligands_docking_scores_path vs) w2 = Inl e"
    using assms(5,6) by (simp add: mkdir_if_required_Inl_iff)
  ultimately show ?thesis
    by (simp add: first_cell_folders_DockStream [OF assms(1,2)])
qed

lemma first_cell_folders_pass:
  assumes "bind_ipynb_path os w = Inr (ip, w0)" "vs = variables_of (RL RL_DockStream) os ip"
    "os_mkdir os (output_dir vs) w0 = Inr w1 \<or>
     (os_mkdir os (output_dir vs) w0 = Inl FileExistsError \<and> w1 = w0)"
    "os_mkdir os (output_ligands_docked_poses_path vs) w1 = Inr w2 \<or>
     (os_mkdir os (output_ligands_docked_poses_path vs) w1 = Inl FileExistsError \<and> w2 = w1)"
    "os_mkdir os (output_ligands_docking_scores_path vs) w2 = Inr w3 \<or>
     (os_mkdir os (output_ligands_docking_scores_path vs) w2 = Inl FileExistsError \<and> w3 = w2)"
  shows "first_cell (RL RL_DockStream) os w = Inr (vs, w3)"
proof -
  have "mkdir_if_required os (output_dir vs) w0 = Inr w1"
    using assms(3) by (simp add: mkdir_if_required_Inr_iff)
  moreover have "mkdir_if_required os (output_ligands_docked_poses_path vs) w1 = Inr w2"
    using assms(4) by (simp add: mkdir_if_required_Inr_iff)
  moreover have "mkdir_if_required os (output_ligands_docking_scores_path vs) w2 = Inr w3"
    using assms(5) by (simp add: mkdir_if_required_Inr_iff)
  ultimately show ?thesis
    by (simp add: first_cell_folders_DockStream [OF assms(1,2)])
qed

lemma first_cell_folder_passes:
  assumes "bind_ipynb_path os w = Inr (ip, w0)" "nb \<noteq> RL RL_DockStream"
    "os_mkdir os (output_dir (variables_of nb os ip)) w0 = Inr w1 \<or>
     (os_mkdir os (output_dir (variables_of nb os ip)) w0 = Inl FileExistsError \<and> w1 = w0)"
  shows "first_cell nb os w = Inr (variables_of nb os ip, w1)"
proof -
  have "mkdir_if_required os (output_dir (variables_of nb os ip)) w0 = Inr w1"
    using assms(3) by (simp add: mkdir_if_required_Inr_iff)
  then show ?thesis
    by (simp add: first_cell_folder [OF assms(1,2)])
qed

subsection \<open>The name of the notebook's path\<close>

lemma mkdir_all_keeps_name:
  "mkdir_all os paths w = Inr w' \<Longrightarrow> ipynb_path_bound w' = ipynb_path_bound w"
proof (induction paths arbitrary: w)
  case Nil
  then show ?case by simp
next
  case (Cons path paths)
  from Cons.prems obtain w1 where w1: "mkdir_if_required os path w = Inr w1"
    "mkdir_all os paths w1 = Inr w'"
    by (cases "mkdir_if_required os path w") auto
  from w1(1) have "ipynb_path_bound w1 = ipynb_path_bound w"
    by (auto simp: mkdir_if_required_Inr_iff os_mkdir_def split: option.splits if_splits)
  with Cons.IH [OF w1(2)] show ?case
    by simp
qed

lemma bind_ipynb_path_bound:
  "ipynb_path_bound w = Some p \<Longrightarrow> bind_ipynb_path os w = Inr (p, w)"
  by (simp add: bind_ipynb_path_def lookup_ipynb_path_def)

lemma first_cell_name:
  assumes "first_cell nb os w = Inr (vs, w1)"
  shows "(case ipynb_path_bound w of
            Some p \<Rightarrow> ipynb_path vs = p
          | None \<Rightarrow> getcwd os w = Inr (ipynb_path vs)) \<and>
         ipynb_path_bound w1 = Some (ipynb_path vs)"
proof -
  from assms obtain ip w0 where b: "bind_ipynb_path os w = Inr (ip, w0)"
    and m: "mkdir_all os (folders_of nb (variables_of nb os ip)) w0 = Inr w1"
    and vs: "vs = variables_of nb os ip"
    by (cases "bind_ipynb_path os w")
      (auto simp: first_cell_def bind_exc_def split: sum.splits)
  have ip: "ipynb_path vs = ip"
    by (simp add: vs variables_of_def Let_def)
  have "ipynb_path_bound w0 = Some ip \<and>
      (case ipynb_path_bound w of Some p \<Rightarrow> ip = p | None \<Rightarrow> getcwd os w = Inr ip)"
    using b by (cases "getcwd os w")
      (auto simp: bind_ipynb_path_def lookup_ipynb_path_def split: option.splits)
  with mkdir_all_keeps_name [OF m] ip show ?thesis
    by (auto split: option.splits)
qed

section \<open>Reading the configuration back\<close>

text \<open>
  \<^verbatim>\<open>json.loads\<close>, as far as the values of this theory go: characters are below 256 and
  floats are decimal fractions in positional notation.  The decoder fails (\<open>None\<close>) where
  \<^verbatim>\<open>json.loads\<close> raises \<^verbatim>\<open>JSONDecodeError\<close>, and also on what lies outside these
  values: an escape \<^verbatim>\<open>\uXXXX\<close> of 256 or more, a number with an exponent, and the
  constants \<^verbatim>\<open>NaN\<close> and \<^verbatim>\<open>Infinity\<close>.
\<close>

subsection \<open>Strings\<close>

definition hex_value :: "char \<Rightarrow> nat option" where
  "hex_value c =
     (let n = (of_char c :: nat) in
      if of_char CHR ''0'' \<le> n \<and> n \<le> of_char CHR ''9'' then Some (n - of_char CHR ''0'')
      else if of_char CHR ''a'' \<le> n \<and> n \<le> of_char CHR ''f'' then Some (n - of_char CHR ''a'' + 10)
      else if of_char CHR ''A'' \<le> n \<and> n \<le> of_char CHR ''F'' then Some (n - of_char CHR ''A'' + 10)
      else None)"

text \<open>\<^verbatim>\<open>_decode_uXXXX\<close>: the value of four hexadecimal digits.\<close>

definition decode_uXXXX :: "char \<Rightarrow> char \<Rightarrow> char \<Rightarrow> char \<Rightarrow> nat option" where
  "decode_uXXXX h1 h2 h3 h4 =
     (case (hex_value h1, hex_value h2, hex_value h3, hex_value h4) of
        (Some a, Some b, Some c, Some d) \<Rightarrow> Some (((a * 16 + b) * 16 + c) * 16 + d)
      | _ \<Rightarrow> None)"

text \<open>The table \<^verbatim>\<open>BACKSLASH\<close> of the escapes of one character.\<close>

definition backslash :: "char \<Rightarrow> char option" where
  "backslash esc =
     (if esc = CHR 0x22 then Some (CHR 0x22)
      else if esc = CHR 0x5C then Some (CHR 0x5C)
      else if esc = CHR ''/'' then Some CHR ''/''
      else if esc = CHR ''b'' then Some (CHR 0x08)
      else if esc = CHR ''f'' then Some (CHR 0x0C)
      else if esc = CHR ''n'' then Some (CHR 0x0A)
      else if esc = CHR ''r'' then Some (CHR 0x0D)
      else if esc = CHR ''t'' then Some (CHR 0x09)
      else None)"

text \<open>
  \<^verbatim>\<open>scanstring\<close> in strict mode, from behind the opening quote: the decoded string and
  the text behind the closing quote.  A control character inside the string, an unknown
  escape and a missing closing quote are errors.
\<close>

fun scanstring :: "string \<Rightarrow> (string \<times> string) option" where
  "scanstring [] = None"
| "scanstring (c # cs) =
     (if c = CHR 0x22 then Some ([], cs)
      else if c = CHR 0x5C then
        (case cs of
           [] \<Rightarrow> None
         | esc # r \<Rightarrow>
             if esc = CHR ''u'' then
               (case r of
                  h1 # h2 # h3 # h4 # r' \<Rightarrow>
                    (case decode_uXXXX h1 h2 h3 h4 of
                       None \<Rightarrow> None
                     | Some uni \<Rightarrow>
                         if uni < 256
                         then map_option (\<lambda>(s, rest). (char_of uni # s, rest)) (scanstring r')
                         else None)
                | _ \<Rightarrow> None)
             else
               (case backslash esc of
                  None \<Rightarrow> None
                | Some ch \<Rightarrow> map_option (\<lambda>(s, rest). (ch # s, rest)) (scanstring r)))
      else if (of_char c :: nat) < 0x20 then None
      else map_option (\<lambda>(s, rest). (c # s, rest)) (scanstring cs))"

subsection \<open>Numbers\<close>

definition is_digit :: "char \<Rightarrow> bool" where
  "is_digit c \<longleftrightarrow> of_char CHR ''0'' \<le> (of_char c :: nat) \<and> (of_char c :: nat) \<le> of_char CHR ''9''"

definition digit_value :: "char \<Rightarrow> nat" where
  "digit_value c = of_char c - of_char CHR ''0''"

definition nat_of_digits :: "string \<Rightarrow> nat" where
  "nat_of_digits ds = foldl (\<lambda>n c. 10 * n + digit_value c) 0 ds"

text \<open>
  The digits behind the point as the shortest representation has them: without trailing
  zeros, but at least one digit.
\<close>

definition shortest_frac :: "nat list \<Rightarrow> nat list" where
  "shortest_frac ds =
     (let r = rev (dropWhile (\<lambda>d. d = 0) (rev ds)) in if r = [] then [0] else r)"

text \<open>
  \<^verbatim>\<open>NUMBER_RE\<close>, \<^verbatim>\<open>(-?(?:0|[1-9]\d*))(\.\d+)?([eE][-+]?\d+)?\<close>, matched at the start of
  the text, and the value of the match: an integer unless there is a fraction.
\<close>

definition has_exponent :: "string \<Rightarrow> bool" where
  "has_exponent s =
     (case s of
        e # r \<Rightarrow>
          (e = CHR ''e'' \<or> e = CHR ''E'') \<and>
          (case r of
             sign # r' \<Rightarrow>
               is_digit sign \<or>
               ((sign = CHR ''+'' \<or> sign = CHR ''-'') \<and> (case r' of d # _ \<Rightarrow> is_digit d | [] \<Rightarrow> False))
           | [] \<Rightarrow> False)
      | [] \<Rightarrow> False)"

definition match_number :: "string \<Rightarrow> (py \<times> string) option" where
  "match_number s =
     (let neg = prefix ''-'' s;
          s1 = (if neg then drop 1 s else s)
      in case s1 of
           [] \<Rightarrow> None
         | d # r \<Rightarrow>
             if \<not> is_digit d then None
             else
               let integer = (if d = CHR ''0'' then [d] else d # takeWhile is_digit r);
                   s2 = (if d = CHR ''0'' then r else dropWhile is_digit r);
                   has_frac = (case s2 of p # f # _ \<Rightarrow> p = CHR ''.'' \<and> is_digit f | _ \<Rightarrow> False);
                   frac = (if has_frac then takeWhile is_digit (drop 1 s2) else []);
                   s3 = (if has_frac then dropWhile is_digit (drop 1 s2) else s2)
               in if has_exponent s3 then None
                  else if has_frac
                    then Some (PFloat (Decimal neg (nat_of_digits integer)
                                 (shortest_frac (map digit_value frac))), s3)
                  else Some (PInt (if neg then - int (nat_of_digits integer)
                                   else int (nat_of_digits integer)), s3))"

subsection \<open>Values\<close>

definition is_whitespace :: "char \<Rightarrow> bool" where
  "is_whitespace c \<longleftrightarrow> c = CHR '' '' \<or> c = CHR 0x09 \<or> c = CHR 0x0A \<or> c = CHR 0x0D"

definition skip_whitespace :: "string \<Rightarrow> string" where
  "skip_whitespace s = dropWhile is_whitespace s"

text \<open>\<^verbatim>\<open>dict(pairs)\<close>: a later pair replaces the value of an earlier one with its key.\<close>

definition dict :: "(string \<times> py) list \<Rightarrow> (string \<times> py) list" where
  "dict pairs = foldl (\<lambda>d kv. AList.update (fst kv) (snd kv) d) [] pairs"

text \<open>
  \<^verbatim>\<open>scan_once\<close> reads the value that starts at the first character; \<^verbatim>\<open>JSONArray\<close>
  and \<^verbatim>\<open>JSONObject\<close> read from behind the opening bracket or brace, and their loops
  read one item and what follows it.  White space is skipped where the decoder skips it.
  The first argument bounds the number of nested and consecutive calls; \<open>json_loads\<close>
  gives as many as the text has characters, and one more.
\<close>

fun scan_once :: "nat \<Rightarrow> string \<Rightarrow> (py \<times> string) option"
  and array_loop :: "nat \<Rightarrow> string \<Rightarrow> (py list \<times> string) option"
  and object_loop :: "nat \<Rightarrow> string \<Rightarrow> ((string \<times> py) list \<times> string) option"
where
  "scan_once 0 s = None"
| "scan_once (Suc n) s =
     (case s of
        [] \<Rightarrow> None
      | c # cs \<Rightarrow>
          if c = CHR 0x22 then map_option (\<lambda>(str, rest). (PStr str, rest)) (scanstring cs)
          else if c = CHR ''{'' then
            (case skip_whitespace cs of
               [] \<Rightarrow> None
             | c' # rest \<Rightarrow>
                 if c' = CHR ''}'' then Some (PDict [], rest)
                 else if c' = CHR 0x22
                   then map_option (\<lambda>(pairs, rest'). (PDict (dict pairs), rest'))
                          (object_loop n rest)
                 else None)
          else if c = CHR ''['' then
            (case skip_whitespace cs of
               [] \<Rightarrow> None
             | c' # rest \<Rightarrow>
                 if c' = CHR '']'' then Some (PList [], rest)
                 else map_option (\<lambda>(values, rest'). (PList values, rest'))
                        (array_loop n (c' # rest)))
          else if prefix ''null'' s then Some (PNone, drop 4 s)
          else if prefix ''true'' s then Some (PBool True, drop 4 s)
          else if prefix ''false'' s then Some (PBool False, drop 5 s)
          else match_number s)"
| "array_loop 0 s = None"
| "array_loop (Suc n) s =
     (case scan_once n s of
        None \<Rightarrow> None
      | Some (value, rest) \<Rightarrow>
          (case skip_whitespace rest of
             [] \<Rightarrow> None
           | c # rest' \<Rightarrow>
               if c = CHR '']'' then Some ([value], rest')
               else if c = CHR '',''
                 then map_option (\<lambda>(values, rest''). (value # values, rest''))
                        (array_loop n (skip_whitespace rest'))
               else None))"
| "object_loop 0 s = None"
| "object_loop (Suc n) s =
     (case scanstring s of
        None \<Rightarrow> None
      | Some (key, rest) \<Rightarrow>
          (case skip_whitespace rest of
             [] \<Rightarrow> None
           | c # rest1 \<Rightarrow>
               if c \<noteq> CHR '':'' then None
               else
                 (case scan_once n (skip_whitespace rest1) of
                    None \<Rightarrow> None
                  | Some (value, rest2) \<Rightarrow>
                      (case skip_whitespace rest2 of
                         [] \<Rightarrow> None
                       | c' # rest3 \<Rightarrow>
                           if c' = CHR ''}'' then Some ([(key, value)], rest3)
                           else if c' = CHR '','' then
                             (case skip_whitespace rest3 of
                                [] \<Rightarrow> None
                              | q # rest4 \<Rightarrow>
                                  if q = CHR 0x22
                                  then map_option (\<lambda>(pairs, rest5). ((key, value) # pairs, rest5))
                                         (object_loop n rest4)
                                  else None)
                           else None))))"

definition json_loads :: "string \<Rightarrow> py option" where
  "json_loads s =
     (case scan_once (Suc (length s)) (skip_whitespace s) of
        None \<Rightarrow> None
      | Some (obj, rest) \<Rightarrow> if skip_whitespace rest = [] then Some obj else None)"

section \<open>Reading back what was written\<close>

subsection \<open>Digits\<close>

lemma of_char_digit_char: "d < 10 \<Longrightarrow> (of_char (digit_char d) :: nat) = 48 + d"
  by (simp add: digit_char_def)

lemma is_digit_digit_char [simp]: "d < 10 \<Longrightarrow> is_digit (digit_char d)"
  by (simp add: is_digit_def of_char_digit_char)

lemma digit_value_digit_char [simp]: "d < 10 \<Longrightarrow> digit_value (digit_char d) = d"
  by (simp add: digit_value_def of_char_digit_char)

lemma digit_char_eq_zero [simp]: "d < 10 \<Longrightarrow> digit_char d = CHR ''0'' \<longleftrightarrow> d = 0"
proof
  assume "d < 10" "digit_char d = CHR ''0''"
  then have "(of_char (digit_char d) :: nat) = of_char CHR ''0''"
    by simp
  with \<open>d < 10\<close> show "d = 0"
    by (simp add: of_char_digit_char)
qed (simp add: digit_char_def char_of_eq_iff)

lemma is_digit_not_special [simp]:
  "is_digit c \<Longrightarrow> c \<noteq> CHR ''.''" "is_digit c \<Longrightarrow> c \<noteq> CHR ''-''"
  "is_digit c \<Longrightarrow> c \<noteq> CHR ''e''" "is_digit c \<Longrightarrow> c \<noteq> CHR ''E''"
  by (auto simp: is_digit_def)

lemma str_nat_digits: "list_all is_digit (str_nat n)"
  by (induction n rule: str_nat.induct) (subst str_nat.simps, simp)

lemma str_nat_not_Nil [simp]: "str_nat n \<noteq> []"
  by (subst str_nat.simps) simp

lemma nat_of_digits_snoc: "nat_of_digits (ds @ [c]) = 10 * nat_of_digits ds + digit_value c"
  by (simp add: nat_of_digits_def)

lemma nat_of_digits_str_nat [simp]: "nat_of_digits (str_nat n) = n"
proof (induction n rule: str_nat.induct)
  case (1 n)
  show ?case
  proof (cases "n < 10")
    case True
    then show ?thesis
      by (subst str_nat.simps) (simp add: nat_of_digits_def)
  next
    case False
    with 1 show ?thesis
      by (subst str_nat.simps) (simp add: nat_of_digits_snoc)
  qed
qed

lemma hd_str_nat_zero: "hd (str_nat n) = CHR ''0'' \<longleftrightarrow> n = 0"
proof (induction n rule: str_nat.induct)
  case (1 n)
  show ?case
  proof (cases "n < 10")
    case True
    then show ?thesis
      by (subst str_nat.simps) simp
  next
    case False
    then have "n div 10 \<noteq> 0"
      by simp
    with False 1 show ?thesis
      by (subst str_nat.simps) simp
  qed
qed

lemma str_nat_0 [simp]: "str_nat 0 = ''0''"
  by (subst str_nat.simps) simp

definition ends_number :: "string \<Rightarrow> bool" where
  "ends_number rest \<longleftrightarrow>
     (case rest of
        [] \<Rightarrow> True
      | c # _ \<Rightarrow> \<not> is_digit c \<and> c \<noteq> CHR ''.'' \<and> c \<noteq> CHR ''e'' \<and> c \<noteq> CHR ''E'')"

lemma takeWhile_digits:
  "list_all is_digit ds \<Longrightarrow> (\<And>c t. rest = c # t \<Longrightarrow> \<not> is_digit c) \<Longrightarrow>
     takeWhile is_digit (ds @ rest) = ds"
  by (cases rest) (auto simp: list_all_iff)

lemma dropWhile_digits:
  "list_all is_digit ds \<Longrightarrow> (\<And>c t. rest = c # t \<Longrightarrow> \<not> is_digit c) \<Longrightarrow>
     dropWhile is_digit (ds @ rest) = rest"
  by (cases rest) (auto simp: list_all_iff)

lemma ends_number_no_exponent: "ends_number rest \<Longrightarrow> \<not> has_exponent rest"
  by (cases rest) (auto simp: ends_number_def has_exponent_def)

lemma ends_number_no_digit: "ends_number rest \<Longrightarrow> rest = c # t \<Longrightarrow> \<not> is_digit c"
  by (simp add: ends_number_def)

lemma match_number_text:
  assumes fr: "list_all is_digit fr" and rest: "ends_number rest"
  shows "match_number ((if neg then ''-'' else []) @ str_nat n @
            (if fr = [] then [] else CHR ''.'' # fr) @ rest) =
         Some (if fr = [] then PInt (if neg then - int n else int n)
               else PFloat (Decimal neg n (shortest_frac (map digit_value fr))), rest)"
proof -
  define tail where "tail = (if fr = [] then [] else CHR ''.'' # fr) @ rest"
  obtain d ds where ds: "str_nat n = d # ds"
    by (cases "str_nat n") auto
  have digs: "is_digit d" "list_all is_digit ds"
    using str_nat_digits [of n] by (simp_all add: ds)
  have minus: "CHR ''-'' \<noteq> d"
    using digs(1) by (auto simp: is_digit_def)
  have tail_start: "\<not> is_digit c" if "tail = c # t" for c t
    using that rest by (auto simp: tail_def ends_number_def is_digit_def split: if_splits)
  have neg: "prefix ''-'' ((if neg then ''-'' else []) @ d # ds @ tail) = neg"
    using minus by simp
  have s1: "(if neg then drop 1 ((if neg then ''-'' else []) @ d # ds @ tail)
             else (if neg then ''-'' else []) @ d # ds @ tail) = d # ds @ tail"
    by simp
  have integer: "(if d = CHR ''0'' then [d] else d # takeWhile is_digit (ds @ tail)) = d # ds"
  proof (cases "d = CHR ''0''")
    case True
    then have "n = 0"
      using hd_str_nat_zero [of n] by (simp add: ds)
    then show ?thesis
      using ds by simp
  next
    case False
    then show ?thesis
      using digs(2) tail_start by (simp add: takeWhile_digits)
  qed
  have s2: "(if d = CHR ''0'' then ds @ tail else dropWhile is_digit (ds @ tail)) = tail"
  proof (cases "d = CHR ''0''")
    case True
    then have "n = 0"
      using hd_str_nat_zero [of n] by (simp add: ds)
    then show ?thesis
      using ds by simp
  next
    case False
    then show ?thesis
      using digs(2) tail_start by (simp add: dropWhile_digits)
  qed
  have val: "nat_of_digits (d # ds) = n"
    using nat_of_digits_str_nat [of n] by (simp add: ds)
  have has_frac: "(case tail of p # f # _ \<Rightarrow> p = CHR ''.'' \<and> is_digit f | _ \<Rightarrow> False) \<longleftrightarrow> fr \<noteq> []"
  proof (cases "fr = []")
    case True
    then show ?thesis
      using rest by (auto simp: tail_def ends_number_def split: list.splits)
  next
    case False
    then obtain f fs where "fr = f # fs"
      by (cases fr) auto
    then show ?thesis
      using fr by (simp add: tail_def)
  qed
  have frac: "fr \<noteq> [] \<Longrightarrow> takeWhile is_digit (drop (Suc 0) tail) = fr"
    and s3: "fr \<noteq> [] \<Longrightarrow> dropWhile is_digit (drop (Suc 0) tail) = rest"
    using fr rest by (simp_all add: tail_def takeWhile_digits dropWhile_digits ends_number_no_digit)
  have tail_rest: "fr = [] \<Longrightarrow> tail = rest"
    by (simp add: tail_def)
  have "match_number ((if neg then ''-'' else []) @ d # ds @ tail) =
         Some (if fr = [] then PInt (if neg then - int n else int n)
               else PFloat (Decimal neg n (shortest_frac (map digit_value fr))), rest)"
    unfolding match_number_def Let_def neg s1 list.case
    using digs(1) rest
    by (simp only: integer s2 has_frac val)
      (auto simp: frac s3 tail_rest ends_number_no_exponent)
  then show ?thesis
    by (simp add: ds tail_def)
qed

lemma match_number_int:
  "ends_number rest \<Longrightarrow> match_number (str_int i @ rest) = Some (PInt i, rest)"
  using match_number_text [of "[]" rest "i < 0" "nat \<bar>i\<bar>"]
  by (auto simp: str_int_def)

fun repr_positional :: "pyfloat \<Rightarrow> bool" where
  "repr_positional (Decimal neg w frac) =
     (frac \<noteq> [] \<and> list_all (\<lambda>d. d < 10) frac \<and> shortest_frac frac = frac \<and>
      w < 10 ^ 16 \<and> length (str_nat w) + length frac \<le> 16 \<and>
      (w = 0 \<and> frac \<noteq> [0] \<longrightarrow> \<not> list_all (\<lambda>d. d = 0) (take 4 frac)))"

lemma match_number_float:
  assumes "repr_positional x" "ends_number rest"
  shows "match_number (float_repr x @ rest) = Some (PFloat x, rest)"
proof -
  obtain neg w frac where x: "x = Decimal neg w frac"
    by (cases x)
  from assms(1) have frac: "frac \<noteq> []" "list_all (\<lambda>d. d < 10) frac" "shortest_frac frac = frac"
    by (simp_all add: x)
  have "list_all is_digit (map digit_char frac)"
    using frac(2) by (simp add: list_all_iff)
  moreover have "map digit_value (map digit_char frac) = frac"
    using frac(2) by (simp add: list_all_iff map_idI)
  ultimately show ?thesis
    using match_number_text [of "map digit_char frac" rest neg w] frac assms(2)
    by (simp add: x)
qed


subsection \<open>Strings\<close>

lemma hex_value_hex_digit: "k < 16 \<Longrightarrow> hex_value (hex_digit k) = Some k"
  by (auto simp: hex_value_def hex_digit_def Let_def)

lemma decode_escape:
  "decode_uXXXX CHR ''0'' CHR ''0'' (hex_digit (of_char c div 16)) (hex_digit (of_char c mod 16)) =
     Some (of_char c)"
proof -
  have "(of_char c :: nat) < 256"
    by simp
  then have "(of_char c :: nat) div 16 < 16"
    by arith
  then show ?thesis
    by (simp add: decode_uXXXX_def hex_value_hex_digit) (simp add: hex_value_def)
qed

lemma scanstring_escape_char:
  "scanstring (escape_char c @ t) = map_option (\<lambda>(s, rest). (c # s, rest)) (scanstring t)"
proof -
  consider (short) "c \<in> {CHR 0x5C, CHR 0x22, CHR 0x08, CHR 0x0C, CHR 0x0A, CHR 0x0D, CHR 0x09}"
    | (long) "c \<notin> {CHR 0x5C, CHR 0x22, CHR 0x08, CHR 0x0C, CHR 0x0A, CHR 0x0D, CHR 0x09}"
        "(of_char c :: nat) < 0x20 \<or> 0x7E < (of_char c :: nat)"
    | (plain) "c \<notin> {CHR 0x5C, CHR 0x22, CHR 0x08, CHR 0x0C, CHR 0x0A, CHR 0x0D, CHR 0x09}"
        "\<not> ((of_char c :: nat) < 0x20 \<or> 0x7E < (of_char c :: nat))"
    by blast
  then show ?thesis
  proof cases
    case short
    then show ?thesis
      by (auto simp: escape_char_def backslash_def)
  next
    case long
    then have "escape_char c = [CHR 0x5C, CHR ''u'', CHR ''0'', CHR ''0'',
         hex_digit (of_char c div 16), hex_digit (of_char c mod 16)]"
      by (simp add: escape_char_def)
    then show ?thesis
      by (simp add: decode_escape)
  next
    case plain
    then have "escape_char c = [c]"
      by (simp add: escape_char_def)
    with plain show ?thesis
      by simp
  qed
qed

lemma scanstring_escaped:
  "scanstring (concat (map escape_char s) @ CHR 0x22 # rest) = Some (s, rest)"
  by (induction s) (simp_all add: scanstring_escape_char del: scanstring.simps(2), simp)

lemma scanstring_encoded:
  "encode_basestring_ascii s @ rest = CHR 0x22 # t \<Longrightarrow> scanstring t = Some (s, rest)"
  by (auto simp: encode_basestring_ascii_def scanstring_escaped)

subsection \<open>Values\<close>

text \<open>
  The value as the file holds it: the items of every dictionary in the order in which the
  encoder writes them.
\<close>

function (sequential) written :: "bool \<Rightarrow> py \<Rightarrow> py" where
  "written sort_keys (PDict dct) =
     PDict (map (\<lambda>kv. (fst kv, written sort_keys (snd kv))) (items sort_keys dct))"
| "written sort_keys (PList lst) = PList (map (written sort_keys) lst)"
| "written sort_keys v = v"
  by pat_completeness auto
termination
proof (relation "measure (\<lambda>(sort_keys, v). size v)")
  fix sort_keys :: bool and dct :: "(string \<times> py) list" and kv
  assume "kv \<in> set (items sort_keys dct)"
  then have "(fst kv, snd kv) \<in> set dct"
    by simp
  then have "size (snd kv) < Suc (size_list (size_prod (\<lambda>_. 0) size) dct)"
    by (rule size_dict_value)
  then show "((sort_keys, snd kv), (sort_keys, PDict dct)) \<in> measure (\<lambda>(sort_keys, v). size v)"
    by simp
next
  fix sort_keys :: bool and lst :: "py list" and x
  assume "x \<in> set lst"
  then have "size x < Suc (size_list size lst)"
    by (induction lst) auto
  then show "((sort_keys, x), (sort_keys, PList lst)) \<in> measure (\<lambda>(sort_keys, v). size v)"
    by simp
qed simp

text \<open>
  The floats inside a value are such that \<^verbatim>\<open>float.__repr__\<close> prints them in positional
  notation, digit by digit as they are kept.
\<close>

fun floats_positional :: "py \<Rightarrow> bool" where
  "floats_positional (PFloat x) = repr_positional x"
| "floats_positional (PList lst) = list_all floats_positional lst"
| "floats_positional (PDict dct) = list_all (\<lambda>kv. floats_positional (snd kv)) dct"
| "floats_positional _ = True"

lemma dropWhile_replicate: "P x \<Longrightarrow> dropWhile P (replicate k x @ t) = dropWhile P t"
  by (induction k) simp_all

lemma skip_whitespace_newline_indent [simp]:
  "skip_whitespace (newline_indent indent level @ t) = skip_whitespace t"
  by (simp add: skip_whitespace_def newline_indent_def is_whitespace_def dropWhile_replicate)

lemma skip_whitespace_start: "\<not> is_whitespace c \<Longrightarrow> skip_whitespace (c # t) = c # t"
  by (simp add: skip_whitespace_def)

lemma skip_whitespace_Nil [simp]: "skip_whitespace [] = []"
  by (simp add: skip_whitespace_def)

lemma str_nat_start: "\<exists>c t. str_nat n = c # t \<and> is_digit c"
  using str_nat_digits [of n] by (cases "str_nat n") auto

lemma is_digit_not_whitespace: "is_digit c \<Longrightarrow> \<not> is_whitespace c"
  by (auto simp: is_digit_def is_whitespace_def)

lemma iterencode_start:
  "\<exists>c t. iterencode indent sort_keys level v = c # t \<and> \<not> is_whitespace c \<and> c \<noteq> CHR '']''"
proof (cases v)
  case (PInt i)
  obtain c t where "str_nat (nat (- i)) = c # t" "is_digit c"
    using str_nat_start by blast
  moreover obtain c' t' where "str_nat (nat i) = c' # t'" "is_digit c'"
    using str_nat_start by blast
  ultimately show ?thesis
    using PInt by (auto simp: iterencode.simps str_int_def is_digit_def is_whitespace_def)
next
  case (PFloat x)
  obtain neg w frac where x: "x = Decimal neg w frac"
    by (cases x)
  obtain c t where "str_nat w = c # t" "is_digit c"
    using str_nat_start by blast
  then show ?thesis
    using PFloat x by (auto simp: iterencode.simps is_digit_def is_whitespace_def)
qed (auto simp: iterencode.simps is_whitespace_def encode_basestring_ascii_def)

lemma ends_number_simps [simp]:
  "ends_number (newline_indent indent level @ t)" "ends_number (CHR '','' # t)"
  "ends_number []"
  by (simp_all add: ends_number_def newline_indent_def is_digit_def)


lemma join_start:
  assumes "xs \<noteq> []"
  shows "\<exists>c t. join sep (map (iterencode indent sort_keys level) xs) @ u = c # t \<and>
           \<not> is_whitespace c \<and> c \<noteq> CHR '']''"
proof -
  obtain x ys where xs: "xs = x # ys"
    using assms by (cases xs) auto
  obtain c t where "iterencode indent sort_keys level x = c # t" "\<not> is_whitespace c" "c \<noteq> CHR '']''"
    using iterencode_start by blast
  then show ?thesis
    by (cases ys) (simp_all add: xs)
qed

lemma array_loop_items:
  assumes elems: "\<And>x n level rest. x \<in> set xs \<Longrightarrow> Suc (size x) \<le> n \<Longrightarrow> ends_number rest \<Longrightarrow>
      scan_once n (iterencode indent sort_keys level x @ rest) = Some (written sort_keys x, rest)"
    and "xs \<noteq> []" and "Suc (size_list size xs) \<le> n"
  shows "array_loop n
           (join ('','' @ newline_indent indent l1) (map (iterencode indent sort_keys l1) xs) @
            newline_indent indent l0 @ CHR '']'' # rest) =
         Some (map (written sort_keys) xs, rest)"
  using assms(2,1,3)
proof (induction xs arbitrary: n rule: list_nonempty_induct)
  case (single x)
  then obtain m where n: "n = Suc m" "Suc (size x) \<le> m"
    by (cases n) auto
  have "scan_once m (iterencode indent sort_keys l1 x @ newline_indent indent l0 @ CHR '']'' # rest) =
      Some (written sort_keys x, newline_indent indent l0 @ CHR '']'' # rest)"
    using n by (intro single.prems(1)) simp_all
  then show ?case
    by (simp add: n skip_whitespace_start is_whitespace_def)
next
  case (cons x xs)
  then obtain m where n: "n = Suc m" "Suc (size x) \<le> m" "Suc (size_list size xs) \<le> m"
    by (cases n) auto
  let ?R = "join ('','' @ newline_indent indent l1) (map (iterencode indent sort_keys l1) xs) @
            newline_indent indent l0 @ CHR '']'' # rest"
  obtain y ys where xs: "xs = y # ys"
    using cons.hyps by (cases xs) auto
  have shape: "join ('','' @ newline_indent indent l1) (map (iterencode indent sort_keys l1) (x # xs)) @
            newline_indent indent l0 @ CHR '']'' # rest =
        iterencode indent sort_keys l1 x @ CHR '','' # newline_indent indent l1 @ ?R"
    by (simp add: xs)
  have first: "scan_once m (iterencode indent sort_keys l1 x @ CHR '','' # newline_indent indent l1 @ ?R) =
      Some (written sort_keys x, CHR '','' # newline_indent indent l1 @ ?R)"
    using n by (intro cons.prems(1)) simp_all
  obtain c t where start: "?R = c # t" "\<not> is_whitespace c"
    using join_start [OF cons.hyps] by blast
  have rest_items: "array_loop m ?R = Some (map (written sort_keys) xs, rest)"
    using n cons.prems(1) by (intro cons.IH) simp_all
  have "skip_whitespace (newline_indent indent l1 @ ?R) = ?R"
    using start by (simp add: skip_whitespace_start del: join.simps)
  with first rest_items show ?case
    unfolding shape by (simp add: n skip_whitespace_start is_whitespace_def del: join.simps)
qed


lemma object_loop_items:
  assumes vals: "\<And>kv n level rest. kv \<in> set its \<Longrightarrow> Suc (size (snd kv)) \<le> n \<Longrightarrow>
      ends_number rest \<Longrightarrow>
      scan_once n (iterencode indent sort_keys level (snd kv) @ rest) =
        Some (written sort_keys (snd kv), rest)"
    and "its \<noteq> []" and "Suc (size_list (size_prod (\<lambda>_. 0) size) its) \<le> n"
    and "CHR 0x22 # t =
       join ('','' @ newline_indent indent l1)
         (map (\<lambda>kv. encode_basestring_ascii (fst kv) @ '': '' @
                 iterencode indent sort_keys l1 (snd kv)) its) @
       newline_indent indent l0 @ CHR ''}'' # rest"
  shows "object_loop n t = Some (map (\<lambda>kv. (fst kv, written sort_keys (snd kv))) its, rest)"
  using assms(2,1,3,4)
proof (induction its arbitrary: n t rule: list_nonempty_induct)
  case (single kv)
  then obtain m where n: "n = Suc m" "Suc (size (snd kv)) \<le> m"
    by (cases n; cases kv) auto
  let ?tail = "newline_indent indent l0 @ CHR ''}'' # rest"
  have t: "t = concat (map escape_char (fst kv)) @ CHR 0x22 #
      CHR '':'' # CHR '' '' # iterencode indent sort_keys l1 (snd kv) @ ?tail"
    using single.prems(3) by (simp add: encode_basestring_ascii_def)
  obtain c u where start: "iterencode indent sort_keys l1 (snd kv) = c # u" "\<not> is_whitespace c"
    using iterencode_start by blast
  have skip: "skip_whitespace (CHR '' '' # iterencode indent sort_keys l1 (snd kv) @ ?tail) =
      iterencode indent sort_keys l1 (snd kv) @ ?tail"
    using start by (simp add: skip_whitespace_def is_whitespace_def)
  have "scan_once m (iterencode indent sort_keys l1 (snd kv) @ ?tail) =
      Some (written sort_keys (snd kv), ?tail)"
    using n by (intro single.prems(1)) simp_all
  then show ?case
    unfolding t n(1)
    by (simp add: scanstring_escaped skip skip_whitespace_start is_whitespace_def)
next
  case (cons kv its)
  then obtain m where n: "n = Suc m" "Suc (size (snd kv)) \<le> m"
    "Suc (size_list (size_prod (\<lambda>_. 0) size) its) \<le> m"
    by (cases n; cases kv) auto
  define R where "R = join ('','' @ newline_indent indent l1)
         (map (\<lambda>kv. encode_basestring_ascii (fst kv) @ '': '' @
                 iterencode indent sort_keys l1 (snd kv)) its) @
       newline_indent indent l0 @ CHR ''}'' # rest"
  obtain kv' its' where its: "its = kv' # its'"
    using cons.hyps by (cases its) auto
  obtain t' where t': "R = CHR 0x22 # t'"
    unfolding R_def by (cases its') (simp_all add: its encode_basestring_ascii_def)
  define tail where "tail = CHR '','' # newline_indent indent l1 @ R"
  have t: "t = concat (map escape_char (fst kv)) @ CHR 0x22 #
      CHR '':'' # CHR '' '' # iterencode indent sort_keys l1 (snd kv) @ tail"
    using cons.prems(3) unfolding tail_def R_def by (simp add: its encode_basestring_ascii_def)
  obtain c u where start: "iterencode indent sort_keys l1 (snd kv) = c # u" "\<not> is_whitespace c"
    using iterencode_start by blast
  have skip: "skip_whitespace (CHR '' '' # iterencode indent sort_keys l1 (snd kv) @ tail) =
      iterencode indent sort_keys l1 (snd kv) @ tail"
    using start by (simp add: skip_whitespace_def is_whitespace_def)
  have "ends_number tail"
    by (simp add: tail_def)
  then have first: "scan_once m (iterencode indent sort_keys l1 (snd kv) @ tail) =
      Some (written sort_keys (snd kv), tail)"
    using n by (intro cons.prems(1)) simp_all
  have next_key: "skip_whitespace tail = CHR '','' # newline_indent indent l1 @ R"
    "skip_whitespace R = CHR 0x22 # t'"
    by (simp_all add: tail_def t' skip_whitespace_start is_whitespace_def)
  have others: "object_loop m t' = Some (map (\<lambda>kv. (fst kv, written sort_keys (snd kv))) its, rest)"
    using n cons.prems(1) t' unfolding R_def by (intro cons.IH) simp_all
  have "object_loop (Suc m) (concat (map escape_char (fst kv)) @ CHR 0x22 #
      CHR '':'' # CHR '' '' # iterencode indent sort_keys l1 (snd kv) @ tail) =
    Some ((fst kv, written sort_keys (snd kv)) #
      map (\<lambda>kv. (fst kv, written sort_keys (snd kv))) its, rest)"
    by (simp add: scanstring_escaped skip first skip_whitespace_start is_whitespace_def
        next_key others)
  then show ?case
    unfolding t n(1) by simp
qed

lemma update_absent: "k \<notin> fst ` set al \<Longrightarrow> AList.update k v al = al @ [(k, v)]"
  by (induction al) auto

lemma dict_distinct_aux:
  "distinct (map fst (acc @ pairs)) \<Longrightarrow>
     foldl (\<lambda>d kv. AList.update (fst kv) (snd kv) d) acc pairs = acc @ pairs"
proof (induction pairs arbitrary: acc)
  case Nil
  then show ?case by simp
next
  case (Cons kv pairs)
  have "fst kv \<notin> fst ` set acc"
    using Cons.prems by auto
  then have "AList.update (fst kv) (snd kv) acc = acc @ [kv]"
    by (simp add: update_absent)
  moreover have "distinct (map fst ((acc @ [kv]) @ pairs))"
    using Cons.prems by simp
  ultimately show ?case
    using Cons.IH [of "acc @ [kv]"] by simp
qed

lemma dict_distinct: "distinct (map fst pairs) \<Longrightarrow> dict pairs = pairs"
  using dict_distinct_aux [of "[]" pairs] by (simp add: dict_def)

lemma size_list_insort:
  "size_list f (insort_key g x xs) = Suc (f x + size_list f xs)"
  by (induction xs) auto

lemma size_list_sort: "size_list f (sort_key g xs) = size_list f xs"
  by (induction xs) (simp_all add: size_list_insort)

lemma size_list_items: "size_list f (items sort_keys dct) = size_list f dct"
  by (simp add: items_def size_list_sort)

lemma distinct_items: "distinct (map fst dct) \<Longrightarrow> distinct (map fst (items sort_keys dct))"
  by (simp add: items_def distinct_map inj_on_def)

lemma scan_once_iterencode:
  "distinct_keys v \<Longrightarrow> floats_positional v \<Longrightarrow> Suc (size v) \<le> n \<Longrightarrow> ends_number rest \<Longrightarrow>
     scan_once n (iterencode indent sort_keys level v @ rest) = Some (written sort_keys v, rest)"
proof (induction v arbitrary: n level rest)
  case PNone
  then obtain m where "n = Suc m"
    by (cases n) auto
  then show ?case
    by (simp add: iterencode.simps)
next
  case (PBool b)
  then obtain m where "n = Suc m"
    by (cases n) auto
  then show ?case
    by (simp add: iterencode.simps)
next
  case (PInt i)
  then obtain m where n: "n = Suc m"
    by (cases n) auto
  have "\<exists>c t. str_int i = c # t \<and> (c = CHR ''-'' \<or> is_digit c)"
    using str_nat_start [of "nat i"] by (cases "i < 0") (auto simp: str_int_def)
  then obtain c t where start: "str_int i = c # t" "c = CHR ''-'' \<or> is_digit c"
    by blast
  then have "c \<noteq> CHR 0x22" "c \<noteq> CHR ''{''" "c \<noteq> CHR ''[''" "c \<noteq> CHR ''n''" "c \<noteq> CHR ''t''"
    "c \<noteq> CHR ''f''"
    by (auto simp: is_digit_def)
  moreover have "match_number (c # t @ rest) = Some (PInt i, rest)"
    using match_number_int [OF PInt.prems(4), of i] start by simp
  ultimately show ?case
    by (simp add: iterencode.simps n start)
next
  case (PFloat x)
  then obtain m where n: "n = Suc m"
    by (cases n) auto
  obtain neg w frac where x: "x = Decimal neg w frac"
    by (cases x)
  have "\<exists>c t. float_repr x = c # t \<and> (c = CHR ''-'' \<or> is_digit c)"
    using str_nat_start [of w] by (cases neg) (auto simp: x)
  then obtain c t where start: "float_repr x = c # t" "c = CHR ''-'' \<or> is_digit c"
    by blast
  then have "c \<noteq> CHR 0x22" "c \<noteq> CHR ''{''" "c \<noteq> CHR ''[''" "c \<noteq> CHR ''n''" "c \<noteq> CHR ''t''"
    "c \<noteq> CHR ''f''"
    by (auto simp: is_digit_def)
  moreover have "match_number (c # t @ rest) = Some (PFloat x, rest)"
    using match_number_float [of x rest] PFloat.prems start by simp
  ultimately show ?case
    by (simp add: iterencode.simps n start del: float_repr.simps)
next
  case (PStr s)
  then obtain m where "n = Suc m"
    by (cases n) auto
  then show ?case
    by (simp add: iterencode.simps encode_basestring_ascii_def scanstring_escaped)
next
  case (PList lst)
  then obtain m where n: "n = Suc m" "Suc (size_list size lst) \<le> m"
    by (cases n) auto
  show ?case
  proof (cases "lst = []")
    case True
    then show ?thesis
      by (simp add: iterencode.simps n skip_whitespace_start is_whitespace_def)
  next
    case False
    define J where "J = join ('','' @ newline_indent indent (Suc level))
          (map (iterencode indent sort_keys (Suc level)) lst) @
        newline_indent indent level @ CHR '']'' # rest"
    obtain c t where start: "J = c # t" "\<not> is_whitespace c" "c \<noteq> CHR '']''"
      unfolding J_def using join_start [OF False] by blast
    have elems: "scan_once n' (iterencode indent sort_keys level' x @ rest') =
        Some (written sort_keys x, rest')"
      if "x \<in> set lst" "Suc (size x) \<le> n'" "ends_number rest'" for x n' level' rest'
      using that PList.prems(1,2) by (intro PList.IH) (auto simp: list_all_iff)
    have "array_loop m J = Some (map (written sort_keys) lst, rest)"
      unfolding J_def using elems False n(2) by (rule array_loop_items)
    moreover have "iterencode indent sort_keys level (PList lst) @ rest =
        CHR ''['' # newline_indent indent (Suc level) @ J"
      using False by (simp add: iterencode.simps J_def)
    moreover have "skip_whitespace J = c # t"
      using start by (simp add: skip_whitespace_start)
    ultimately show ?thesis
      using start by (simp add: n)
  qed
next
  case (PDict dct)
  then obtain m where n: "n = Suc m" "Suc (size_list (size_prod (\<lambda>_. 0) size) dct) \<le> m"
    by (cases n) auto
  show ?case
  proof (cases "dct = []")
    case True
    then show ?thesis
      by (simp add: iterencode.simps n skip_whitespace_start is_whitespace_def items_def dict_def)
  next
    case False
    define its where "its = items sort_keys dct"
    have its_ne: "its \<noteq> []"
      using False by (metis its_def set_items set_empty)
    define J where "J = join ('','' @ newline_indent indent (Suc level))
          (map (\<lambda>kv. encode_basestring_ascii (fst kv) @ '': '' @
                  iterencode indent sort_keys (Suc level) (snd kv)) its) @
        newline_indent indent level @ CHR ''}'' # rest"
    obtain kv its' where its: "its = kv # its'"
      using its_ne by (cases its) auto
    obtain t where t: "J = CHR 0x22 # t"
      unfolding J_def by (cases its') (simp_all add: its encode_basestring_ascii_def)
    have vals: "scan_once n' (iterencode indent sort_keys level' (snd kv) @ rest') =
        Some (written sort_keys (snd kv), rest')"
      if "kv \<in> set its" "Suc (size (snd kv)) \<le> n'" "ends_number rest'" for kv n' level' rest'
    proof -
      have "kv \<in> set dct"
        using that(1) by (simp add: its_def)
      moreover have "snd kv \<in> Basic_BNFs.snds kv"
        by (cases kv) simp
      moreover have "distinct_keys (snd kv)" "floats_positional (snd kv)"
        using \<open>kv \<in> set dct\<close> PDict.prems(1,2) by (auto simp: list_all_iff)
      ultimately show ?thesis
        using that(2,3) by (intro PDict.IH)
    qed
    have size: "Suc (size_list (size_prod (\<lambda>_. 0) size) its) \<le> m"
      using n(2) by (simp add: its_def size_list_items)
    have "object_loop m t =
        Some (map (\<lambda>kv. (fst kv, written sort_keys (snd kv))) its, rest)"
      using vals its_ne size t [symmetric, unfolded J_def] by (rule object_loop_items)
    moreover have "iterencode indent sort_keys level (PDict dct) @ rest =
        CHR ''{'' # newline_indent indent (Suc level) @ J"
      using False by (simp add: iterencode.simps J_def its_def)
    moreover have "skip_whitespace J = CHR 0x22 # t"
      by (simp add: t skip_whitespace_start is_whitespace_def)
    moreover have "dict (map (\<lambda>kv. (fst kv, written sort_keys (snd kv))) its) =
        map (\<lambda>kv. (fst kv, written sort_keys (snd kv))) its"
    proof (rule dict_distinct)
      have "map fst (map (\<lambda>kv. (fst kv, written sort_keys (snd kv))) its) = map fst its"
        by simp
      then show "distinct (map fst (map (\<lambda>kv. (fst kv, written sort_keys (snd kv))) its))"
        using PDict.prems(1) by (simp add: its_def distinct_items del: map_map)
    qed
    ultimately show ?thesis
      by (simp add: n its_def)
  qed
qed


lemma length_join: "sum_list (map length ls) \<le> length (join sep ls)"
  by (induction sep ls rule: join.induct) simp_all

lemma size_list_le_sum:
  "(\<And>x. x \<in> set xs \<Longrightarrow> Suc (f x) \<le> g x) \<Longrightarrow> size_list f xs \<le> sum_list (map g xs)"
proof (induction xs)
  case Nil
  then show ?case by simp
next
  case (Cons a xs)
  have "Suc (f a) \<le> g a" "size_list f xs \<le> sum_list (map g xs)"
    using Cons by simp_all
  then show ?case
    by simp
qed

lemma size_le_length_iterencode:
  "Suc (size v) \<le> length (iterencode indent sort_keys level v)"
proof (induction v arbitrary: level)
  case (PInt i)
  have "str_int i \<noteq> []"
    by (simp add: str_int_def)
  then show ?case
    by (cases "str_int i") (simp_all add: iterencode.simps)
next
  case (PFloat x)
  show ?case
    by (cases x) (simp add: iterencode.simps)
next
  case (PList lst)
  show ?case
  proof (cases "lst = []")
    case True
    then show ?thesis
      by (simp add: iterencode.simps)
  next
    case False
    have "size_list size lst \<le>
        sum_list (map length (map (iterencode indent sort_keys (Suc level)) lst))"
      unfolding map_map comp_def using PList.IH by (intro size_list_le_sum) simp
    also have "\<dots> \<le> length (join ('','' @ newline_indent indent (Suc level))
        (map (iterencode indent sort_keys (Suc level)) lst))"
      by (rule length_join)
    finally show ?thesis
      using False by (simp add: iterencode.simps newline_indent_def)
  qed
next
  case (PDict dct)
  show ?case
  proof (cases "dct = []")
    case True
    then show ?thesis
      by (simp add: iterencode.simps)
  next
    case False
    let ?pair = "\<lambda>kv. encode_basestring_ascii (fst kv) @ '': '' @
                  iterencode indent sort_keys (Suc level) (snd kv)"
    have "size_list (size_prod (\<lambda>_. 0) size) (items sort_keys dct) \<le>
        sum_list (map (\<lambda>kv. length (?pair kv)) (items sort_keys dct))"
    proof (rule size_list_le_sum)
      fix kv
      assume "kv \<in> set (items sort_keys dct)"
      then have "kv \<in> set dct"
        by simp
      moreover have "snd kv \<in> Basic_BNFs.snds kv"
        by (cases kv) simp
      ultimately have "Suc (size (snd kv)) \<le> length (iterencode indent sort_keys (Suc level) (snd kv))"
        by (rule PDict.IH)
      then show "Suc (size_prod (\<lambda>_. 0) size kv) \<le> length (?pair kv)"
        by (cases kv) (simp add: encode_basestring_ascii_def)
    qed
    also have "\<dots> = sum_list (map length (map ?pair (items sort_keys dct)))"
      by (simp add: comp_def)
    also have "\<dots> \<le> length (join ('','' @ newline_indent indent (Suc level))
        (map ?pair (items sort_keys dct)))"
      by (rule length_join)
    finally show ?thesis
      using False by (simp add: iterencode.simps newline_indent_def size_list_items)
  qed
qed (simp_all add: iterencode.simps encode_basestring_ascii_def)

lemma json_loads_json_dumps:
  assumes "distinct_keys v" "floats_positional v"
  shows "json_loads (json_dumps indent sort_keys v) = Some (written sort_keys v)"
proof -
  let ?text = "iterencode indent sort_keys 0 v"
  obtain c t where start: "?text = c # t" "\<not> is_whitespace c"
    using iterencode_start by blast
  then have "skip_whitespace ?text = ?text"
    by (simp add: skip_whitespace_start)
  moreover have "scan_once (Suc (length ?text)) (?text @ []) = Some (written sort_keys v, [])"
    using assms size_le_length_iterencode [of v indent sort_keys 0]
    by (intro scan_once_iterencode) simp_all
  ultimately show ?thesis
    by (simp add: json_loads_def json_dumps_def)
qed

lemma same_entries_refl_list:
  "(\<And>x. x \<in> set xs \<Longrightarrow> R (f x) x) \<Longrightarrow> list_all2 R (map f xs) xs"
  by (induction xs) simp_all

lemma same_entries_written:
  "distinct_keys v \<Longrightarrow> same_entries (written sort_keys v) v"
proof (induction v)
  case (PList lst)
  then show ?case
    by (auto simp: list_all_iff intro!: same_entries_refl_list)
next
  case (PDict dct)
  have "case map_of dct (fst kv') of None \<Rightarrow> False | Some v \<Rightarrow> same_entries (snd kv') v"
    if "kv' \<in> set (map (\<lambda>kv. (fst kv, written sort_keys (snd kv))) (items sort_keys dct))" for kv'
  proof -
    from that obtain kv where kv: "kv \<in> set dct" "kv' = (fst kv, written sort_keys (snd kv))"
      by auto
    have "distinct (map fst dct)"
      using PDict.prems by simp
    then have "map_of dct (fst kv) = Some (snd kv)"
      using kv(1) by (simp add: map_of_is_SomeI)
    moreover have "same_entries (written sort_keys (snd kv)) (snd kv)"
    proof (rule PDict.IH [OF kv(1)])
      show "snd kv \<in> Basic_BNFs.snds kv"
        by (cases kv) simp
      show "distinct_keys (snd kv)"
        using kv(1) PDict.prems by (auto simp: list_all_iff)
    qed
    ultimately show ?thesis
      by (simp add: kv(2))
  qed
  then show ?case
    by (simp add: list_all_iff image_image del: set_map) (simp add: image_image)
qed simp_all

subsection \<open>The floats of the notebooks\<close>

lemma str_nat_small: "n < 10 \<Longrightarrow> str_nat n = [digit_char n]"
  by (subst str_nat.simps) simp

lemma floats_positional_component_DRD2_prediction [simp]: "floats_positional (component_DRD2_prediction ip)"
  by (simp add: component_DRD2_prediction_def shortest_frac_def str_nat_small)

lemma floats_positional_diversity_filter [simp]: "floats_positional diversity_filter"
  by (simp add: diversity_filter_def shortest_frac_def str_nat_small)

lemma floats_positional_inception [simp]: "floats_positional inception"
  by (simp add: inception_def shortest_frac_def str_nat_small)

lemma floats_positional_component_rotatable_bonds [simp]: "floats_positional component_rotatable_bonds"
  by (simp add: component_rotatable_bonds_def shortest_frac_def str_nat_small)

lemma floats_positional_component_num_hbd [simp]: "floats_positional component_num_hbd"
  by (simp add: component_num_hbd_def shortest_frac_def str_nat_small)

lemma floats_positional_component_custom_alerts [simp]: "floats_positional component_custom_alerts"
  by (simp add: component_custom_alerts_def shortest_frac_def str_nat_small)

lemma floats_positional_scoring_function_DRD2 [simp]: "floats_positional (scoring_function_DRD2 ip)"
  by (simp add: scoring_function_DRD2_def shortest_frac_def str_nat_small)

lemma floats_positional_reinforcement_learning_DRD2 [simp]: "floats_positional (reinforcement_learning_DRD2 ip)"
  by (simp add: reinforcement_learning_DRD2_def shortest_frac_def str_nat_small)

lemma floats_positional_logging_DRD2 [simp]: "floats_positional (logging_DRD2 od)"
  by (simp add: logging_DRD2_def shortest_frac_def str_nat_small)

lemma floats_positional_configuration_init_DRD2 [simp]: "floats_positional (configuration_init_DRD2 ip)"
  by (simp add: configuration_init_DRD2_def shortest_frac_def str_nat_small)

lemma floats_positional_ed_dict [simp]: "floats_positional (ed_dict gf pp sp)"
  by (simp add: ed_dict_def shortest_frac_def str_nat_small)

lemma floats_positional_logging_DockStream [simp]: "floats_positional (logging_DockStream od)"
  by (simp add: logging_DockStream_def shortest_frac_def str_nat_small)

lemma floats_positional_diversity_filter_DockStream [simp]: "floats_positional diversity_filter_DockStream"
  by (simp add: diversity_filter_DockStream_def shortest_frac_def str_nat_small)

lemma floats_positional_inception_DockStream [simp]: "floats_positional inception_DockStream"
  by (simp add: inception_DockStream_def shortest_frac_def str_nat_small)

lemma floats_positional_reinforcement_learning_DockStream [simp]: "floats_positional (reinforcement_learning_DockStream ip)"
  by (simp add: reinforcement_learning_DockStream_def shortest_frac_def str_nat_small)

lemma floats_positional_scoring_function_DockStream [simp]: "floats_positional (scoring_function_DockStream dc dp de)"
  by (simp add: scoring_function_DockStream_def shortest_frac_def str_nat_small)

lemma floats_positional_configuration_init_DockStream [simp]: "floats_positional configuration_init_DockStream"
  by (simp add: configuration_init_DockStream_def shortest_frac_def str_nat_small)

lemma floats_positional_logging_Tanimoto [simp]: "floats_positional (logging_Tanimoto od)"
  by (simp add: logging_Tanimoto_def shortest_frac_def str_nat_small)

lemma floats_positional_diversity_filter_Tanimoto [simp]: "floats_positional diversity_filter_Tanimoto"
  by (simp add: diversity_filter_Tanimoto_def shortest_frac_def str_nat_small)

lemma floats_positional_inception_Tanimoto [simp]: "floats_positional inception_Tanimoto"
  by (simp add: inception_Tanimoto_def shortest_frac_def str_nat_small)

lemma floats_positional_reinforcement_learning_Tanimoto [simp]: "floats_positional (reinforcement_learning_Tanimoto ip)"
  by (simp add: reinforcement_learning_Tanimoto_def shortest_frac_def str_nat_small)

lemma floats_positional_scoring_function_Tanimoto [simp]: "floats_positional scoring_function_Tanimoto"
  by (simp add: scoring_function_Tanimoto_def shortest_frac_def str_nat_small)

lemma floats_positional_configuration_init_Tanimoto [simp]: "floats_positional configuration_init_Tanimoto"
  by (simp add: configuration_init_Tanimoto_def shortest_frac_def str_nat_small)

lemma floats_positional_logging_Selectivity [simp]: "floats_positional (logging_Selectivity od)"
  by (simp add: logging_Selectivity_def shortest_frac_def str_nat_small)

lemma floats_positional_diversity_filter_Selectivity [simp]: "floats_positional diversity_filter_Selectivity"
  by (simp add: diversity_filter_Selectivity_def shortest_frac_def str_nat_small)

lemma floats_positional_inception_Selectivity [simp]: "floats_positional inception_Selectivity"
  by (simp add: inception_Selectivity_def shortest_frac_def str_nat_small)

lemma floats_positional_reinforcement_learning_Selectivity [simp]: "floats_positional (reinforcement_learning_Selectivity ip)"
  by (simp add: reinforcement_learning_Selectivity_def shortest_frac_def str_nat_small)

lemma floats_positional_scoring_function_Selectivity [simp]: "floats_positional (scoring_function_Selectivity ip)"
  by (simp add: scoring_function_Selectivity_def shortest_frac_def str_nat_small)

lemma floats_positional_configuration_init_Selectivity [simp]: "floats_positional configuration_init_Selectivity"
  by (simp add: configuration_init_Selectivity_def shortest_frac_def str_nat_small)

lemma floats_positional_logging_Exploration [simp]: "floats_positional (logging_Exploration od)"
  by (simp add: logging_Exploration_def shortest_frac_def str_nat_small)

lemma floats_positional_diversity_filter_Exploration [simp]: "floats_positional diversity_filter_Exploration"
  by (simp add: diversity_filter_Exploration_def shortest_frac_def str_nat_small)

lemma floats_positional_inception_Exploration [simp]: "floats_positional inception_Exploration"
  by (simp add: inception_Exploration_def shortest_frac_def str_nat_small)

lemma floats_positional_reinforcement_learning_Exploration [simp]: "floats_positional (reinforcement_learning_Exploration ip)"
  by (simp add: reinforcement_learning_Exploration_def shortest_frac_def str_nat_small)

lemma floats_positional_scoring_function_Exploration [simp]: "floats_positional (scoring_function_Exploration ip)"
  by (simp add: scoring_function_Exploration_def shortest_frac_def str_nat_small)

lemma floats_positional_configuration_init_Exploration [simp]: "floats_positional configuration_init_Exploration"
  by (simp add: configuration_init_Exploration_def shortest_frac_def str_nat_small)

lemma floats_positional_logging_Sampling [simp]: "floats_positional (logging_Sampling od)"
  by (simp add: logging_Sampling_def shortest_frac_def str_nat_small)

lemma floats_positional_parameters_Sampling [simp]: "floats_positional (parameters_Sampling ip od)"
  by (simp add: parameters_Sampling_def shortest_frac_def str_nat_small)

lemma floats_positional_configuration_init_Sampling [simp]: "floats_positional configuration_init_Sampling"
  by (simp add: configuration_init_Sampling_def shortest_frac_def str_nat_small)


lemma floats_positional_configuration: "configuration nb vs = Inr c \<Longrightarrow> floats_positional c"
proof (cases nb)
  case (RL rl)
  then show "configuration nb vs = Inr c \<Longrightarrow> floats_positional c"
    by (cases rl) (auto simp: configuration_final)
next
  case Sampling_Demo
  then show "configuration nb vs = Inr c \<Longrightarrow> floats_positional c"
    by (auto simp: configuration_final)
qed

subsection \<open>Equality in Python\<close>

text \<open>
  \<^verbatim>\<open>==\<close> on the values of this theory.  Booleans count as the integers 0 and 1, and an
  integer equals a float of the same value.  Floats are kept in their shortest
  representation, where two floats are equal when they are the same or both are zero, and
  a float has an integral value when the only digit behind the point is 0.  Dictionaries
  are equal when they have the same keys with equal values, lists when they have equal
  elements in the same order.
\<close>

fun is_zero :: "pyfloat \<Rightarrow> bool" where
  "is_zero (Decimal neg w frac) = (w = 0 \<and> list_all (\<lambda>d. d = 0) frac)"

fun int_eq_float :: "int \<Rightarrow> pyfloat \<Rightarrow> bool" where
  "int_eq_float i (Decimal neg w frac) =
     (list_all (\<lambda>d. d = 0) frac \<and> i = (if neg then - int w else int w))"

definition float_eq :: "pyfloat \<Rightarrow> pyfloat \<Rightarrow> bool" where
  "float_eq x y \<longleftrightarrow> x = y \<or> (is_zero x \<and> is_zero y)"

fun py_eq :: "py \<Rightarrow> py \<Rightarrow> bool" where
  "py_eq PNone y = (y = PNone)"
| "py_eq (PBool b) y =
     (case y of
        PBool c \<Rightarrow> b = c
      | PInt j \<Rightarrow> of_bool b = j
      | PFloat z \<Rightarrow> int_eq_float (of_bool b) z
      | _ \<Rightarrow> False)"
| "py_eq (PInt i) y =
     (case y of
        PBool c \<Rightarrow> i = of_bool c
      | PInt j \<Rightarrow> i = j
      | PFloat z \<Rightarrow> int_eq_float i z
      | _ \<Rightarrow> False)"
| "py_eq (PFloat x) y =
     (case y of
        PBool c \<Rightarrow> int_eq_float (of_bool c) x
      | PInt j \<Rightarrow> int_eq_float j x
      | PFloat z \<Rightarrow> float_eq x z
      | _ \<Rightarrow> False)"
| "py_eq (PStr s) y = (y = PStr s)"
| "py_eq (PList a) y = (case y of PList b \<Rightarrow> list_all2 py_eq a b | _ \<Rightarrow> False)"
| "py_eq (PDict a) y =
     (case y of
        PDict b \<Rightarrow>
          set (map fst a) = set (map fst b) \<and>
          list_all (\<lambda>kv. case map_of b (fst kv) of
                            None \<Rightarrow> False
                          | Some v \<Rightarrow> py_eq (snd kv) v) a
      | _ \<Rightarrow> False)"

text \<open>
  The numbers of the notebooks have the type that goes with their key: under a few keys
  a float, under a few others a boolean, under every other key an integer.  A value
  keeps to this when each of its numbers, found under a key directly or inside lists, is
  of the kind of that key, and when it has no negative zero.
\<close>

datatype kind = IntK | FloatK | BoolK

definition number_kind :: "string \<Rightarrow> kind" where
  "number_kind key =
     (if key \<in> {''minscore'', ''minsimilarity'', ''learning_rate'', ''reset_score_cutoff'', ''k'',
                 ''target_pH'', ''pH_tolerance''} then FloatK
      else if key \<in> {''use_counts'', ''use_features'', ''parallel'', ''with_likelihood'',
                      ''standardize_smiles''} then BoolK
      else IntK)"

fun typed_by_key :: "string \<Rightarrow> py \<Rightarrow> bool" where
  "typed_by_key key (PBool b) = (number_kind key = BoolK)"
| "typed_by_key key (PInt i) = (number_kind key = IntK)"
| "typed_by_key key (PFloat x) = (number_kind key = FloatK \<and> \<not> (is_zero x \<and> x \<noteq> Decimal False 0 [0]))"
| "typed_by_key key (PList lst) = list_all (typed_by_key key) lst"
| "typed_by_key key (PDict dct) = list_all (\<lambda>kv. typed_by_key (fst kv) (snd kv)) dct"
| "typed_by_key key _ = True"

lemma same_entries_imp_py_eq: "same_entries a b \<Longrightarrow> py_eq a b"
proof (induction a arbitrary: b)
  case (PList lst)
  then obtain lb where b: "b = PList lb" "list_all2 same_entries lst lb"
    by (cases b) auto
  have "list_all2 py_eq lst lb"
    using b(2) PList.IH by (induction lst lb rule: list_all2_induct) auto
  then show ?case
    by (simp add: b)
next
  case (PDict dct)
  then obtain db where b: "b = PDict db" "set (map fst dct) = set (map fst db)"
    "list_all (\<lambda>kv. case map_of db (fst kv) of None \<Rightarrow> False
        | Some v \<Rightarrow> same_entries (snd kv) v) dct"
    by (cases b) auto
  have "case map_of db (fst kv) of None \<Rightarrow> False | Some v \<Rightarrow> py_eq (snd kv) v"
    if "kv \<in> set dct" for kv
  proof -
    from that b(3) obtain v where v: "map_of db (fst kv) = Some v" "same_entries (snd kv) v"
      by (auto simp: list_all_iff split: option.splits)
    moreover have "snd kv \<in> Basic_BNFs.snds kv"
      by (cases kv) simp
    ultimately have "py_eq (snd kv) v"
      using that PDict.IH by blast
    with v show ?thesis
      by simp
  qed
  then show ?case
    using b(1,2) by (simp add: list_all_iff)
qed (auto simp: float_eq_def)

lemma py_eq_refl: "distinct_keys v \<Longrightarrow> py_eq v v"
proof (induction v)
  case (PList lst)
  then show ?case
    by (auto simp: list_all_iff list_all2_same)
next
  case (PDict dct)
  have "case map_of dct (fst kv) of None \<Rightarrow> False | Some v \<Rightarrow> py_eq (snd kv) v"
    if "kv \<in> set dct" for kv
  proof -
    have "map_of dct (fst kv) = Some (snd kv)"
      using that PDict.prems by (intro map_of_is_SomeI) simp_all
    moreover have "snd kv \<in> Basic_BNFs.snds kv"
      by (cases kv) simp
    then have "py_eq (snd kv) (snd kv)"
      using that PDict by (auto simp: list_all_iff)
    ultimately show ?thesis
      by simp
  qed
  then show ?case
    by (simp add: list_all_iff)
qed (simp_all add: float_eq_def)

lemma py_eq_typed_imp_same_entries:
  "py_eq a b \<Longrightarrow> typed_by_key key a \<Longrightarrow> typed_by_key key b \<Longrightarrow> same_entries a b"
proof (induction a arbitrary: b key)
  case (PBool x)
  then show ?case
    by (cases b) auto
next
  case (PInt x)
  then show ?case
    by (cases b) auto
next
  case (PFloat x)
  then show ?case
    by (cases b) (auto simp: float_eq_def)
next
  case (PList lst)
  then obtain lb where b: "b = PList lb" "list_all2 py_eq lst lb"
    by (cases b) auto
  have "list_all2 same_entries lst lb"
    using b(2) PList.IH PList.prems(2,3) [unfolded b(1)]
  proof (induction lst lb rule: list_all2_induct)
    case Nil
    then show ?case by simp
  next
    case (Cons x xs y ys)
    then show ?case
      by (auto simp: list_all_iff)
  qed
  then show ?case
    by (simp add: b)
next
  case (PDict dct)
  then obtain db where b: "b = PDict db" "set (map fst dct) = set (map fst db)"
    "list_all (\<lambda>kv. case map_of db (fst kv) of None \<Rightarrow> False
        | Some v \<Rightarrow> py_eq (snd kv) v) dct"
    by (cases b) auto
  have "case map_of db (fst kv) of None \<Rightarrow> False | Some v \<Rightarrow> same_entries (snd kv) v"
    if "kv \<in> set dct" for kv
  proof -
    from that b(3) obtain v where v: "map_of db (fst kv) = Some v" "py_eq (snd kv) v"
      by (auto simp: list_all_iff split: option.splits)
    have "(fst kv, v) \<in> set db"
      using v(1) by (rule map_of_SomeD)
    then have "typed_by_key (fst kv) v"
      using PDict.prems(3) by (auto simp: b(1) list_all_iff)
    moreover have "typed_by_key (fst kv) (snd kv)"
      using that PDict.prems(2) by (auto simp: list_all_iff)
    moreover have "snd kv \<in> Basic_BNFs.snds kv"
      by (cases kv) simp
    ultimately have "same_entries (snd kv) v"
      using that v(2) PDict.IH by blast
    with v show ?thesis
      by simp
  qed
  then show ?case
    using b(1,2) by (simp add: list_all_iff)
qed auto

lemma typed_by_key_component_DRD2_prediction [simp]: "typed_by_key key (component_DRD2_prediction ip)"
  by (simp add: component_DRD2_prediction_def number_kind_def)

lemma typed_by_key_diversity_filter [simp]: "typed_by_key key diversity_filter"
  by (simp add: diversity_filter_def number_kind_def)

lemma typed_by_key_inception [simp]: "typed_by_key key inception"
  by (simp add: inception_def number_kind_def)

lemma typed_by_key_component_rotatable_bonds [simp]: "typed_by_key key component_rotatable_bonds"
  by (simp add: component_rotatable_bonds_def number_kind_def)

lemma typed_by_key_component_num_hbd [simp]: "typed_by_key key component_num_hbd"
  by (simp add: component_num_hbd_def number_kind_def)

lemma typed_by_key_component_custom_alerts [simp]: "typed_by_key key component_custom_alerts"
  by (simp add: component_custom_alerts_def number_kind_def)

lemma typed_by_key_scoring_function_DRD2 [simp]: "typed_by_key key (scoring_function_DRD2 ip)"
  by (simp add: scoring_function_DRD2_def number_kind_def)

lemma typed_by_key_reinforcement_learning_DRD2 [simp]: "typed_by_key key (reinforcement_learning_DRD2 ip)"
  by (simp add: reinforcement_learning_DRD2_def number_kind_def)

lemma typed_by_key_logging_DRD2 [simp]: "typed_by_key key (logging_DRD2 od)"
  by (simp add: logging_DRD2_def number_kind_def)

lemma typed_by_key_configuration_init_DRD2 [simp]: "typed_by_key key (configuration_init_DRD2 ip)"
  by (simp add: configuration_init_DRD2_def number_kind_def)

lemma typed_by_key_ed_dict [simp]: "typed_by_key key (ed_dict gf pp sp)"
  by (simp add: ed_dict_def number_kind_def)

lemma typed_by_key_logging_DockStream [simp]: "typed_by_key key (logging_DockStream od)"
  by (simp add: logging_DockStream_def number_kind_def)

lemma typed_by_key_diversity_filter_DockStream [simp]: "typed_by_key key diversity_filter_DockStream"
  by (simp add: diversity_filter_DockStream_def number_kind_def)

lemma typed_by_key_inception_DockStream [simp]: "typed_by_key key inception_DockStream"
  by (simp add: inception_DockStream_def number_kind_def)

lemma typed_by_key_reinforcement_learning_DockStream [simp]: "typed_by_key key (reinforcement_learning_DockStream ip)"
  by (simp add: reinforcement_learning_DockStream_def number_kind_def)

lemma typed_by_key_scoring_function_DockStream [simp]: "typed_by_key key (scoring_function_DockStream dc dp de)"
  by (simp add: scoring_function_DockStream_def number_kind_def)

lemma typed_by_key_configuration_init_DockStream [simp]: "typed_by_key key configuration_init_DockStream"
  by (simp add: configuration_init_DockStream_def number_kind_def)

lemma typed_by_key_logging_Tanimoto [simp]: "typed_by_key key (logging_Tanimoto od)"
  by (simp add: logging_Tanimoto_def number_kind_def)

lemma typed_by_key_diversity_filter_Tanimoto [simp]: "typed_by_key key diversity_filter_Tanimoto"
  by (simp add: diversity_filter_Tanimoto_def number_kind_def)

lemma typed_by_key_inception_Tanimoto [simp]: "typed_by_key key inception_Tanimoto"
  by (simp add: inception_Tanimoto_def number_kind_def)

lemma typed_by_key_reinforcement_learning_Tanimoto [simp]: "typed_by_key key (reinforcement_learning_Tanimoto ip)"
  by (simp add: reinforcement_learning_Tanimoto_def number_kind_def)

lemma typed_by_key_scoring_function_Tanimoto [simp]: "typed_by_key key scoring_function_Tanimoto"
  by (simp add: scoring_function_Tanimoto_def number_kind_def)

lemma typed_by_key_configuration_init_Tanimoto [simp]: "typed_by_key key configuration_init_Tanimoto"
  by (simp add: configuration_init_Tanimoto_def number_kind_def)

lemma typed_by_key_logging_Selectivity [simp]: "typed_by_key key (logging_Selectivity od)"
  by (simp add: logging_Selectivity_def number_kind_def)

lemma typed_by_key_diversity_filter_Selectivity [simp]: "typed_by_key key diversity_filter_Selectivity"
  by (simp add: diversity_filter_Selectivity_def number_kind_def)

lemma typed_by_key_inception_Selectivity [simp]: "typed_by_key key inception_Selectivity"
  by (simp add: inception_Selectivity_def number_kind_def)

lemma typed_by_key_reinforcement_learning_Selectivity [simp]: "typed_by_key key (reinforcement_learning_Selectivity ip)"
  by (simp add: reinforcement_learning_Selectivity_def number_kind_def)

lemma typed_by_key_scoring_function_Selectivity [simp]: "typed_by_key key (scoring_function_Selectivity ip)"
  by (simp add: scoring_function_Selectivity_def number_kind_def)

lemma typed_by_key_configuration_init_Selectivity [simp]: "typed_by_key key configuration_init_Selectivity"
  by (simp add: configuration_init_Selectivity_def number_kind_def)

lemma typed_by_key_logging_Exploration [simp]: "typed_by_key key (logging_Exploration od)"
  by (simp add: logging_Exploration_def number_kind_def)

lemma typed_by_key_diversity_filter_Exploration [simp]: "typed_by_key key diversity_filter_Exploration"
  by (simp add: diversity_filter_Exploration_def number_kind_def)

lemma typed_by_key_inception_Exploration [simp]: "typed_by_key key inception_Exploration"
  by (simp add: inception_Exploration_def number_kind_def)

lemma typed_by_key_reinforcement_learning_Exploration [simp]: "typed_by_key key (reinforcement_learning_Exploration ip)"
  by (simp add: reinforcement_learning_Exploration_def number_kind_def)

lemma typed_by_key_scoring_function_Exploration [simp]: "typed_by_key key (scoring_function_Exploration ip)"
  by (simp add: scoring_function_Exploration_def number_kind_def)

lemma typed_by_key_configuration_init_Exploration [simp]: "typed_by_key key configuration_init_Exploration"
  by (simp add: configuration_init_Exploration_def number_kind_def)

lemma typed_by_key_logging_Sampling [simp]: "typed_by_key key (logging_Sampling od)"
  by (simp add: logging_Sampling_def number_kind_def)

lemma typed_by_key_parameters_Sampling [simp]: "typed_by_key key (parameters_Sampling ip od)"
  by (simp add: parameters_Sampling_def number_kind_def)

lemma typed_by_key_configuration_init_Sampling [simp]: "typed_by_key key configuration_init_Sampling"
  by (simp add: configuration_init_Sampling_def number_kind_def)

lemma typed_by_key_configuration: "configuration nb vs = Inr c \<Longrightarrow> typed_by_key key c"
proof (cases nb)
  case (RL rl)
  then show "configuration nb vs = Inr c \<Longrightarrow> typed_by_key key c"
    by (cases rl) (auto simp: configuration_final number_kind_def)
next
  case Sampling_Demo
  then show "configuration nb vs = Inr c \<Longrightarrow> typed_by_key key c"
    by (auto simp: configuration_final number_kind_def)
qed

lemma python_equal_written_differently:
  "py_eq (PDict [(''version'', PInt 3)]) (PDict [(''version'', PFloat (Decimal False 3 [0]))]) \<and>
   json_dumps 4 True (PDict [(''version'', PInt 3)]) \<noteq>
   json_dumps 4 True (PDict [(''version'', PFloat (Decimal False 3 [0]))])"
  by (simp add: json_dumps_def iterencode.simps items_def str_int_def encode_basestring_ascii_def
      join.simps str_nat_small newline_indent_def)

subsection \<open>The order of the keys in the text\<close>

text \<open>
  The keys of every dictionary inside a value are in ascending order.  Reading a text
  with \<^verbatim>\<open>json.loads\<close> gives the keys of every object in the order in which the text has
  them, so that this, said of the value read, is said of the text.
\<close>

fun keys_sorted :: "py \<Rightarrow> bool" where
  "keys_sorted (PList lst) = list_all keys_sorted lst"
| "keys_sorted (PDict dct) = (sorted (map fst dct) \<and> list_all (\<lambda>kv. keys_sorted (snd kv)) dct)"
| "keys_sorted v = True"

lemma keys_sorted_written: "keys_sorted (written True v)"
proof (induction v)
  case (PList lst)
  then show ?case
    by (simp add: list_all_iff)
next
  case (PDict dct)
  have "keys_sorted (written True (snd kv))" if "kv \<in> set dct" for kv
  proof -
    have "snd kv \<in> Basic_BNFs.snds kv"
      by (cases kv) simp
    with that PDict show ?thesis
      by blast
  qed
  moreover have "map fst (map (\<lambda>kv. (fst kv, written True (snd kv))) (items True dct)) =
      map fst (items True dct)"
    by (simp add: comp_def)
  ultimately show ?case
    using sorted_items [of dct] by (simp add: list_all_iff comp_def)
qed simp_all

lemma written_insertion_order: "written False v = v"
proof (induction v)
  case (PList lst)
  then show ?case
    by (simp add: map_idI)
next
  case (PDict dct)
  have "(fst kv, written False (snd kv)) = kv" if "kv \<in> set dct" for kv
  proof -
    have "snd kv \<in> Basic_BNFs.snds kv"
      by (cases kv) simp
    with that PDict have "written False (snd kv) = snd kv"
      by blast
    then show ?thesis
      by simp
  qed
  then show ?case
    by (simp add: items_def map_idI)
qed simp_all

lemma json_dumps_object:
  assumes "dct \<noteq> []"
  shows "iterencode indent sort_keys level (PDict dct) =
     ''{'' @ newline_indent indent (Suc level) @
     join ('','' @ newline_indent indent (Suc level))
       (map (\<lambda>kv. encode_basestring_ascii (fst kv) @ '': '' @
               iterencode indent sort_keys (Suc level) (snd kv))
          (items sort_keys dct)) @
     newline_indent indent level @ ''}''"
  using assms by (simp add: iterencode.simps)

lemma encode_top_level_keys:
  "encode_basestring_ascii ''logging'' = [CHR 0x22] @ ''logging'' @ [CHR 0x22]"
  "encode_basestring_ascii ''parameters'' = [CHR 0x22] @ ''parameters'' @ [CHR 0x22]"
  "encode_basestring_ascii ''run_type'' = [CHR 0x22] @ ''run_type'' @ [CHR 0x22]"
  "encode_basestring_ascii ''version'' = [CHR 0x22] @ ''version'' @ [CHR 0x22]"
  by code_simp+

lemma json_dumps_top_level:
  assumes "items True dct =
    [(''logging'', lg), (''parameters'', ps), (''run_type'', r), (''version'', v)]"
  shows "json_dumps 4 True (PDict dct) =
     ''{'' @ [CHR 0x0A] @
     ''    '' @ [CHR 0x22] @ ''logging'' @ [CHR 0x22] @ '': '' @ iterencode 4 True 1 lg @ '','' @
     [CHR 0x0A] @
     ''    '' @ [CHR 0x22] @ ''parameters'' @ [CHR 0x22] @ '': '' @ iterencode 4 True 1 ps @ '','' @
     [CHR 0x0A] @
     ''    '' @ [CHR 0x22] @ ''run_type'' @ [CHR 0x22] @ '': '' @ iterencode 4 True 1 r @ '','' @
     [CHR 0x0A] @
     ''    '' @ [CHR 0x22] @ ''version'' @ [CHR 0x22] @ '': '' @ iterencode 4 True 1 v @
     [CHR 0x0A] @ ''}''"
proof -
  have "dct \<noteq> []"
    using assms by (auto simp: items_def)
  then have "json_dumps 4 True (PDict dct) =
     ''{'' @ newline_indent 4 (Suc 0) @
     join ('','' @ newline_indent 4 (Suc 0))
       (map (\<lambda>kv. encode_basestring_ascii (fst kv) @ '': '' @
               iterencode 4 True (Suc 0) (snd kv))
          [(''logging'', lg), (''parameters'', ps), (''run_type'', r), (''version'', v)]) @
     newline_indent 4 0 @ ''}''"
    unfolding json_dumps_def assms [symmetric] by (rule json_dumps_object)
  also have "newline_indent 4 (Suc 0) = [CHR 0x0A] @ ''    ''"
    by (simp add: newline_indent_def numeral_eq_Suc)
  also have "newline_indent 4 0 = [CHR 0x0A]"
    by (simp add: newline_indent_def)
  finally show ?thesis
    by (simp add: encode_top_level_keys)
qed

section \<open>Verified claims\<close>

text \<open>
  Claim C1.  For each of the five notebooks that run reinforcement learning, building the
  configuration raises no exception, and the dictionary that is written out holds the
  top-level entries \<open>version\<close> and \<open>run_type\<close>, a block \<open>logging\<close>, and a block
  \<open>parameters\<close> that holds the blocks \<open>scoring_function\<close>, \<open>diversity_filter\<close>,
  \<open>inception\<close> and \<open>reinforcement_learning\<close>.
\<close>

theorem configuration_schema:
  "\<exists>c. configuration (RL nb) vs = Inr c \<and>
     getitem_path c [''version''] = Inr (PInt 3) \<and>
     getitem_path c [''run_type''] = Inr (PStr ''reinforcement_learning'') \<and>
     (\<forall>p \<in> set [[''logging''], [''parameters''],
                 [''parameters'', ''scoring_function''],
                 [''parameters'', ''diversity_filter''],
                 [''parameters'', ''inception''],
                 [''parameters'', ''reinforcement_learning'']].
        \<exists>block. getitem_path c p = Inr block \<and> is_dict block)"
  by (cases nb) (simp_all add: configuration_final bind_exc_def blocks_are_dicts)

theorem configuration_schema_witness:
  "\<exists>c. configuration (RL RL_Tanimoto) example_variables = Inr c \<and>
     [''parameters'', ''inception''] \<in> set [[''logging''], [''parameters''],
                 [''parameters'', ''scoring_function''],
                 [''parameters'', ''diversity_filter''],
                 [''parameters'', ''inception''],
                 [''parameters'', ''reinforcement_learning'']] \<and>
     getitem_path c [''parameters'', ''inception''] = Inr inception_Tanimoto \<and>
     is_dict inception_Tanimoto"
  using configuration_schema [of RL_Tanimoto example_variables]
  by (auto simp: configuration_final bind_exc_def)




text \<open>
  Claim C3.  Where a notebook makes an output folder with \<^verbatim>\<open>os.mkdir\<close> and the call
  raises \<^verbatim>\<open>FileExistsError\<close>, as it does for a directory that exists already, the
  exception is caught and the run goes on in the unchanged world.  Every other exception
  of \<^verbatim>\<open>os.mkdir\<close> leaves the handler: the first cell raises it and so does the run.
  This holds of the output folder of every notebook, and in the notebook with DockStream
  also of the folders for the docked poses and for the docking scores, which are made
  after it: each of the three calls either makes its folder or finds it and changes
  nothing, and then the cell goes on to the next call, or it ends the cell and the run
  with its exception.
\<close>

theorem mkdir_if_required_spec:
  "(os_mkdir os path w = Inl FileExistsError \<longrightarrow> mkdir_if_required os path w = Inr w) \<and>
   (mkdir_refused os path w = None \<and> path \<in> directories w \<longrightarrow>
      os_mkdir os path w = Inl FileExistsError \<and> mkdir_if_required os path w = Inr w) \<and>
   (\<forall>e. os_mkdir os path w = Inl e \<and> e \<noteq> FileExistsError \<longrightarrow>
      mkdir_if_required os path w = Inl e) \<and>
   (\<forall>nb ip w0 e. bind_ipynb_path os w = Inr (ip, w0) \<and>
      os_mkdir os (output_dir (variables_of nb os ip)) w0 = Inl e \<and> e \<noteq> FileExistsError \<longrightarrow>
      first_cell nb os w = Inl e \<and> run nb os w = Inl e) \<and>
   (\<forall>nb ip w0 w1. nb \<noteq> RL RL_DockStream \<and> bind_ipynb_path os w = Inr (ip, w0) \<and>
      (os_mkdir os (output_dir (variables_of nb os ip)) w0 = Inr w1 \<or>
       (os_mkdir os (output_dir (variables_of nb os ip)) w0 = Inl FileExistsError \<and> w1 = w0)) \<longrightarrow>
      first_cell nb os w = Inr (variables_of nb os ip, w1)) \<and>
   (\<forall>ip vs w0 w1 e. bind_ipynb_path os w = Inr (ip, w0) \<and>
      vs = variables_of (RL RL_DockStream) os ip \<and>
      (os_mkdir os (output_dir vs) w0 = Inr w1 \<or>
       (os_mkdir os (output_dir vs) w0 = Inl FileExistsError \<and> w1 = w0)) \<and>
      os_mkdir os (output_ligands_docked_poses_path vs) w1 = Inl e \<and> e \<noteq> FileExistsError \<longrightarrow>
      first_cell (RL RL_DockStream) os w = Inl e \<and> run (RL RL_DockStream) os w = Inl e) \<and>
   (\<forall>ip vs w0 w1 w2 e. bind_ipynb_path os w = Inr (ip, w0) \<and>
      vs = variables_of (RL RL_DockStream) os ip \<and>
      (os_mkdir os (output_dir vs) w0 = Inr w1 \<or>
       (os_mkdir os (output_dir vs) w0 = Inl FileExistsError \<and> w1 = w0)) \<and>
      (os_mkdir os (output_ligands_docked_poses_path vs) w1 = Inr w2 \<or>
       (os_mkdir os (output_ligands_docked_poses_path vs) w1 = Inl FileExistsError \<and> w2 = w1)) \<and>
      os_mkdir os (output_ligands_docking_scores_path vs) w2 = Inl e \<and> e \<noteq> FileExistsError \<longrightarrow>
      first_cell (RL RL_DockStream) os w = Inl e \<and> run (RL RL_DockStream) os w = Inl e) \<and>
   (\<forall>ip vs w0 w1 w2 w3. bind_ipynb_path os w = Inr (ip, w0) \<and>
      vs = variables_of (RL RL_DockStream) os ip \<and>
      (os_mkdir os (output_dir vs) w0 = Inr w1 \<or>
       (os_mkdir os (output_dir vs) w0 = Inl FileExistsError \<and> w1 = w0)) \<and>
      (os_mkdir os (output_ligands_docked_poses_path vs) w1 = Inr w2 \<or>
       (os_mkdir os (output_ligands_docked_poses_path vs) w1 = Inl FileExistsError \<and> w2 = w1)) \<and>
      (os_mkdir os (output_ligands_docking_scores_path vs) w2 = Inr w3 \<or>
       (os_mkdir os (output_ligands_docking_scores_path vs) w2 = Inl FileExistsError \<and> w3 = w2)) \<longrightarrow>
      first_cell (RL RL_DockStream) os w = Inr (vs, w3))"
proof (intro conjI allI impI)
  show "mkdir_if_required os path w = Inr w" if "os_mkdir os path w = Inl FileExistsError"
    using that by (simp add: mkdir_if_required_def)
  show "os_mkdir os path w = Inl FileExistsError"
    if "mkdir_refused os path w = None \<and> path \<in> directories w"
    using that by (simp add: os_mkdir_def)
  then show "mkdir_if_required os path w = Inr w"
    if "mkdir_refused os path w = None \<and> path \<in> directories w"
    using that by (simp add: mkdir_if_required_def)
  show "mkdir_if_required os path w = Inl e"
    if "os_mkdir os path w = Inl e \<and> e \<noteq> FileExistsError" for e
    using that by (simp add: mkdir_if_required_def)
  show first: "first_cell nb os w = Inl e"
    if "bind_ipynb_path os w = Inr (ip, w0) \<and>
      os_mkdir os (output_dir (variables_of nb os ip)) w0 = Inl e \<and> e \<noteq> FileExistsError"
    for nb ip w0 e
    using that by (blast intro: first_cell_first_folder_fails)
  show "run nb os w = Inl e"
    if "bind_ipynb_path os w = Inr (ip, w0) \<and>
      os_mkdir os (output_dir (variables_of nb os ip)) w0 = Inl e \<and> e \<noteq> FileExistsError"
    for nb ip w0 e
    using first [OF that] by (rule run_first_cell_fails)
  show "first_cell nb os w = Inr (variables_of nb os ip, w1)"
    if "nb \<noteq> RL RL_DockStream \<and> bind_ipynb_path os w = Inr (ip, w0) \<and>
      (os_mkdir os (output_dir (variables_of nb os ip)) w0 = Inr w1 \<or>
       (os_mkdir os (output_dir (variables_of nb os ip)) w0 = Inl FileExistsError \<and> w1 = w0))"
    for nb ip w0 w1
    using that by (elim conjE) (rule first_cell_folder_passes [of os w ip w0]; assumption)
  show second: "first_cell (RL RL_DockStream) os w = Inl e"
    if "bind_ipynb_path os w = Inr (ip, w0) \<and>
      vs = variables_of (RL RL_DockStream) os ip \<and>
      (os_mkdir os (output_dir vs) w0 = Inr w1 \<or>
       (os_mkdir os (output_dir vs) w0 = Inl FileExistsError \<and> w1 = w0)) \<and>
      os_mkdir os (output_ligands_docked_poses_path vs) w1 = Inl e \<and> e \<noteq> FileExistsError"
    for ip vs w0 w1 e
    using that by (elim conjE) (rule first_cell_second_folder_fails [of os w ip w0 vs w1]; assumption)
  show "run (RL RL_DockStream) os w = Inl e"
    if "bind_ipynb_path os w = Inr (ip, w0) \<and>
      vs = variables_of (RL RL_DockStream) os ip \<and>
      (os_mkdir os (output_dir vs) w0 = Inr w1 \<or>
       (os_mkdir os (output_dir vs) w0 = Inl FileExistsError \<and> w1 = w0)) \<and>
      os_mkdir os (output_ligands_docked_poses_path vs) w1 = Inl e \<and> e \<noteq> FileExistsError"
    for ip vs w0 w1 e
    using second [OF that] by (rule run_first_cell_fails)
  show third: "first_cell (RL RL_DockStream) os w = Inl e"
    if "bind_ipynb_path os w = Inr (ip, w0) \<and>
      vs = variables_of (RL RL_DockStream) os ip \<and>
      (os_mkdir os (output_dir vs) w0 = Inr w1 \<or>
       (os_mkdir os (output_dir vs) w0 = Inl FileExistsError \<and> w1 = w0)) \<and>
      (os_mkdir os (output_ligands_docked_poses_path vs) w1 = Inr w2 \<or>
       (os_mkdir os (output_ligands_docked_poses_path vs) w1 = Inl FileExistsError \<and> w2 = w1)) \<and>
      os_mkdir os (output_ligands_docking_scores_path vs) w2 = Inl e \<and> e \<noteq> FileExistsError"
    for ip vs w0 w1 w2 e
    using that by (elim conjE) (rule first_cell_third_folder_fails [of os w ip w0 vs w1 w2]; assumption)
  show "run (RL RL_DockStream) os w = Inl e"
    if "bind_ipynb_path os w = Inr (ip, w0) \<and>
      vs = variables_of (RL RL_DockStream) os ip \<and>
      (os_mkdir os (output_dir vs) w0 = Inr w1 \<or>
       (os_mkdir os (output_dir vs) w0 = Inl FileExistsError \<and> w1 = w0)) \<and>
      (os_mkdir os (output_ligands_docked_poses_path vs) w1 = Inr w2 \<or>
       (os_mkdir os (output_ligands_docked_poses_path vs) w1 = Inl FileExistsError \<and> w2 = w1)) \<and>
      os_mkdir os (output_ligands_docking_scores_path vs) w2 = Inl e \<and> e \<noteq> FileExistsError"
    for ip vs w0 w1 w2 e
    using third [OF that] by (rule run_first_cell_fails)
  show "first_cell (RL RL_DockStream) os w = Inr (vs, w3)"
    if "bind_ipynb_path os w = Inr (ip, w0) \<and>
      vs = variables_of (RL RL_DockStream) os ip \<and>
      (os_mkdir os (output_dir vs) w0 = Inr w1 \<or>
       (os_mkdir os (output_dir vs) w0 = Inl FileExistsError \<and> w1 = w0)) \<and>
      (os_mkdir os (output_ligands_docked_poses_path vs) w1 = Inr w2 \<or>
       (os_mkdir os (output_ligands_docked_poses_path vs) w1 = Inl FileExistsError \<and> w2 = w1)) \<and>
      (os_mkdir os (output_ligands_docking_scores_path vs) w2 = Inr w3 \<or>
       (os_mkdir os (output_ligands_docking_scores_path vs) w2 = Inl FileExistsError \<and> w3 = w2))"
    for ip vs w0 w1 w2 w3
    using that by (elim conjE) (rule first_cell_folders_pass [of os w ip w0 vs w1 w2 w3]; assumption)
qed

theorem mkdir_if_required_spec_witness:
  "os_mkdir example_os ''/home/u/Desktop'' example_world = Inl FileExistsError \<and>
   mkdir_if_required example_os ''/home/u/Desktop'' example_world = Inr example_world \<and>
   os_mkdir (example_os\<lparr>mkdir_refused := \<lambda>path w. Some PermissionError\<rparr>) ''/home/u/Desktop''
     example_world = Inl PermissionError \<and>
   PermissionError \<noteq> FileExistsError \<and>
   mkdir_if_required (example_os\<lparr>mkdir_refused := \<lambda>path w. Some PermissionError\<rparr>)
     ''/home/u/Desktop'' example_world = Inl PermissionError \<and>
   os_mkdir
     (example_os\<lparr>mkdir_refused := \<lambda>path w.
        if path = ''/home/u/Desktop/REINVENT_RL_DockStream_demo/docked_poses''
        then Some PermissionError else None\<rparr>)
     ''/home/u/Desktop/REINVENT_RL_DockStream_demo/docked_poses''
     \<lparr>ipynb_path_bound = Some ''/home/u/notebooks'',
      directories = {''/home/u/Desktop/REINVENT_RL_DockStream_demo'', ''/home/u/Desktop''},
      files = Map.empty\<rparr> = Inl PermissionError \<and>
   first_cell (RL RL_DockStream)
     (example_os\<lparr>mkdir_refused := \<lambda>path w.
        if path = ''/home/u/Desktop/REINVENT_RL_DockStream_demo/docked_poses''
        then Some PermissionError else None\<rparr>) example_world = Inl PermissionError \<and>
   run (RL RL_DockStream)
     (example_os\<lparr>mkdir_refused := \<lambda>path w.
        if path = ''/home/u/Desktop/REINVENT_RL_DockStream_demo/docked_poses''
        then Some PermissionError else None\<rparr>) example_world = Inl PermissionError \<and>
   os_mkdir example_os ''/home/u/Desktop/REINVENT_RL_DockStream_demo/docking_scores''
     \<lparr>ipynb_path_bound = Some ''/home/u/notebooks'',
      directories = {''/home/u/Desktop/REINVENT_RL_DockStream_demo/docked_poses'',
        ''/home/u/Desktop/REINVENT_RL_DockStream_demo'',
        ''/home/u/Desktop/REINVENT_RL_DockStream_demo/docking_scores''},
      files = Map.empty\<rparr> = Inl FileExistsError \<and>
   first_cell (RL RL_DockStream) example_os
     (example_world
        \<lparr>directories := {''/home/u/Desktop/REINVENT_RL_DockStream_demo/docking_scores''}\<rparr>) =
     Inr (variables_of (RL RL_DockStream) example_os ''/home/u/notebooks'',
          \<lparr>ipynb_path_bound = Some ''/home/u/notebooks'',
           directories = {''/home/u/Desktop/REINVENT_RL_DockStream_demo/docked_poses'',
             ''/home/u/Desktop/REINVENT_RL_DockStream_demo'',
             ''/home/u/Desktop/REINVENT_RL_DockStream_demo/docking_scores''},
           files = Map.empty\<rparr>)"
proof -
  let ?out = "''/home/u/Desktop/REINVENT_RL_DockStream_demo''"
  let ?poses = "''/home/u/Desktop/REINVENT_RL_DockStream_demo/docked_poses''"
  let ?scores = "''/home/u/Desktop/REINVENT_RL_DockStream_demo/docking_scores''"
  let ?os = "example_os\<lparr>mkdir_refused := \<lambda>path w.
        if path = ?poses then Some PermissionError else None\<rparr>"
  let ?w_name = "\<lparr>ipynb_path_bound = Some ''/home/u/notebooks'',
      directories = {''/home/u/Desktop''}, files = Map.empty\<rparr>"
  let ?w_out = "\<lparr>ipynb_path_bound = Some ''/home/u/notebooks'',
      directories = {?out, ''/home/u/Desktop''}, files = Map.empty\<rparr>"
  let ?v_start = "example_world\<lparr>directories := {?scores}\<rparr>"
  let ?v_name = "\<lparr>ipynb_path_bound = Some ''/home/u/notebooks'',
      directories = {?scores}, files = Map.empty\<rparr>"
  let ?v_out = "\<lparr>ipynb_path_bound = Some ''/home/u/notebooks'',
      directories = {?out, ?scores}, files = Map.empty\<rparr>"
  let ?v_poses = "\<lparr>ipynb_path_bound = Some ''/home/u/notebooks'',
      directories = {?poses, ?out, ?scores}, files = Map.empty\<rparr>"
  have a: "os_mkdir example_os ''/home/u/Desktop'' example_world = Inl FileExistsError"
    by (simp add: os_mkdir_def example_os_def example_world_def)
  have b: "os_mkdir (example_os\<lparr>mkdir_refused := \<lambda>path w. Some PermissionError\<rparr>) ''/home/u/Desktop''
     example_world = Inl PermissionError"
    by (simp add: os_mkdir_def)
  have c: "PermissionError \<noteq> FileExistsError"
    by simp
  have d: "mkdir_if_required example_os ''/home/u/Desktop'' example_world = Inr example_world"
    using a
    by (rule mkdir_if_required_spec [of example_os "''/home/u/Desktop''" example_world,
          THEN conjunct1, THEN mp])
  have e: "mkdir_if_required (example_os\<lparr>mkdir_refused := \<lambda>path w. Some PermissionError\<rparr>)
     ''/home/u/Desktop'' example_world = Inl PermissionError"
    using b c
    by (intro mkdir_if_required_spec
          [of "example_os\<lparr>mkdir_refused := \<lambda>path w. Some PermissionError\<rparr>"
            "''/home/u/Desktop''" example_world,
            THEN conjunct2, THEN conjunct2, THEN conjunct1, rule_format]) simp
  have paths: "output_dir (variables_of (RL RL_DockStream) os ''/home/u/notebooks'') = ?out"
    "output_ligands_docked_poses_path (variables_of (RL RL_DockStream) os ''/home/u/notebooks'') =
       ?poses"
    "output_ligands_docking_scores_path (variables_of (RL RL_DockStream) os ''/home/u/notebooks'') =
       ?scores"
    if "home os = ''/home/u''" for os
    using that by (simp_all add: variables_of_def expanduser_def rstrip_slash_def Let_def)
  have home: "home ?os = ''/home/u''" "home example_os = ''/home/u''"
    by (simp_all add: example_os_def)
  have name: "bind_ipynb_path ?os example_world = Inr (''/home/u/notebooks'', ?w_name)"
    "bind_ipynb_path example_os ?v_start = Inr (''/home/u/notebooks'', ?v_name)"
    by (simp_all add: bind_ipynb_path_def lookup_ipynb_path_def example_os_def example_world_def)
  have out: "os_mkdir ?os ?out ?w_name = Inr ?w_out"
    by (simp add: os_mkdir_def)
  have poses: "os_mkdir ?os ?poses ?w_out = Inl PermissionError"
    by (simp add: os_mkdir_def)
  have made: "os_mkdir example_os ?out ?v_name = Inr ?v_out" "os_mkdir example_os ?poses ?v_out = Inr ?v_poses"
    by (simp_all add: os_mkdir_def example_os_def)
  have found: "os_mkdir example_os ?scores ?v_poses = Inl FileExistsError"
    by (simp add: os_mkdir_def example_os_def)
  note refused = mkdir_if_required_spec [of ?os _ example_world,
      THEN conjunct2, THEN conjunct2, THEN conjunct2, THEN conjunct2, THEN conjunct2,
      THEN conjunct1, rule_format,
      where ip = "''/home/u/notebooks''"
        and vs = "variables_of (RL RL_DockStream) ?os ''/home/u/notebooks''"
        and ?w0.0 = ?w_name and ?w1.0 = ?w_out and e = PermissionError]
  have f: "first_cell (RL RL_DockStream) ?os example_world = Inl PermissionError \<and>
      run (RL RL_DockStream) ?os example_world = Inl PermissionError"
    using name(1) out poses c by (intro refused) (simp add: paths [OF home(1)])
  note passes = mkdir_if_required_spec [of example_os _ ?v_start,
      THEN conjunct2, THEN conjunct2, THEN conjunct2, THEN conjunct2, THEN conjunct2,
      THEN conjunct2, THEN conjunct2, rule_format,
      where ip = "''/home/u/notebooks''"
        and vs = "variables_of (RL RL_DockStream) example_os ''/home/u/notebooks''"
        and ?w0.0 = ?v_name and ?w1.0 = ?v_out and ?w2.0 = ?v_poses and ?w3.0 = ?v_poses]
  have g: "first_cell (RL RL_DockStream) example_os ?v_start =
      Inr (variables_of (RL RL_DockStream) example_os ''/home/u/notebooks'', ?v_poses)"
    using name(2) made found by (intro passes) (simp add: paths [OF home(2)])
  show ?thesis
    by (intro conjI a b c d e f [THEN conjunct1] f [THEN conjunct2] g poses found)
qed

text \<open>
  Claim C4, as stated, fails: the claim has the \<^verbatim>\<open>os.mkdir\<close> calls as the only
  operations under an exception handler, but the first cell of every notebook also
  evaluates the name \<^verbatim>\<open>ipynb_path\<close> under a handler for \<^verbatim>\<open>NameError\<close>.  In a fresh
  session the evaluation raises \<^verbatim>\<open>NameError\<close>; the run of the sampling notebook still
  comes to its end without an exception, and the name is bound to the working directory
  afterwards.  What the handler guards is the evaluation of the name and nothing else: in
  a session where the name is bound already, the run keeps its value and comes to its
  end even where \<^verbatim>\<open>os.getcwd\<close> would raise, while in a fresh session the exception of
  \<^verbatim>\<open>os.getcwd\<close>, raised inside the handler, ends the run.
\<close>

theorem handlers_counterexample:
  "lookup_ipynb_path example_world = Inl NameError \<and>
   run Sampling_Demo example_os example_world \<noteq> Inl NameError \<and>
   \<not> isl (run Sampling_Demo example_os example_world) \<and>
   ipynb_path_bound (final (projr (run Sampling_Demo example_os example_world))) =
     Some ''/home/u/notebooks'' \<and>
   lookup_ipynb_path (example_world\<lparr>ipynb_path_bound := Some ''/home/u/elsewhere''\<rparr>) =
     Inr ''/home/u/elsewhere'' \<and>
   \<not> isl (run Sampling_Demo (example_os\<lparr>getcwd := \<lambda>w. Inl OtherOSError\<rparr>)
            (example_world\<lparr>ipynb_path_bound := Some ''/home/u/elsewhere''\<rparr>)) \<and>
   ipynb_path_bound
     (final (projr (run Sampling_Demo (example_os\<lparr>getcwd := \<lambda>w. Inl OtherOSError\<rparr>)
                      (example_world\<lparr>ipynb_path_bound := Some ''/home/u/elsewhere''\<rparr>)))) =
     Some ''/home/u/elsewhere'' \<and>
   run Sampling_Demo (example_os\<lparr>getcwd := \<lambda>w. Inl OtherOSError\<rparr>) example_world =
     Inl OtherOSError"
  by (simp add: lookup_ipynb_path_def example_world_def run_def first_cell_def
      bind_ipynb_path_def example_os_def folders_of_def mkdir_if_required_def os_mkdir_def
      docking_cell_def write_configuration_def configuration_final write_file_def
      variables_of_def expanduser_def rstrip_slash_def Let_def)

text \<open>
  Claim C4, amended.  The notebooks handle two exceptions and no others: the
  \<^verbatim>\<open>NameError\<close> of the name \<^verbatim>\<open>ipynb_path\<close>, answered by binding the name to the
  working directory, and the \<^verbatim>\<open>FileExistsError\<close> of \<^verbatim>\<open>os.mkdir\<close>.  A name that is
  bound keeps its value, and \<^verbatim>\<open>os.getcwd\<close> is not called; the first cell works with
  that value or with the working directory, and the name is bound to it afterwards.  An
  exception of any other operation ends the run with that exception: of \<^verbatim>\<open>os.getcwd\<close>,
  of each \<^verbatim>\<open>os.mkdir\<close> (the output folder in every notebook, the folders for the docked
  poses and the docking scores with DockStream) other than \<^verbatim>\<open>FileExistsError\<close>, of
  opening the docking configuration, the configuration or \<^verbatim>\<open>run.err\<close> for writing.
  \<^verbatim>\<open>FileExistsError\<close> never leaves the first cell through \<^verbatim>\<open>os.mkdir\<close>.
\<close>

theorem uncaught_exceptions:
  "(ipynb_path_bound w = None \<and> getcwd os w = Inr cwd \<longrightarrow>
      lookup_ipynb_path w = Inl NameError \<and>
      bind_ipynb_path os w = Inr (cwd, w\<lparr>ipynb_path_bound := Some cwd\<rparr>)) \<and>
   (\<forall>p. ipynb_path_bound w = Some p \<longrightarrow>
      lookup_ipynb_path w = Inr p \<and> bind_ipynb_path os w = Inr (p, w)) \<and>
   (first_cell nb os w = Inr (vs, w1) \<longrightarrow>
      (case ipynb_path_bound w of
         Some p \<Rightarrow> ipynb_path vs = p
       | None \<Rightarrow> getcwd os w = Inr (ipynb_path vs)) \<and>
      ipynb_path_bound w1 = Some (ipynb_path vs) \<and>
      vs = variables_of nb os (ipynb_path vs)) \<and>
   (os_mkdir os path w = Inl FileExistsError \<longrightarrow> mkdir_if_required os path w = Inr w) \<and>
   (ipynb_path_bound w = None \<and> getcwd os w = Inl e \<longrightarrow> run nb os w = Inl e) \<and>
   (bind_ipynb_path os w = Inr (ip, w0) \<and>
      mkdir_all os (folders_of nb (variables_of nb os ip)) w0 = Inl e \<longrightarrow>
      e \<noteq> FileExistsError \<and> run nb os w = Inl e) \<and>
   (bind_ipynb_path os w = Inr (ip, w0) \<and>
      os_mkdir os (output_dir (variables_of nb os ip)) w0 = Inl e \<and> e \<noteq> FileExistsError \<longrightarrow>
      run nb os w = Inl e) \<and>
   (\<forall>ds u1. bind_ipynb_path os w = Inr (ip, w0) \<and>
      ds = variables_of (RL RL_DockStream) os ip \<and>
      (os_mkdir os (output_dir ds) w0 = Inr u1 \<or>
       (os_mkdir os (output_dir ds) w0 = Inl FileExistsError \<and> u1 = w0)) \<and>
      os_mkdir os (output_ligands_docked_poses_path ds) u1 = Inl e \<and> e \<noteq> FileExistsError \<longrightarrow>
      run (RL RL_DockStream) os w = Inl e) \<and>
   (\<forall>ds u1 u2. bind_ipynb_path os w = Inr (ip, w0) \<and>
      ds = variables_of (RL RL_DockStream) os ip \<and>
      (os_mkdir os (output_dir ds) w0 = Inr u1 \<or>
       (os_mkdir os (output_dir ds) w0 = Inl FileExistsError \<and> u1 = w0)) \<and>
      (os_mkdir os (output_ligands_docked_poses_path ds) u1 = Inr u2 \<or>
       (os_mkdir os (output_ligands_docked_poses_path ds) u1 = Inl FileExistsError \<and> u2 = u1)) \<and>
      os_mkdir os (output_ligands_docking_scores_path ds) u2 = Inl e \<and> e \<noteq> FileExistsError \<longrightarrow>
      run (RL RL_DockStream) os w = Inl e) \<and>
   (first_cell nb os w = Inr (vs, w1) \<and> nb = RL RL_DockStream \<and>
      open_refused os (docking_configuration_path vs) w1 = Some e \<longrightarrow> run nb os w = Inl e) \<and>
   (first_cell nb os w = Inr (vs, w1) \<and> docking_cell nb os vs w1 = Inr w2 \<and>
      open_refused os (configuration_JSON_path nb vs) w2 = Some e \<longrightarrow> run nb os w = Inl e) \<and>
   (first_cell nb os w = Inr (vs, w1) \<and> docking_cell nb os vs w1 = Inr w2 \<and>
      write_configuration nb os vs w2 = Inr w3 \<and>
      shell os (reinvent_command nb vs) w3 = (stdout, w4) \<and>
      open_refused os (os_path_join (output_dir vs) [''run.err'']) w4 = Some e \<longrightarrow>
      run nb os w = Inl e)"
proof (intro conjI impI allI)
  assume "ipynb_path_bound w = None \<and> getcwd os w = Inr cwd"
  then show "lookup_ipynb_path w = Inl NameError"
    and "bind_ipynb_path os w = Inr (cwd, w\<lparr>ipynb_path_bound := Some cwd\<rparr>)"
    by (simp_all add: lookup_ipynb_path_def bind_ipynb_path_def)
next
  fix p
  assume "ipynb_path_bound w = Some p"
  then show "lookup_ipynb_path w = Inr p" and "bind_ipynb_path os w = Inr (p, w)"
    by (simp_all add: lookup_ipynb_path_def bind_ipynb_path_def)
next
  assume first: "first_cell nb os w = Inr (vs, w1)"
  from first_cell_name [OF first]
  show "case ipynb_path_bound w of
         None \<Rightarrow> getcwd os w = Inr (ipynb_path vs)
       | Some p \<Rightarrow> ipynb_path vs = p"
    and "ipynb_path_bound w1 = Some (ipynb_path vs)"
    by simp_all
  from first obtain ip where "vs = variables_of nb os ip"
    by (cases "bind_ipynb_path os w")
      (auto simp: first_cell_def bind_exc_def split: sum.splits)
  then show "vs = variables_of nb os (ipynb_path vs)"
    by (simp add: variables_of_def Let_def)
next
  assume "os_mkdir os path w = Inl FileExistsError"
  then show "mkdir_if_required os path w = Inr w"
    by (simp add: mkdir_if_required_def)
next
  assume "ipynb_path_bound w = None \<and> getcwd os w = Inl e"
  then have "first_cell nb os w = Inl e"
    by (simp add: first_cell_def lookup_ipynb_path_def bind_ipynb_path_def)
  then show "run nb os w = Inl e"
    by (simp add: run_def)
next
  assume a: "bind_ipynb_path os w = Inr (ip, w0) \<and>
      mkdir_all os (folders_of nb (variables_of nb os ip)) w0 = Inl e"
  then show "e \<noteq> FileExistsError"
    by (auto dest: mkdir_all_never_exists)
  from a have "first_cell nb os w = Inl e"
    by (simp add: first_cell_def)
  then show "run nb os w = Inl e"
    by (simp add: run_def)
next
  assume "bind_ipynb_path os w = Inr (ip, w0) \<and>
      os_mkdir os (output_dir (variables_of nb os ip)) w0 = Inl e \<and> e \<noteq> FileExistsError"
  then have "first_cell nb os w = Inl e"
    by (elim conjE) (rule first_cell_first_folder_fails [of os w ip w0]; assumption)
  then show "run nb os w = Inl e"
    by (rule run_first_cell_fails)
next
  fix ds u1
  assume "bind_ipynb_path os w = Inr (ip, w0) \<and>
      ds = variables_of (RL RL_DockStream) os ip \<and>
      (os_mkdir os (output_dir ds) w0 = Inr u1 \<or>
       (os_mkdir os (output_dir ds) w0 = Inl FileExistsError \<and> u1 = w0)) \<and>
      os_mkdir os (output_ligands_docked_poses_path ds) u1 = Inl e \<and> e \<noteq> FileExistsError"
  then have "first_cell (RL RL_DockStream) os w = Inl e"
    by (elim conjE) (rule first_cell_second_folder_fails [of os w ip w0 ds u1]; assumption)
  then show "run (RL RL_DockStream) os w = Inl e"
    by (rule run_first_cell_fails)
next
  fix ds u1 u2
  assume "bind_ipynb_path os w = Inr (ip, w0) \<and>
      ds = variables_of (RL RL_DockStream) os ip \<and>
      (os_mkdir os (output_dir ds) w0 = Inr u1 \<or>
       (os_mkdir os (output_dir ds) w0 = Inl FileExistsError \<and> u1 = w0)) \<and>
      (os_mkdir os (output_ligands_docked_poses_path ds) u1 = Inr u2 \<or>
       (os_mkdir os (output_ligands_docked_poses_path ds) u1 = Inl FileExistsError \<and> u2 = u1)) \<and>
      os_mkdir os (output_ligands_docking_scores_path ds) u2 = Inl e \<and> e \<noteq> FileExistsError"
  then have "first_cell (RL RL_DockStream) os w = Inl e"
    by (elim conjE) (rule first_cell_third_folder_fails [of os w ip w0 ds u1 u2]; assumption)
  then show "run (RL RL_DockStream) os w = Inl e"
    by (rule run_first_cell_fails)
next
  assume "first_cell nb os w = Inr (vs, w1) \<and> nb = RL RL_DockStream \<and>
      open_refused os (docking_configuration_path vs) w1 = Some e"
  then show "run nb os w = Inl e"
    by (clarsimp simp: run_def docking_cell_def write_file_def)
next
  assume "first_cell nb os w = Inr (vs, w1) \<and> docking_cell nb os vs w1 = Inr w2 \<and>
      open_refused os (configuration_JSON_path nb vs) w2 = Some e"
  then show "run nb os w = Inl e"
    by (clarsimp simp: run_def write_configuration_refused)
next
  assume "first_cell nb os w = Inr (vs, w1) \<and> docking_cell nb os vs w1 = Inr w2 \<and>
      write_configuration nb os vs w2 = Inr w3 \<and>
      shell os (reinvent_command nb vs) w3 = (stdout, w4) \<and>
      open_refused os (os_path_join (output_dir vs) [''run.err'']) w4 = Some e"
  then show "run nb os w = Inl e"
    by (clarsimp simp: run_def write_file_def)
qed

theorem uncaught_exceptions_witness:
  "first_cell Sampling_Demo read_only_os example_world =
     Inr (variables_of Sampling_Demo read_only_os ''/home/u/notebooks'',
          \<lparr>ipynb_path_bound = Some ''/home/u/notebooks'',
           directories = {''/home/u/Desktop/REINVENT_sampling_demo'', ''/home/u/Desktop''},
           files = Map.empty\<rparr>) \<and>
   open_refused read_only_os
     (configuration_JSON_path Sampling_Demo
        (variables_of Sampling_Demo read_only_os ''/home/u/notebooks''))
     \<lparr>ipynb_path_bound = Some ''/home/u/notebooks'',
      directories = {''/home/u/Desktop/REINVENT_sampling_demo'', ''/home/u/Desktop''},
      files = Map.empty\<rparr> = Some PermissionError \<and>
   run Sampling_Demo read_only_os example_world = Inl PermissionError \<and>
   ipynb_path_bound (example_world\<lparr>ipynb_path_bound := Some ''/home/u/elsewhere''\<rparr>) =
     Some ''/home/u/elsewhere'' \<and>
   bind_ipynb_path (example_os\<lparr>getcwd := \<lambda>w. Inl OtherOSError\<rparr>)
     (example_world\<lparr>ipynb_path_bound := Some ''/home/u/elsewhere''\<rparr>) =
     Inr (''/home/u/elsewhere'', example_world\<lparr>ipynb_path_bound := Some ''/home/u/elsewhere''\<rparr>) \<and>
   os_mkdir
     (example_os\<lparr>mkdir_refused := \<lambda>path w.
        if path = ''/home/u/Desktop/REINVENT_RL_DockStream_demo/docked_poses''
        then Some PermissionError else None\<rparr>)
     ''/home/u/Desktop/REINVENT_RL_DockStream_demo/docked_poses''
     \<lparr>ipynb_path_bound = Some ''/home/u/notebooks'',
      directories = {''/home/u/Desktop/REINVENT_RL_DockStream_demo'', ''/home/u/Desktop''},
      files = Map.empty\<rparr> = Inl PermissionError \<and>
   run (RL RL_DockStream)
     (example_os\<lparr>mkdir_refused := \<lambda>path w.
        if path = ''/home/u/Desktop/REINVENT_RL_DockStream_demo/docked_poses''
        then Some PermissionError else None\<rparr>) example_world = Inl PermissionError"
proof -
  let ?vs = "variables_of Sampling_Demo read_only_os ''/home/u/notebooks''"
  let ?after = "\<lparr>ipynb_path_bound = Some ''/home/u/notebooks'',
           directories = {''/home/u/Desktop/REINVENT_sampling_demo'', ''/home/u/Desktop''},
           files = Map.empty\<rparr>"
  let ?elsewhere = "example_world\<lparr>ipynb_path_bound := Some ''/home/u/elsewhere''\<rparr>"
  let ?out = "''/home/u/Desktop/REINVENT_RL_DockStream_demo''"
  let ?poses = "''/home/u/Desktop/REINVENT_RL_DockStream_demo/docked_poses''"
  let ?os = "example_os\<lparr>mkdir_refused := \<lambda>path w.
        if path = ?poses then Some PermissionError else None\<rparr>"
  let ?named = "\<lparr>ipynb_path_bound = Some ''/home/u/notebooks'',
      directories = {''/home/u/Desktop''}, files = Map.empty\<rparr>"
  let ?made = "\<lparr>ipynb_path_bound = Some ''/home/u/notebooks'',
      directories = {?out, ''/home/u/Desktop''}, files = Map.empty\<rparr>"
  have first: "first_cell Sampling_Demo read_only_os example_world = Inr (?vs, ?after)"
    by (simp add: first_cell_def bind_ipynb_path_def lookup_ipynb_path_def read_only_os_def
        example_os_def example_world_def folders_of_def mkdir_if_required_def os_mkdir_def
        variables_of_def expanduser_def rstrip_slash_def Let_def)
  have docking: "docking_cell Sampling_Demo read_only_os ?vs ?after = Inr ?after"
    by (simp add: docking_cell_def)
  have refused: "open_refused read_only_os (configuration_JSON_path Sampling_Demo ?vs) ?after =
      Some PermissionError"
    by (simp add: read_only_os_def)
  have a: "run Sampling_Demo read_only_os example_world = Inl PermissionError"
    using first docking refused
    by (intro uncaught_exceptions [where w = example_world and os = read_only_os
          and nb = Sampling_Demo and vs = ?vs and ?w1.0 = ?after and ?w2.0 = ?after
          and e = PermissionError,
          THEN conjunct2, THEN conjunct2, THEN conjunct2, THEN conjunct2, THEN conjunct2,
          THEN conjunct2, THEN conjunct2, THEN conjunct2, THEN conjunct2, THEN conjunct2,
          THEN conjunct1, THEN mp]) simp
  have bound: "ipynb_path_bound ?elsewhere = Some ''/home/u/elsewhere''"
    by simp
  have b: "bind_ipynb_path (example_os\<lparr>getcwd := \<lambda>w. Inl OtherOSError\<rparr>) ?elsewhere =
      Inr (''/home/u/elsewhere'', ?elsewhere)"
    using bound
    by (intro uncaught_exceptions [where w = ?elsewhere
          and os = "example_os\<lparr>getcwd := \<lambda>w. Inl OtherOSError\<rparr>",
          THEN conjunct2, THEN conjunct1, rule_format, THEN conjunct2])
  have paths: "output_dir (variables_of (RL RL_DockStream) ?os ''/home/u/notebooks'') = ?out"
    "output_ligands_docked_poses_path (variables_of (RL RL_DockStream) ?os ''/home/u/notebooks'') =
       ?poses"
    by (simp_all add: variables_of_def expanduser_def rstrip_slash_def Let_def example_os_def)
  have name: "bind_ipynb_path ?os example_world = Inr (''/home/u/notebooks'', ?named)"
    by (simp add: bind_ipynb_path_def lookup_ipynb_path_def example_os_def example_world_def)
  have out: "os_mkdir ?os ?out ?named = Inr ?made"
    by (simp add: os_mkdir_def)
  have poses: "os_mkdir ?os ?poses ?made = Inl PermissionError"
    by (simp add: os_mkdir_def)
  have c: "run (RL RL_DockStream) ?os example_world = Inl PermissionError"
    using name out poses
    by (intro uncaught_exceptions [where w = example_world and os = ?os
          and ip = "''/home/u/notebooks''" and ?w0.0 = ?named and e = PermissionError,
          THEN conjunct2, THEN conjunct2, THEN conjunct2, THEN conjunct2, THEN conjunct2,
          THEN conjunct2, THEN conjunct2, THEN conjunct1, rule_format,
          where ds = "variables_of (RL RL_DockStream) ?os ''/home/u/notebooks''"
            and ?u1.0 = ?made])
      (simp add: paths)
  show ?thesis
    by (intro conjI first refused a bound b poses c)
qed

text \<open>
  Claim C5.  Every notebook builds its configuration and writes it into the file
  \<^verbatim>\<open>configuration_JSON_path\<close>, a file of the output directory: unless the operating
  system refuses to open the file, the cell raises no exception, and afterwards the file
  holds exactly the serialization of the dictionary by \<^verbatim>\<open>json.dump\<close> with
  \<^verbatim>\<open>indent=4\<close> and \<^verbatim>\<open>sort_keys=True\<close>.  Reading that text with \<^verbatim>\<open>json.loads\<close>
  succeeds and gives a dictionary with the same entries as the one in memory, which is
  equal to it in the sense of \<^verbatim>\<open>==\<close>.  This holds of every value with distinct keys and floats in
  positional notation, for every indentation and with or without sorted keys; the
  booleans are written as \<^verbatim>\<open>true\<close> and \<^verbatim>\<open>false\<close>.
\<close>

theorem configuration_file_round_trip:
  "(distinct_keys v \<and> floats_positional v \<longrightarrow>
      json_loads (json_dumps indent sort_keys v) = Some (written sort_keys v) \<and>
      same_entries (written sort_keys v) v \<and> py_eq (written sort_keys v) v) \<and>
   (\<exists>c. configuration nb vs = Inr c \<and>
      configuration_JSON_path nb vs = os_path_join (output_dir vs) [configuration_file nb] \<and>
      (open_refused os (configuration_JSON_path nb vs) w = None \<longrightarrow>
         (\<exists>w'. write_configuration nb os vs w = Inr w')) \<and>
      (\<forall>w'. write_configuration nb os vs w = Inr w' \<longrightarrow>
         files w' (configuration_JSON_path nb vs) = Some (json_dumps 4 True c)) \<and>
      (\<exists>c'. json_loads (json_dumps 4 True c) = Some c' \<and> same_entries c' c \<and> py_eq c' c)) \<and>
   json_dumps indent sort_keys (PBool True) = ''true'' \<and>
   json_dumps indent sort_keys (PBool False) = ''false''"
proof (intro conjI impI)
  assume "distinct_keys v \<and> floats_positional v"
  then show "json_loads (json_dumps indent sort_keys v) = Some (written sort_keys v)"
    and "same_entries (written sort_keys v) v" and "py_eq (written sort_keys v) v"
    by (simp_all add: json_loads_json_dumps same_entries_written same_entries_imp_py_eq)
next
  obtain c where c: "configuration nb vs = Inr c"
    using configuration_returns by blast
  then have wf: "distinct_keys c" "floats_positional c"
    by (rule distinct_keys_configuration, rule floats_positional_configuration)
  have "json_loads (json_dumps 4 True c) = Some (written True c)"
    "same_entries (written True c) c" "py_eq (written True c) c"
    using wf by (simp_all add: json_loads_json_dumps same_entries_written same_entries_imp_py_eq)
  moreover have "\<exists>w'. write_configuration nb os vs w = Inr w'"
    if "open_refused os (configuration_JSON_path nb vs) w = None"
    using that c by (simp add: write_configuration_def write_file_def)
  moreover have "files w' (configuration_JSON_path nb vs) = Some (json_dumps 4 True c)"
    if "write_configuration nb os vs w = Inr w'" for w'
    using c that by (rule write_configuration_content)
  ultimately show "\<exists>c. configuration nb vs = Inr c \<and>
      configuration_JSON_path nb vs = os_path_join (output_dir vs) [configuration_file nb] \<and>
      (open_refused os (configuration_JSON_path nb vs) w = None \<longrightarrow>
         (\<exists>w'. write_configuration nb os vs w = Inr w')) \<and>
      (\<forall>w'. write_configuration nb os vs w = Inr w' \<longrightarrow>
         files w' (configuration_JSON_path nb vs) = Some (json_dumps 4 True c)) \<and>
      (\<exists>c'. json_loads (json_dumps 4 True c) = Some c' \<and> same_entries c' c \<and> py_eq c' c)"
    using c by (auto simp: configuration_JSON_path_def)
next
  show "json_dumps indent sort_keys (PBool True) = ''true''"
    and "json_dumps indent sort_keys (PBool False) = ''false''"
    by (simp_all add: json_dumps_def iterencode.simps)
qed

theorem configuration_file_round_trip_witness:
  "distinct_keys (PDict [(''b'', PFloat (Decimal False 0 [2, 5])), (''a'', PList [PBool True, PStr ''x''])]) \<and>
   floats_positional
     (PDict [(''b'', PFloat (Decimal False 0 [2, 5])), (''a'', PList [PBool True, PStr ''x''])]) \<and>
   json_loads (json_dumps 4 True
     (PDict [(''b'', PFloat (Decimal False 0 [2, 5])), (''a'', PList [PBool True, PStr ''x''])])) =
     Some (PDict [(''a'', PList [PBool True, PStr ''x'']), (''b'', PFloat (Decimal False 0 [2, 5]))]) \<and>
   open_refused example_os (configuration_JSON_path Sampling_Demo example_variables)
     example_world = None \<and>
   (\<exists>c w' c'. configuration Sampling_Demo example_variables = Inr c \<and>
      write_configuration Sampling_Demo example_os example_variables example_world = Inr w' \<and>
      files w' (configuration_JSON_path Sampling_Demo example_variables) =
        Some (json_dumps 4 True c) \<and>
      json_loads (json_dumps 4 True c) = Some c' \<and> same_entries c' c)"
proof -
  let ?v = "PDict [(''b'', PFloat (Decimal False 0 [2, 5])), (''a'', PList [PBool True, PStr ''x''])]"
  have hyp: "distinct_keys ?v" "floats_positional ?v"
    by (simp_all add: shortest_frac_def)
  have written: "written True ?v =
      PDict [(''a'', PList [PBool True, PStr ''x'']), (''b'', PFloat (Decimal False 0 [2, 5]))]"
    by (simp add: items_def list_le_def list_less_def less_eq_char_def less_char_def)
  have open_ok: "open_refused example_os (configuration_JSON_path Sampling_Demo example_variables)
     example_world = None"
    by (simp add: example_os_def)
  note round_trip = configuration_file_round_trip [of ?v 4 True Sampling_Demo example_variables
      example_os example_world]
  from round_trip hyp written have "json_loads (json_dumps 4 True ?v) =
      Some (PDict [(''a'', PList [PBool True, PStr ''x'']), (''b'', PFloat (Decimal False 0 [2, 5]))])"
    by simp
  moreover from round_trip open_ok
  have "\<exists>c w' c'. configuration Sampling_Demo example_variables = Inr c \<and>
      write_configuration Sampling_Demo example_os example_variables example_world = Inr w' \<and>
      files w' (configuration_JSON_path Sampling_Demo example_variables) =
        Some (json_dumps 4 True c) \<and>
      json_loads (json_dumps 4 True c) = Some c' \<and> same_entries c' c"
    by blast
  ultimately show ?thesis
    using hyp open_ok by blast
qed

text \<open>
  Claim C7.  Building the configuration of the use case DRD2 step by step preserves the
  earlier entries.  An assignment \<^verbatim>\<open>d[k1]...[kn] = v\<close> changes nothing at any path that
  leaves the assigned path at some key.  After any number of the four assignments (the
  diversity filter, the inception and the reinforcement learning blocks under
  \<open>parameters\<close>, the logging block at top level) the entries \<open>version\<close>, \<open>run_type\<close> and
  \<open>parameters.scoring_function\<close> hold what the first dictionary stored, and so they do in
  the final dictionary that is written out.
\<close>

theorem configuration_DRD2_preserves:
  "(\<forall>d ks v d' p. setitem_path d ks v = Inr d' \<and> \<not> prefix ks p \<and> \<not> prefix p ks \<longrightarrow>
      getitem_path d' p = getitem_path d p) \<and>
   (\<forall>n. \<exists>c. assign_all (configuration_init_DRD2 (ipynb_path vs))
               (take n (configuration_assignments_DRD2 (ipynb_path vs) (output_dir vs))) = Inr c \<and>
          getitem_path c [''version''] = Inr (PInt 3) \<and>
          getitem_path c [''run_type''] = Inr (PStr ''reinforcement_learning'') \<and>
          getitem_path c [''parameters'', ''scoring_function''] =
            Inr (scoring_function_DRD2 (ipynb_path vs))) \<and>
   (\<exists>c. configuration (RL Use_Case_DRD2) vs = Inr c \<and>
      getitem_path c [''version''] =
        getitem_path (configuration_init_DRD2 (ipynb_path vs)) [''version''] \<and>
      getitem_path c [''run_type''] =
        getitem_path (configuration_init_DRD2 (ipynb_path vs)) [''run_type''] \<and>
      getitem_path c [''parameters'', ''scoring_function''] =
        getitem_path (configuration_init_DRD2 (ipynb_path vs))
          [''parameters'', ''scoring_function''])"
proof (intro conjI allI)
  fix d ks v d' p
  show "setitem_path d ks v = Inr d' \<and> \<not> prefix ks p \<and> \<not> prefix p ks \<longrightarrow>
      getitem_path d' p = getitem_path d p"
    using setitem_path_frame by blast
next
  fix n :: nat
  show "\<exists>c. assign_all (configuration_init_DRD2 (ipynb_path vs))
               (take n (configuration_assignments_DRD2 (ipynb_path vs) (output_dir vs))) = Inr c \<and>
          getitem_path c [''version''] = Inr (PInt 3) \<and>
          getitem_path c [''run_type''] = Inr (PStr ''reinforcement_learning'') \<and>
          getitem_path c [''parameters'', ''scoring_function''] =
            Inr (scoring_function_DRD2 (ipynb_path vs))"
    unfolding configuration_init_DRD2_def configuration_assignments_DRD2_def
    by (rule assign_all_use_case_steps)
next
  show "\<exists>c. configuration (RL Use_Case_DRD2) vs = Inr c \<and>
      getitem_path c [''version''] =
        getitem_path (configuration_init_DRD2 (ipynb_path vs)) [''version''] \<and>
      getitem_path c [''run_type''] =
        getitem_path (configuration_init_DRD2 (ipynb_path vs)) [''run_type''] \<and>
      getitem_path c [''parameters'', ''scoring_function''] =
        getitem_path (configuration_init_DRD2 (ipynb_path vs))
          [''parameters'', ''scoring_function'']"
    by (simp add: configuration_DRD2_final configuration_init_DRD2_def bind_exc_def)
qed

theorem configuration_DRD2_preserves_witness:
  "setitem_path (PDict [(''a'', PInt 1), (''b'', PDict [(''c'', PInt 2)])]) [''b'', ''d''] (PInt 3) =
     Inr (PDict [(''a'', PInt 1), (''b'', PDict [(''c'', PInt 2), (''d'', PInt 3)])]) \<and>
   \<not> prefix [''b'', ''d''] [''b'', ''c''] \<and> \<not> prefix [''b'', ''c''] [''b'', ''d''] \<and>
   getitem_path (PDict [(''a'', PInt 1), (''b'', PDict [(''c'', PInt 2), (''d'', PInt 3)])]) [''b'', ''c''] =
     Inr (PInt 2)"
proof -
  have step: "setitem_path (PDict [(''a'', PInt 1), (''b'', PDict [(''c'', PInt 2)])]) [''b'', ''d''] (PInt 3) =
     Inr (PDict [(''a'', PInt 1), (''b'', PDict [(''c'', PInt 2), (''d'', PInt 3)])])"
    by (simp add: bind_exc_def)
  have apart: "\<not> prefix [''b'', ''d''] [''b'', ''c'']" "\<not> prefix [''b'', ''c''] [''b'', ''d'']"
    by simp_all
  have "getitem_path (PDict [(''a'', PInt 1), (''b'', PDict [(''c'', PInt 2), (''d'', PInt 3)])]) [''b'', ''c''] =
      getitem_path (PDict [(''a'', PInt 1), (''b'', PDict [(''c'', PInt 2)])]) [''b'', ''c'']"
    using configuration_DRD2_preserves step apart by blast
  then show ?thesis
    using step apart by (simp add: bind_exc_def)
qed

text \<open>
  Claim C8.  The configuration is written by \<^verbatim>\<open>json.dump\<close> with \<^verbatim>\<open>sort_keys=True\<close> and
  \<^verbatim>\<open>indent=4\<close>, and the text written is the same for dictionaries that hold the same
  entries, whatever the order of insertion at any depth.  Two runs of the notebooks that
  build configurations equal in the sense of \<^verbatim>\<open>==\<close> write the same characters into their
  configuration files: the numbers of the notebooks are typed by their keys, and for such
  values \<^verbatim>\<open>==\<close> leaves nothing open but the order of insertion.

  The keys of every object stand in the text in ascending order.  The text of a
  dictionary that is not empty, at every depth, is an opening brace, its items in the
  order of their keys (all of them and no others), each as the key, a colon and the text
  of the value on a line of its own, and a closing brace.  Read back, the text gives a
  value whose dictionaries all have their keys in ascending order and the same entries as
  the value written, while a text written without \<^verbatim>\<open>sort_keys\<close> gives back the order of
  insertion.  The file of a notebook holds, in this order, the entries \<open>logging\<close>,
  \<open>parameters\<close>, \<open>run_type\<close> and \<open>version\<close>.
\<close>

theorem configuration_file_deterministic:
  "(distinct_keys a \<and> distinct_keys b \<and> same_entries a b \<longrightarrow>
      json_dumps 4 True a = json_dumps 4 True b) \<and>
   (distinct_keys a \<and> distinct_keys b \<and> typed_by_key key a \<and> typed_by_key key b \<and> py_eq a b \<longrightarrow>
      json_dumps 4 True a = json_dumps 4 True b) \<and>
   (configuration nb vs = Inr c \<and> write_configuration nb os vs w = Inr w1 \<and>
    configuration nb' vs' = Inr c' \<and> write_configuration nb' os' vs' w' = Inr w1' \<and>
    py_eq c c' \<longrightarrow>
      files w1 (configuration_JSON_path nb vs) = Some (json_dumps 4 True c) \<and>
      files w1' (configuration_JSON_path nb' vs') = files w1 (configuration_JSON_path nb vs)) \<and>
   sorted (map fst (items True dct)) \<and> set (items True dct) = set dct \<and>
   length (items True dct) = length dct \<and>
   (dct \<noteq> [] \<longrightarrow>
      iterencode 4 True level (PDict dct) =
        ''{'' @ newline_indent 4 (Suc level) @
        join ('','' @ newline_indent 4 (Suc level))
          (map (\<lambda>kv. encode_basestring_ascii (fst kv) @ '': '' @
                  iterencode 4 True (Suc level) (snd kv))
             (items True dct)) @
        newline_indent 4 level @ ''}'') \<and>
   (distinct_keys a \<and> floats_positional a \<longrightarrow>
      (\<exists>d. json_loads (json_dumps 4 True a) = Some d \<and> keys_sorted d \<and> same_entries d a) \<and>
      json_loads (json_dumps 4 False a) = Some a) \<and>
   (configuration nb vs = Inr c \<longrightarrow>
      (\<exists>top lg ps r v. c = PDict top \<and>
         items True top =
           [(''logging'', lg), (''parameters'', ps), (''run_type'', r), (''version'', v)])) \<and>
   (configuration nb vs = Inr c \<and> write_configuration nb os vs w = Inr w1 \<longrightarrow>
      (\<exists>entries lg ps r v. c = PDict entries \<and>
         set entries =
           {(''logging'', lg), (''parameters'', ps), (''run_type'', r), (''version'', v)} \<and>
         files w1 (configuration_JSON_path nb vs) =
           Some (''{'' @ [CHR 0x0A] @
             ''    '' @ [CHR 0x22] @ ''logging'' @ [CHR 0x22] @ '': '' @
               iterencode 4 True 1 lg @ '','' @ [CHR 0x0A] @
             ''    '' @ [CHR 0x22] @ ''parameters'' @ [CHR 0x22] @ '': '' @
               iterencode 4 True 1 ps @ '','' @ [CHR 0x0A] @
             ''    '' @ [CHR 0x22] @ ''run_type'' @ [CHR 0x22] @ '': '' @
               iterencode 4 True 1 r @ '','' @ [CHR 0x0A] @
             ''    '' @ [CHR 0x22] @ ''version'' @ [CHR 0x22] @ '': '' @
               iterencode 4 True 1 v @ [CHR 0x0A] @ ''}'')) \<and>
      (\<exists>text d. files w1 (configuration_JSON_path nb vs) = Some text \<and>
         json_loads text = Some d \<and> keys_sorted d \<and> same_entries d c))"
proof (intro conjI impI)
  show "json_dumps 4 True a = json_dumps 4 True b"
    if "distinct_keys a \<and> distinct_keys b \<and> same_entries a b"
    using that unfolding json_dumps_def by (intro iterencode_same_entries) simp_all
  show "json_dumps 4 True a = json_dumps 4 True b"
    if "distinct_keys a \<and> distinct_keys b \<and> typed_by_key key a \<and> typed_by_key key b \<and> py_eq a b"
    using that unfolding json_dumps_def
    by (intro iterencode_same_entries) (auto intro: py_eq_typed_imp_same_entries)
  assume run: "configuration nb vs = Inr c \<and> write_configuration nb os vs w = Inr w1 \<and>
    configuration nb' vs' = Inr c' \<and> write_configuration nb' os' vs' w' = Inr w1' \<and>
    py_eq c c'"
  then show content: "files w1 (configuration_JSON_path nb vs) = Some (json_dumps 4 True c)"
    by (blast intro: write_configuration_content)
  from run have "files w1' (configuration_JSON_path nb' vs') = Some (json_dumps 4 True c')"
    by (blast intro: write_configuration_content)
  moreover from run have "same_entries c c'"
    by (blast intro: py_eq_typed_imp_same_entries typed_by_key_configuration [of _ _ _ "[]"])
  with run have "iterencode 4 True 0 c = iterencode 4 True 0 c'"
    by (intro iterencode_same_entries) (auto dest: distinct_keys_configuration)
  ultimately show "files w1' (configuration_JSON_path nb' vs') =
      files w1 (configuration_JSON_path nb vs)"
    using content by (simp add: json_dumps_def)
next
  show "sorted (map fst (items True dct))"
    by (rule sorted_items)
  show "set (items True dct) = set dct" "length (items True dct) = length dct"
    by (simp_all add: items_def)
  show "iterencode 4 True level (PDict dct) =
        ''{'' @ newline_indent 4 (Suc level) @
        join ('','' @ newline_indent 4 (Suc level))
          (map (\<lambda>kv. encode_basestring_ascii (fst kv) @ '': '' @
                  iterencode 4 True (Suc level) (snd kv))
             (items True dct)) @
        newline_indent 4 level @ ''}''"
    if "dct \<noteq> []"
    using that by (rule json_dumps_object)
  show "\<exists>d. json_loads (json_dumps 4 True a) = Some d \<and> keys_sorted d \<and> same_entries d a"
    if "distinct_keys a \<and> floats_positional a"
    using that
    by (intro exI [of _ "written True a"])
      (simp add: json_loads_json_dumps keys_sorted_written same_entries_written)
  show "json_loads (json_dumps 4 False a) = Some a"
    if "distinct_keys a \<and> floats_positional a"
    using that by (simp add: json_loads_json_dumps written_insertion_order)
  show "\<exists>top lg ps r v. c = PDict top \<and>
         items True top =
           [(''logging'', lg), (''parameters'', ps), (''run_type'', r), (''version'', v)]"
    if "configuration nb vs = Inr c"
    using that by (rule configuration_top_level)
next
  assume run: "configuration nb vs = Inr c \<and> write_configuration nb os vs w = Inr w1"
  then have content: "files w1 (configuration_JSON_path nb vs) = Some (json_dumps 4 True c)"
    by (blast intro: write_configuration_content)
  from run obtain entries lg ps r v where c: "c = PDict entries"
    and sorted: "items True entries =
      [(''logging'', lg), (''parameters'', ps), (''run_type'', r), (''version'', v)]"
    using configuration_top_level by blast
  have "set entries = set (items True entries)"
    by simp
  then have entries: "set entries =
      {(''logging'', lg), (''parameters'', ps), (''run_type'', r), (''version'', v)}"
    unfolding sorted by simp
  show "\<exists>entries lg ps r v. c = PDict entries \<and>
         set entries =
           {(''logging'', lg), (''parameters'', ps), (''run_type'', r), (''version'', v)} \<and>
         files w1 (configuration_JSON_path nb vs) =
           Some (''{'' @ [CHR 0x0A] @
             ''    '' @ [CHR 0x22] @ ''logging'' @ [CHR 0x22] @ '': '' @
               iterencode 4 True 1 lg @ '','' @ [CHR 0x0A] @
             ''    '' @ [CHR 0x22] @ ''parameters'' @ [CHR 0x22] @ '': '' @
               iterencode 4 True 1 ps @ '','' @ [CHR 0x0A] @
             ''    '' @ [CHR 0x22] @ ''run_type'' @ [CHR 0x22] @ '': '' @
               iterencode 4 True 1 r @ '','' @ [CHR 0x0A] @
             ''    '' @ [CHR 0x22] @ ''version'' @ [CHR 0x22] @ '': '' @
               iterencode 4 True 1 v @ [CHR 0x0A] @ ''}'')"
    using c entries content json_dumps_top_level [OF sorted] by (intro exI conjI) simp_all
  from run have wf: "distinct_keys c" "floats_positional c"
    by (blast intro: distinct_keys_configuration floats_positional_configuration)+
  then have "json_loads (json_dumps 4 True c) = Some (written True c)"
    by (rule json_loads_json_dumps)
  with content wf(1) show "\<exists>text d. files w1 (configuration_JSON_path nb vs) = Some text \<and>
         json_loads text = Some d \<and> keys_sorted d \<and> same_entries d c"
    by (intro exI [of _ "json_dumps 4 True c"] exI [of _ "written True c"])
      (simp add: keys_sorted_written same_entries_written)
qed

lemma json_dumps_example:
  "json_dumps 4 True (PDict [(''b'', PInt 1), (''a'', PDict [(''y'', PBool True), (''x'', PNone)])]) =
     ''{'' @ [CHR 0x0A] @ ''    '' @ [CHR 0x22] @ ''a'' @ [CHR 0x22] @ '': {'' @ [CHR 0x0A] @
     ''        '' @ [CHR 0x22] @ ''x'' @ [CHR 0x22] @ '': null,'' @ [CHR 0x0A] @
     ''        '' @ [CHR 0x22] @ ''y'' @ [CHR 0x22] @ '': true'' @ [CHR 0x0A] @
     ''    },'' @ [CHR 0x0A] @
     ''    '' @ [CHR 0x22] @ ''b'' @ [CHR 0x22] @ '': 1'' @ [CHR 0x0A] @ ''}''"
  by code_simp

theorem configuration_file_deterministic_witness:
  "distinct_keys (PDict [(''b'', PInt 1), (''a'', PDict [(''y'', PBool True), (''x'', PNone)])]) \<and>
   distinct_keys (PDict [(''a'', PDict [(''x'', PNone), (''y'', PBool True)]), (''b'', PInt 1)]) \<and>
   same_entries (PDict [(''b'', PInt 1), (''a'', PDict [(''y'', PBool True), (''x'', PNone)])])
     (PDict [(''a'', PDict [(''x'', PNone), (''y'', PBool True)]), (''b'', PInt 1)]) \<and>
   json_dumps 4 True (PDict [(''b'', PInt 1), (''a'', PDict [(''y'', PBool True), (''x'', PNone)])]) =
   json_dumps 4 True (PDict [(''a'', PDict [(''x'', PNone), (''y'', PBool True)]), (''b'', PInt 1)]) \<and>
   json_dumps 4 True (PDict [(''b'', PInt 1), (''a'', PDict [(''y'', PBool True), (''x'', PNone)])]) =
     ''{'' @ [CHR 0x0A] @ ''    '' @ [CHR 0x22] @ ''a'' @ [CHR 0x22] @ '': {'' @ [CHR 0x0A] @
     ''        '' @ [CHR 0x22] @ ''x'' @ [CHR 0x22] @ '': null,'' @ [CHR 0x0A] @
     ''        '' @ [CHR 0x22] @ ''y'' @ [CHR 0x22] @ '': true'' @ [CHR 0x0A] @
     ''    },'' @ [CHR 0x0A] @
     ''    '' @ [CHR 0x22] @ ''b'' @ [CHR 0x22] @ '': 1'' @ [CHR 0x0A] @ ''}'' \<and>
   floats_positional
     (PDict [(''b'', PInt 1), (''a'', PDict [(''y'', PBool True), (''x'', PNone)])]) \<and>
   (\<exists>d. json_loads (json_dumps 4 True
           (PDict [(''b'', PInt 1), (''a'', PDict [(''y'', PBool True), (''x'', PNone)])])) =
         Some d \<and> keys_sorted d) \<and>
   json_loads (json_dumps 4 False
     (PDict [(''b'', PInt 1), (''a'', PDict [(''y'', PBool True), (''x'', PNone)])])) =
     Some (PDict [(''b'', PInt 1), (''a'', PDict [(''y'', PBool True), (''x'', PNone)])]) \<and>
   \<not> keys_sorted (PDict [(''b'', PInt 1), (''a'', PDict [(''y'', PBool True), (''x'', PNone)])]) \<and>
   (\<exists>c w1 w1'. configuration Sampling_Demo example_variables = Inr c \<and>
      write_configuration Sampling_Demo example_os example_variables example_world = Inr w1 \<and>
      write_configuration Sampling_Demo example_os example_variables
        (example_world \<lparr>files := [''/home/u/notes'' \<mapsto> ''old'']\<rparr>) = Inr w1' \<and>
      py_eq c c \<and>
      files w1' (configuration_JSON_path Sampling_Demo example_variables) =
        files w1 (configuration_JSON_path Sampling_Demo example_variables) \<and>
      (\<exists>text d. files w1 (configuration_JSON_path Sampling_Demo example_variables) = Some text \<and>
         json_loads text = Some d \<and> keys_sorted d \<and> same_entries d c))"
proof -
  let ?a = "PDict [(''b'', PInt 1), (''a'', PDict [(''y'', PBool True), (''x'', PNone)])]"
  let ?b = "PDict [(''a'', PDict [(''x'', PNone), (''y'', PBool True)]), (''b'', PInt 1)]"
  let ?w = "example_world \<lparr>files := [''/home/u/notes'' \<mapsto> ''old'']\<rparr>"
  have hyp: "distinct_keys ?a" "distinct_keys ?b" "same_entries ?a ?b" "floats_positional ?a"
    by auto
  have unsorted: "\<not> keys_sorted ?a"
    by (simp add: list_le_def list_less_def less_eq_char_def less_char_def)
  obtain c where c: "configuration Sampling_Demo example_variables = Inr c"
    using configuration_returns by blast
  then have eq: "py_eq c c"
    by (intro py_eq_refl distinct_keys_configuration)
  obtain w1 where w1:
    "write_configuration Sampling_Demo example_os example_variables example_world = Inr w1"
    using c by (simp add: write_configuration_def write_file_def example_os_def)
  obtain w1' where w1':
    "write_configuration Sampling_Demo example_os example_variables ?w = Inr w1'"
    using c by (simp add: write_configuration_def write_file_def example_os_def)
  note deterministic = configuration_file_deterministic [where a = ?a and b = ?b
      and nb = Sampling_Demo and vs = example_variables and c = c and os = example_os
      and w = example_world and ?w1.0 = w1 and nb' = Sampling_Demo and vs' = example_variables
      and c' = c and os' = example_os and w' = ?w and ?w1' = w1']
  have same: "json_dumps 4 True ?a = json_dumps 4 True ?b"
    using hyp(1-3) by (intro deterministic [THEN conjunct1, THEN mp] conjI)
  have files: "files w1' (configuration_JSON_path Sampling_Demo example_variables) =
      files w1 (configuration_JSON_path Sampling_Demo example_variables)"
    using c w1 w1' eq
    by (intro deterministic [THEN conjunct2, THEN conjunct2, THEN conjunct1, THEN mp,
          THEN conjunct2] conjI)
  note read = deterministic [THEN conjunct2, THEN conjunct2, THEN conjunct2, THEN conjunct2,
      THEN conjunct2, THEN conjunct2, THEN conjunct2, THEN conjunct1, THEN mp, OF conjI,
      OF hyp(1) hyp(4)]
  from read obtain d where d: "json_loads (json_dumps 4 True ?a) = Some d" "keys_sorted d"
    by blast
  have insertion: "json_loads (json_dumps 4 False ?a) = Some ?a"
    using read by (rule conjunct2)
  have "\<exists>text d. files w1 (configuration_JSON_path Sampling_Demo example_variables) = Some text \<and>
         json_loads text = Some d \<and> keys_sorted d \<and> same_entries d c"
    using c w1
    by (intro deterministic [THEN conjunct2, THEN conjunct2, THEN conjunct2, THEN conjunct2,
          THEN conjunct2, THEN conjunct2, THEN conjunct2, THEN conjunct2, THEN conjunct2,
          THEN mp, THEN conjunct2] conjI)
  with c w1 w1' eq files
  have runs: "\<exists>c w1 w1'. configuration Sampling_Demo example_variables = Inr c \<and>
      write_configuration Sampling_Demo example_os example_variables example_world = Inr w1 \<and>
      write_configuration Sampling_Demo example_os example_variables ?w = Inr w1' \<and>
      py_eq c c \<and>
      files w1' (configuration_JSON_path Sampling_Demo example_variables) =
        files w1 (configuration_JSON_path Sampling_Demo example_variables) \<and>
      (\<exists>text d. files w1 (configuration_JSON_path Sampling_Demo example_variables) = Some text \<and>
         json_loads text = Some d \<and> keys_sorted d \<and> same_entries d c)"
    by (intro exI [of _ c] exI [of _ w1] exI [of _ w1'] conjI)
  have sorted: "\<exists>d. json_loads (json_dumps 4 True ?a) = Some d \<and> keys_sorted d"
    using d by (intro exI [of _ d] conjI)
  show ?thesis
    by (intro conjI hyp same json_dumps_example sorted insertion unsorted runs)
qed

text \<open>
  Claim C9.  In the notebooks that display selected epochs, \<open>data\<close> is made of the matches
  at the indices 1, 150 and 299 (use case DRD2) or 1, 75 and 124 (the other demos that
  select), in their original order.  The first match, index 0, is never among them: the
  list depends on the matches behind the first only.  At most three blocks are kept, as
  many as there are selected indices below the number of matches, and none when there is
  at most one match.  Each kept block loses its final line, whatever ends its lines (a
  line feed, a carriage return with or without a line feed, or another line boundary):
  every block is the text of some lines with their ends, and what is kept of it is the
  lines before the last, joined by line feeds.  A block of a single line, with or without
  a boundary at its end, becomes the empty string.
\<close>

theorem data_selected_epochs:
  assumes "nb \<noteq> RL_DockStream"
  shows "(let A = (if nb = Use_Case_DRD2 then {1, 150, 299} else {1, 75, 124 :: nat}) in
          data nb stdout = map drop_last_line (nths (list_epochs stdout) A) \<and>
          data nb stdout = map drop_last_line (nths (tl (list_epochs stdout)) {j. Suc j \<in> A}) \<and>
          length (data nb stdout) = card {i \<in> A. i < length (list_epochs stdout)} \<and>
          length (data nb stdout) \<le> 3 \<and>
          (length (list_epochs stdout) \<le> 1 \<longrightarrow> data nb stdout = [])) \<and>
         (\<forall>ls l. (\<forall>x\<in>set (ls @ [l]). \<forall>c\<in>set x. \<not> is_linebreak c) \<and> l \<noteq> [] \<longrightarrow>
            drop_last_line (join [CHR 0x0A] (ls @ [l])) = join [CHR 0x0A] ls) \<and>
         (\<forall>l. (\<forall>c\<in>set l. \<not> is_linebreak c) \<longrightarrow> drop_last_line l = []) \<and>
         (\<forall>ps. lines_with_ends ps \<longrightarrow>
            splitlines (text_of ps) = map fst ps \<and>
            drop_last_line (text_of ps) = join [CHR 0x0A] (butlast (map fst ps))) \<and>
         (\<forall>element. \<exists>ps. lines_with_ends ps \<and> element = text_of ps \<and>
            drop_last_line element = join [CHR 0x0A] (butlast (map fst ps))) \<and>
         (\<forall>l b. lines_with_ends [(l, b)] \<longrightarrow> drop_last_line (l @ b) = [])"
proof -
  define A where "A = (if nb = Use_Case_DRD2 then {1, 150, 299} else {1, 75, 124 :: nat})"
  have eq: "data nb stdout = map drop_last_line (nths (list_epochs stdout) A)"
    using assms unfolding A_def by (cases nb) (simp_all add: select_epochs_nths)
  have "0 \<notin> A"
    by (simp add: A_def)
  then have eq_tl: "data nb stdout = map drop_last_line (nths (tl (list_epochs stdout)) {j. Suc j \<in> A})"
    unfolding eq by (subst nths_tl) simp_all
  have "{i. i < length (list_epochs stdout) \<and> i \<in> A} = {i \<in> A. i < length (list_epochs stdout)}"
    by auto
  then have len: "length (data nb stdout) = card {i \<in> A. i < length (list_epochs stdout)}"
    unfolding eq by (simp add: length_nths)
  have "finite A" "card A = 3"
    by (simp_all add: A_def)
  then have le3: "length (data nb stdout) \<le> 3"
    unfolding eq using card_nths_bound [of A "list_epochs stdout"] by simp
  have none: "length (list_epochs stdout) \<le> 1 \<longrightarrow> data nb stdout = []"
  proof
    assume "length (list_epochs stdout) \<le> 1"
    then have "tl (list_epochs stdout) = []"
      by (cases "list_epochs stdout") auto
    then show "data nb stdout = []"
      unfolding eq_tl by simp
  qed
  have lines: "\<forall>ls l. (\<forall>x\<in>set (ls @ [l]). \<forall>c\<in>set x. \<not> is_linebreak c) \<and> l \<noteq> [] \<longrightarrow>
           drop_last_line (join [CHR 0x0A] (ls @ [l])) = join [CHR 0x0A] ls"
    by (intro allI impI drop_last_line_join) blast+
  have single: "\<forall>l. (\<forall>c\<in>set l. \<not> is_linebreak c) \<longrightarrow> drop_last_line l = []"
  proof (intro allI impI)
    fix l :: string
    assume "\<forall>c\<in>set l. \<not> is_linebreak c"
    then show "drop_last_line l = []"
      by (cases "l = []") (simp_all add: drop_last_line_def splitlines_line splitlines_Nil)
  qed
  have ends: "\<forall>ps. lines_with_ends ps \<longrightarrow>
            splitlines (text_of ps) = map fst ps \<and>
            drop_last_line (text_of ps) = join [CHR 0x0A] (butlast (map fst ps))"
    by (simp add: splitlines_text_of drop_last_line_text_of)
  have every: "\<forall>element. \<exists>ps. lines_with_ends ps \<and> element = text_of ps \<and>
            drop_last_line element = join [CHR 0x0A] (butlast (map fst ps))"
  proof
    fix element
    obtain ps where "lines_with_ends ps" "element = text_of ps"
      using text_has_lines by blast
    then show "\<exists>ps. lines_with_ends ps \<and> element = text_of ps \<and>
            drop_last_line element = join [CHR 0x0A] (butlast (map fst ps))"
      using drop_last_line_text_of by blast
  qed
  have one_line: "\<forall>l b. lines_with_ends [(l, b)] \<longrightarrow> drop_last_line (l @ b) = []"
  proof (intro allI impI)
    fix l b
    assume "lines_with_ends [(l, b)]"
    then show "drop_last_line (l @ b) = []"
      using drop_last_line_text_of [of "[(l, b)]"] by simp
  qed
  have selected: "data nb stdout = map drop_last_line (nths (list_epochs stdout) A) \<and>
      data nb stdout = map drop_last_line (nths (tl (list_epochs stdout)) {j. Suc j \<in> A}) \<and>
      length (data nb stdout) = card {i \<in> A. i < length (list_epochs stdout)} \<and>
      length (data nb stdout) \<le> 3 \<and>
      (length (list_epochs stdout) \<le> 1 \<longrightarrow> data nb stdout = [])"
    using eq eq_tl len le3 none by (intro conjI)
  show ?thesis
    unfolding Let_def A_def [symmetric]
    by (intro conjI selected [THEN conjunct1] selected [THEN conjunct2] lines single ends every
        one_line)
qed

lemma data_example:
  "data RL_Tanimoto (''INFO a local INFO b'' @ [CHR 0x0A] @ ''c local INFO local'') = [''INFO b'']"
  by code_simp

theorem data_selected_epochs_witness:
  "RL_Tanimoto \<noteq> RL_DockStream \<and>
   data RL_Tanimoto (''INFO a local INFO b'' @ [CHR 0x0A] @ ''c local INFO local'') = [''INFO b''] \<and>
   length (data RL_Tanimoto (''INFO a local INFO b'' @ [CHR 0x0A] @ ''c local INFO local'')) \<le> 3 \<and>
   length (list_epochs ''INFO local'') \<le> 1 \<and> data RL_Tanimoto ''INFO local'' = [] \<and>
   list_all (\<lambda>c. \<not> is_linebreak c) ''INFO local'' \<and> drop_last_line ''INFO local'' = [] \<and>
   lines_with_ends [(''INFO a'', [CHR 0x0D, CHR 0x0A]), (''b'', [CHR 0x0D]), (''c local'', [])] \<and>
   drop_last_line (''INFO a'' @ [CHR 0x0D, CHR 0x0A] @ ''b'' @ [CHR 0x0D] @ ''c local'') =
     ''INFO a'' @ [CHR 0x0A] @ ''b'' \<and>
   lines_with_ends [(''INFO local'', [CHR 0x0D, CHR 0x0A])] \<and>
   drop_last_line (''INFO local'' @ [CHR 0x0D, CHR 0x0A]) = []"
proof -
  let ?ps = "[(''INFO a'', [CHR 0x0D, CHR 0x0A]), (''b'', [CHR 0x0D]), (''c local'', [])]"
  have nb: "RL_Tanimoto \<noteq> RL_DockStream"
    by simp
  have one: "length (list_epochs ''INFO local'') \<le> 1"
    by code_simp
  have chars: "\<forall>c\<in>set ''INFO local''. \<not> is_linebreak c"
    by (simp add: is_linebreak_def)
  have ends: "lines_with_ends ?ps" "lines_with_ends [(''INFO local'', [CHR 0x0D, CHR 0x0A])]"
    by (simp_all add: is_boundary_def is_linebreak_def)
  note thm1 = data_selected_epochs [OF nb, of "''INFO a local INFO b'' @ [CHR 0x0A] @ ''c local INFO local''"]
  note thm2 = data_selected_epochs [OF nb, of "''INFO local''"]
  have "length (data RL_Tanimoto (''INFO a local INFO b'' @ [CHR 0x0A] @ ''c local INFO local'')) \<le> 3"
    using thm1 unfolding Let_def by (elim conjE)
  moreover have "data RL_Tanimoto ''INFO local'' = []"
    using thm2 one unfolding Let_def by (elim conjE) (erule mp)
  moreover have "drop_last_line ''INFO local'' = []"
    using thm2 chars by blast
  moreover have "list_all (\<lambda>c. \<not> is_linebreak c) ''INFO local''"
    using chars by (simp only: list_all_iff)
  moreover from thm2 have "\<forall>ps. lines_with_ends ps \<longrightarrow>
      splitlines (text_of ps) = map fst ps \<and>
      drop_last_line (text_of ps) = join [CHR 0x0A] (butlast (map fst ps))"
    by (elim conjE)
  with ends(1) have "drop_last_line (text_of ?ps) = join [CHR 0x0A] (butlast (map fst ?ps))"
    by blast
  then have "drop_last_line (''INFO a'' @ [CHR 0x0D, CHR 0x0A] @ ''b'' @ [CHR 0x0D] @ ''c local'') =
     ''INFO a'' @ [CHR 0x0A] @ ''b''"
    by simp
  moreover from thm2 have "\<forall>l b. lines_with_ends [(l, b)] \<longrightarrow> drop_last_line (l @ b) = []"
    by (elim conjE)
  with ends(2) have "drop_last_line (''INFO local'' @ [CHR 0x0D, CHR 0x0A]) = []"
    by blast
  ultimately show ?thesis
    using nb one data_example ends by (intro conjI)
qed

end
